theory Spec2Isabelle
  imports Complex_Main "HOL-Library.Sublist" "HOL-Library.AList" "HOL-Library.Multiset"
begin

section \<open>JavaScript strings\<close>

text \<open>
  A JavaScript string is a sequence of UTF-16 code units.  A code unit is modelled by its
  number, so that the rupee sign (U+20B9) is one element, as it is for the regular
  expressions and the \<^verbatim>\<open>includes\<close>/\<^verbatim>\<open>endsWith\<close> calls of the source.  ASCII literals are
  written with \<open>ascii\<close>.
\<close>

type_synonym jsstring = "nat list"

definition ascii :: "string \<Rightarrow> jsstring" where
  "ascii s = map of_char s"

text \<open>
  \<^verbatim>\<open>s.replace(/c/g, rep)\<close> for a pattern that is one literal code unit and a replacement
  text without \<^verbatim>\<open>$\<close>: every occurrence of the unit is replaced, left to right.
\<close>

definition replaceAll :: "nat \<Rightarrow> jsstring \<Rightarrow> jsstring \<Rightarrow> jsstring" where
  "replaceAll c rep s = concat (map (\<lambda>x. if x = c then rep else [x]) s)"

text \<open>
  \<^verbatim>\<open>s.toLowerCase()\<close>.  The model has every mapping whose result holds a Basic Latin
  letter: \<open>A\<close>..\<open>Z\<close> (65..90) to \<open>a\<close>..\<open>z\<close>, the Kelvin sign (8490) to \<open>k\<close>, and the
  capital I with dot above (304) to \<open>i\<close> followed by a combining dot (775).  Every other
  code unit is kept: the lowercase of a letter outside Basic Latin lies outside it too and
  is not modelled.
\<close>

definition lowerUnit :: "nat \<Rightarrow> jsstring" where
  "lowerUnit c =
     (if 65 \<le> c \<and> c \<le> 90 then [c + 32]
      else if c = 8490 then [107]
      else if c = 304 then [105, 775]
      else [c])"

definition toLowerCase :: "jsstring \<Rightarrow> jsstring" where
  "toLowerCase s = concat (map lowerUnit s)"

text \<open>\<^verbatim>\<open>s.includes(sub)\<close> (named \<open>includesStr\<close>, since \<open>includes\<close> is reserved): \<open>sub\<close> occurs in \<open>s\<close> as a contiguous run of code units.\<close>

fun includesStr :: "jsstring \<Rightarrow> jsstring \<Rightarrow> bool" where
  "includesStr [] sub = (sub = [])"
| "includesStr (c # cs) sub = (prefix sub (c # cs) \<or> includesStr cs sub)"

text \<open>
  \<^verbatim>\<open>xs.sort(cmp)\<close>.  The language requires the sort to be stable and, for a consistent
  comparator, to leave \<open>cmp a b \<le> 0\<close> between neighbours; the engine's algorithm is not
  fixed.  The model is the stable insertion sort, which a consistent comparator cannot
  tell from any other stable sort.
\<close>

fun insertSorted :: "('a \<Rightarrow> 'a \<Rightarrow> 'n::{linorder,zero}) \<Rightarrow> 'a \<Rightarrow> 'a list \<Rightarrow> 'a list" where
  "insertSorted cmp x [] = [x]"
| "insertSorted cmp x (y # ys) =
     (if cmp x y \<le> 0 then x # y # ys else y # insertSorted cmp x ys)"

definition sortBy :: "('a \<Rightarrow> 'a \<Rightarrow> 'n::{linorder,zero}) \<Rightarrow> 'a list \<Rightarrow> 'a list" where
  "sortBy cmp xs = foldr (insertSorted cmp) xs []"

section \<open>Aptitude quiz (AptitudeQuiz.tsx)\<close>

subsection \<open>Data\<close>

text \<open>
  \<^verbatim>\<open>
  export type QuizResults = {
    streamScores: Record<"Arts" | "Science" | "Commerce" | "Vocational", number>
    summary: string
    recommended: ("Arts" | "Science" | "Commerce" | "Vocational")[]
  }
  type Phase = "quiz" | "review" | "submitting" | "result"
  \<close>
  An object is an ordered list of its properties, so \<open>streamScores\<close> is an association
  list from stream names to numbers.  The scores are sums of the integers 1 and 2 and are
  modelled as integers.  The AnswerMap \<^verbatim>\<open>Record<string, string>\<close> is an association list
  from question ids to the chosen option values.
\<close>

datatype stream = Arts | Science | Commerce | Vocational

type_synonym AnswerMap = "(jsstring \<times> jsstring) list"

record QuizResults =
  streamScores :: "(stream \<times> int) list"
  summary :: jsstring
  recommended :: "stream list"

datatype Phase = quiz | review | submitting | result

text \<open>The messages the component hands to the toast library, in the order of the calls.\<close>

datatype toast =
  ToastLoading jsstring | ToastSuccess jsstring | ToastError jsstring | ToastWarning jsstring

text \<open>
  The props the handlers read.  \<open>onSubmit\<close> is the optional external scoring call; its
  promise either rejects (\<open>Inl\<close>) or resolves with a result (\<open>Inr\<close>).
\<close>

record AptitudeQuizProps =
  durationSec :: int
  allowSkip :: bool
  autoSubmitOnTime :: bool
  onSubmit :: "(AnswerMap \<Rightarrow> unit + QuizResults) option"

text \<open>The component state: one field for each \<^verbatim>\<open>useState\<close>, and the toasts shown so far.\<close>

record QuizState =
  phase :: Phase
  index :: int
  answers :: AnswerMap
  remaining :: int
  isMounted :: bool
  results :: "QuizResults option"
  toasts :: "toast list"

subsection \<open>The heuristic scorer \<^verbatim>\<open>mockEvaluate\<close>\<close>

text \<open>
  \<^verbatim>\<open>
  const buckets = { Arts: 0, Science: 0, Commerce: 0, Vocational: 0 }
  Object.values(answers).forEach((val) => {
    const v = val.toLowerCase()
    if (v.includes("logic") || v.includes("math") || v.includes("science")) buckets.Science += 2
    else if (v.includes("business") || v.includes("finance") || v.includes("commerce")) buckets.Commerce += 2
    else if (v.includes("creative") || v.includes("art") || v.includes("design") || v.includes("language")) buckets.Arts += 2
    else buckets.Vocational += 1
  })
  const sorted = Object.keys(buckets).sort((a, b) => buckets[b] - buckets[a])
  return {
    streamScores: buckets,
    summary: `You show strengths aligned with ${sorted[0]}${sorted[1] ? ` and ${sorted[1]}` : ""}. ...`,
    recommended: sorted.slice(0, 2),
  }
  \<close>
  The 1.2 s delay before the computation has no effect on the result and is left out.
\<close>

definition initialBuckets :: "(stream \<times> int) list" where
  "initialBuckets = [(Arts, 0), (Science, 0), (Commerce, 0), (Vocational, 0)]"

definition Object_values :: "AnswerMap \<Rightarrow> jsstring list" where
  "Object_values a = map snd a"

definition Object_keys :: "(stream \<times> int) list \<Rightarrow> stream list" where
  "Object_keys b = map fst b"

text \<open>\<^verbatim>\<open>buckets.K += n\<close> on an object that has the property \<open>K\<close>.\<close>

definition addTo :: "stream \<Rightarrow> int \<Rightarrow> (stream \<times> int) list \<Rightarrow> (stream \<times> int) list" where
  "addTo k n b = AList.map_entry k (\<lambda>v. v + n) b"

definition scienceKeyword :: "jsstring \<Rightarrow> bool" where
  "scienceKeyword val =
     (let v = toLowerCase val
      in includesStr v (ascii ''logic'') \<or> includesStr v (ascii ''math'')
         \<or> includesStr v (ascii ''science''))"

definition commerceKeyword :: "jsstring \<Rightarrow> bool" where
  "commerceKeyword val =
     (let v = toLowerCase val
      in includesStr v (ascii ''business'') \<or> includesStr v (ascii ''finance'')
         \<or> includesStr v (ascii ''commerce''))"

definition artsKeyword :: "jsstring \<Rightarrow> bool" where
  "artsKeyword val =
     (let v = toLowerCase val
      in includesStr v (ascii ''creative'') \<or> includesStr v (ascii ''art'')
         \<or> includesStr v (ascii ''design'') \<or> includesStr v (ascii ''language''))"

text \<open>The body of the \<^verbatim>\<open>forEach\<close> callback.\<close>

definition scoreAnswer :: "jsstring \<Rightarrow> (stream \<times> int) list \<Rightarrow> (stream \<times> int) list" where
  "scoreAnswer val b =
     (if scienceKeyword val then addTo Science 2 b
      else if commerceKeyword val then addTo Commerce 2 b
      else if artsKeyword val then addTo Arts 2 b
      else addTo Vocational 1 b)"

text \<open>
  The comparator \<^verbatim>\<open>(a, b) => buckets[b] - buckets[a]\<close>.  A missing property reads as
  \<^verbatim>\<open>undefined\<close>, the difference is then \<^verbatim>\<open>NaN\<close>, which \<^verbatim>\<open>sort\<close> takes for 0.
\<close>

definition compareBuckets :: "(stream \<times> int) list \<Rightarrow> stream \<Rightarrow> stream \<Rightarrow> int" where
  "compareBuckets b x y =
     (case (map_of b y, map_of b x) of
        (Some vy, Some vx) \<Rightarrow> vy - vx
      | _ \<Rightarrow> 0)"

definition streamName :: "stream \<Rightarrow> jsstring" where
  "streamName k =
     (case k of Arts \<Rightarrow> ascii ''Arts'' | Science \<Rightarrow> ascii ''Science''
      | Commerce \<Rightarrow> ascii ''Commerce'' | Vocational \<Rightarrow> ascii ''Vocational'')"

definition summaryText :: "stream list \<Rightarrow> jsstring" where
  "summaryText sortedKeys =
     ascii ''You show strengths aligned with ''
     @ (case sortedKeys of [] \<Rightarrow> ascii ''undefined'' | k # _ \<Rightarrow> streamName k)
     @ (case sortedKeys of _ # k # _ \<Rightarrow> ascii '' and '' @ streamName k | _ \<Rightarrow> [])
     @ ascii ''. Explore related subjects and projects to validate your interest.''"

definition mockEvaluate :: "AnswerMap \<Rightarrow> QuizResults" where
  "mockEvaluate a =
     (let buckets = fold scoreAnswer (Object_values a) initialBuckets;
          sortedKeys = sortBy (compareBuckets buckets) (Object_keys buckets)
      in \<lparr> streamScores = buckets,
           summary = summaryText sortedKeys,
           recommended = take 2 sortedKeys \<rparr>)"

text \<open>
  Notions the statements about the scorer use: an answer no keyword matches, the number a
  result holds for a stream (0 when the property is missing), and \<open>streamScores\<close> with its
  four properties written out.
\<close>

definition unmatched :: "jsstring \<Rightarrow> bool" where
  "unmatched val = (\<not> scienceKeyword val \<and> \<not> commerceKeyword val \<and> \<not> artsKeyword val)"

definition scoreOf :: "QuizResults \<Rightarrow> stream \<Rightarrow> int" where
  "scoreOf r k = (case map_of (streamScores r) k of Some v \<Rightarrow> v | None \<Rightarrow> 0)"

definition bucketsOf :: "int \<Rightarrow> int \<Rightarrow> int \<Rightarrow> int \<Rightarrow> (stream \<times> int) list" where
  "bucketsOf a s c v = [(Arts, a), (Science, s), (Commerce, c), (Vocational, v)]"

definition sc :: "int \<Rightarrow> int \<Rightarrow> int \<Rightarrow> int \<Rightarrow> stream \<Rightarrow> int" where
  "sc a s c v k = (case k of Arts \<Rightarrow> a | Science \<Rightarrow> s | Commerce \<Rightarrow> c | Vocational \<Rightarrow> v)"

text \<open>A quiz of five questions, each answered with a value that holds a Science keyword.\<close>

definition scienceAnswers :: AnswerMap where
  "scienceAnswers =
     [(ascii ''q1'', ascii ''Logic puzzles''), (ascii ''q2'', ascii ''MATH olympiad''),
      (ascii ''q3'', ascii ''science fair''), (ascii ''q4'', ascii ''Mathematics''),
      (ascii ''q5'', ascii ''logical reasoning'')]"

subsection \<open>Submit and retake\<close>

text \<open>
  \<^verbatim>\<open>
  async function handleSubmit() {
    setPhase("submitting")
    const toastId = toast.loading("Analyzing your responses...")
    try {
      const res = onSubmit ? await onSubmit(answers) : await mockEvaluate(answers)
      setResults(res)
      setPhase("result")
      toast.success("Results ready", { id: toastId })
    } catch (e) {
      console.error(e)
      setPhase("review")
      toast.error("Failed to process results. Please try again.", { id: toastId })
    }
  }
  \<close>
  \<open>scoringCall\<close> is the awaited call, \<open>handleSubmit\<close> the handler from its first statement to
  the settling of the promise; no other handler is taken to run in between.
\<close>

definition scoringCall :: "AptitudeQuizProps \<Rightarrow> AnswerMap \<Rightarrow> unit + QuizResults" where
  "scoringCall p a = (case onSubmit p of Some f \<Rightarrow> f a | None \<Rightarrow> Inr (mockEvaluate a))"

definition handleSubmit :: "AptitudeQuizProps \<Rightarrow> QuizState \<Rightarrow> QuizState" where
  "handleSubmit p st =
     (let st1 = st\<lparr> phase := submitting,
                    toasts := toasts st @ [ToastLoading (ascii ''Analyzing your responses...'')] \<rparr>
      in case scoringCall p (answers st) of
           Inr res \<Rightarrow>
             st1\<lparr> results := Some res, phase := result,
                  toasts := toasts st1 @ [ToastSuccess (ascii ''Results ready'')] \<rparr>
         | Inl e \<Rightarrow>
             st1\<lparr> phase := review,
                  toasts := toasts st1
                    @ [ToastError (ascii ''Failed to process results. Please try again.'')] \<rparr>)"

text \<open>
  \<^verbatim>\<open>
  function handleRetake() {
    setAnswers({})
    setIndex(0)
    setResults(null)
    setRemaining(durationSec)
    setPhase("quiz")
  }
  \<close>
\<close>

definition handleRetake :: "AptitudeQuizProps \<Rightarrow> QuizState \<Rightarrow> QuizState" where
  "handleRetake p st =
     st\<lparr> answers := [], index := 0, results := None, remaining := durationSec p,
         phase := quiz \<rparr>"

text \<open>
  Inputs for the examples: a scoring call that always rejects, and a state in the review
  phase with two answers given.
\<close>

definition rejectingProps :: AptitudeQuizProps where
  "rejectingProps =
     \<lparr> durationSec = 720, allowSkip = True, autoSubmitOnTime = True,
       onSubmit = Some (\<lambda>a. Inl ()) \<rparr>"

definition reviewState :: QuizState where
  "reviewState =
     \<lparr> phase = review, index = 1,
       answers = [(ascii ''q1'', ascii ''math''), (ascii ''q2'', ascii ''design'')],
       remaining = 300, isMounted = True, results = None, toasts = [] \<rparr>"

section \<open>Map info window: \<^verbatim>\<open>escapeHtml\<close> (AptitudeQuiz.tsx)\<close>

text \<open>
  \<^verbatim>\<open>
  function escapeHtml(s: string) {
    return s
      .replace(/&/g, "&amp;")
      .replace(/</g, "&lt;")
      .replace(/>/g, "&gt;")
      .replace(/"/g, "&quot;");
  }
  \<close>
  The code units: \<open>&\<close> is 38, \<open><\<close> is 60, \<open>>\<close> is 62, the double quote is 34.
\<close>

definition escapeHtml :: "jsstring \<Rightarrow> jsstring" where
  "escapeHtml s =
     replaceAll 34 (ascii ''&quot;'')
       (replaceAll 62 (ascii ''&gt;'')
         (replaceAll 60 (ascii ''&lt;'')
           (replaceAll 38 (ascii ''&amp;'') s)))"

text \<open>The entity that stands for one code unit in the escaped text.\<close>

definition htmlEntity :: "nat \<Rightarrow> jsstring" where
  "htmlEntity c =
     (if c = 38 then ascii ''&amp;''
      else if c = 60 then ascii ''&lt;''
      else if c = 62 then ascii ''&gt;''
      else if c = 34 then ascii ''&quot;''
      else [c])"

section \<open>Host services\<close>

text \<open>
  Date parsing, the zone of local time, the printing and the rounding of numbers and
  locale-aware comparison are services of the JavaScript host, not code of the application;
  the functions that call them take them as the fields of a \<open>host\<close>.  A time value is the
  number of milliseconds since the epoch, as \<^verbatim>\<open>getTime()\<close> returns it.  The clock reading
  \<^verbatim>\<open>new Date()\<close> is the argument \<open>now\<close> of the functions that read it.

  A Number is a finite value, an infinity or \<^verbatim>\<open>NaN\<close>; the negative zero is not told from
  zero.  An arithmetic operation on finite Numbers is the exact operation followed by the
  host's rounding \<open>toNumber\<close> (IEEE 754 binary64, to nearest, ties to even, an infinity
  beyond the range); the value of a numeric literal is rounded the same way.
\<close>

datatype number = Finite real | PosInfinity | NegInfinity | NaN

record host =
  dateParse :: "jsstring \<Rightarrow> int option"
    \<comment> \<open>\<^verbatim>\<open>new Date(s).getTime()\<close>; \<open>None\<close> is \<^verbatim>\<open>NaN\<close>, an invalid date\<close>
  numberToString :: "number \<Rightarrow> jsstring"
    \<comment> \<open>\<^verbatim>\<open>String(n)\<close> for a Number\<close>
  toNumber :: "real \<Rightarrow> number"
    \<comment> \<open>the Number for a mathematical value\<close>
  localTime :: "int \<Rightarrow> int"
    \<comment> \<open>the local time reading of a time value (\<^verbatim>\<open>LocalTime\<close> of the language standard)\<close>
  utcTime :: "int \<Rightarrow> int"
    \<comment> \<open>the time value of a local time reading (\<^verbatim>\<open>UTC\<close> of the language standard)\<close>
  localeCompare :: "jsstring \<Rightarrow> jsstring \<Rightarrow> int"
    \<comment> \<open>\<^verbatim>\<open>a.localeCompare(b)\<close> with no locale and no options given\<close>

text \<open>
  The sign of a Number, with 0 for \<^verbatim>\<open>NaN\<close>: it is all that \<^verbatim>\<open>sort\<close> reads of the result
  of a comparator, which takes \<^verbatim>\<open>NaN\<close> for 0.
\<close>

definition numSign :: "number \<Rightarrow> real" where
  "numSign n =
     (case n of Finite x \<Rightarrow> sgn x | PosInfinity \<Rightarrow> 1 | NegInfinity \<Rightarrow> - 1 | NaN \<Rightarrow> 0)"

text \<open>\<^verbatim>\<open>a * b\<close> and \<^verbatim>\<open>a - b\<close> on Numbers.\<close>

definition numTimes :: "host \<Rightarrow> number \<Rightarrow> number \<Rightarrow> number" where
  "numTimes h a b =
     (case (a, b) of
        (Finite x, Finite y) \<Rightarrow> toNumber h (x * y)
      | _ \<Rightarrow>
          if a = NaN \<or> b = NaN \<or> numSign a * numSign b = 0 then NaN
          else if 0 < numSign a * numSign b then PosInfinity
          else NegInfinity)"

definition numMinus :: "host \<Rightarrow> number \<Rightarrow> number \<Rightarrow> number" where
  "numMinus h a b =
     (case (a, b) of
        (Finite x, Finite y) \<Rightarrow> toNumber h (x - y)
      | (Finite x, PosInfinity) \<Rightarrow> NegInfinity
      | (Finite x, NegInfinity) \<Rightarrow> PosInfinity
      | (PosInfinity, Finite y) \<Rightarrow> PosInfinity
      | (PosInfinity, NegInfinity) \<Rightarrow> PosInfinity
      | (NegInfinity, Finite y) \<Rightarrow> NegInfinity
      | (NegInfinity, PosInfinity) \<Rightarrow> NegInfinity
      | _ \<Rightarrow> NaN)"

text \<open>
  A host rounds the integers exactly when every integer of magnitude up to \<open>2\<^sup>5\<^sup>3\<close> is
  its own Number, as it is in binary64.
\<close>

definition roundsIntegersExactly :: "host \<Rightarrow> bool" where
  "roundsIntegersExactly h =
     (\<forall>i::int. \<bar>i\<bar> \<le> 2 ^ 53 \<longrightarrow> toNumber h (real_of_int i) = Finite (real_of_int i))"

text \<open>
  \<^verbatim>\<open>TimeClip\<close>: a time value beyond 8.64e15 ms on either side of the epoch is no date
  (\<open>None\<close>, the time value \<^verbatim>\<open>NaN\<close>).
\<close>

definition timeClip :: "int \<Rightarrow> int option" where
  "timeClip t = (if \<bar>t\<bar> \<le> 8640000000000000 then Some t else None)"

text \<open>The errors a built-in raises in the modelled code.\<close>

datatype jserror = TypeError | RangeError

definition msPerDay :: int where
  "msPerDay = 1000 * 60 * 60 * 24"

text \<open>\<^verbatim>\<open>Math.ceil(ms / (1000 * 60 * 60 * 24))\<close>\<close>

definition ceilDays :: "int \<Rightarrow> int" where
  "ceilDays ms = \<lceil>real_of_int ms / real_of_int msPerDay\<rceil>"

text \<open>
  The code units the regular expression class \<^verbatim>\<open>\s\<close> matches, which are also those
  \<^verbatim>\<open>trim\<close> and \<^verbatim>\<open>parseFloat\<close> skip.
\<close>

definition isWhiteSpace :: "nat \<Rightarrow> bool" where
  "isWhiteSpace c =
     (c \<in> {9, 10, 11, 12, 13, 32, 160, 5760, 8232, 8233, 8239, 8287, 12288, 65279}
      \<or> (8192 \<le> c \<and> c \<le> 8202))"

definition trim :: "jsstring \<Rightarrow> jsstring" where
  "trim s = rev (dropWhile isWhiteSpace (rev (dropWhile isWhiteSpace s)))"

definition endsWith :: "jsstring \<Rightarrow> jsstring \<Rightarrow> bool" where
  "endsWith s suf = suffix suf s"

section \<open>Scholarships (ScholarshipsTrackerSection.tsx)\<close>

subsection \<open>Data\<close>

text \<open>
  \<^verbatim>\<open>
  type Scholarship = {
    id: string
    name: string
    amount: number | string
    eligibility: string
    deadline: string | null
    category: string
    source?: string
    link?: string
    documents?: string[]
  }
  \<close>
  Both record types of the component have a field \<open>id\<close>; field names are global in HOL,
  so the fields of \<open>Scholarship\<close> carry the prefix \<open>s_\<close>, those of \<open>TrackedItem\<close> the prefix
  \<open>t_\<close>.  An optional or nullable field is an \<open>option\<close>.
\<close>

datatype amount = Num number | Str jsstring

record Scholarship =
  s_id :: jsstring
  s_name :: jsstring
  s_amount :: amount
  s_eligibility :: jsstring
  s_deadline :: "jsstring option"
  s_category :: jsstring
  s_source :: "jsstring option"
  s_link :: "jsstring option"
  s_documents :: "jsstring list option"

text \<open>
  The type is erased when the program runs, and the value that \<^verbatim>\<open>res.json()\<close> delivers
  is only declared to be an array of \<open>Scholarship\<close>s:
  \<^verbatim>\<open>
  const data: Scholarship[] = await res.json()
  setScholarships(Array.isArray(data) ? sanitizeScholarships(data) : [])
  \<close>
  It is any JSON value, and so is an entry of it when it is an array.  An object is the
  list of its members in the order of the text; of two members with one name the later
  one is the property.
\<close>

datatype json =
    JNull
  | JBool bool
  | JNum number
  | JStr jsstring
  | JArr "json list"
  | JObj "(jsstring \<times> json) list"

definition field :: "(jsstring \<times> json) list \<Rightarrow> string \<Rightarrow> json option" where
  "field kvs k = map_of (rev kvs) (ascii k)"

text \<open>Truthiness of a value; \<open>None\<close> is \<^verbatim>\<open>undefined\<close>, the value of a missing property.\<close>

definition truthyJ :: "json \<Rightarrow> bool" where
  "truthyJ v =
     (case v of
        JNull \<Rightarrow> False
      | JBool b \<Rightarrow> b
      | JNum n \<Rightarrow> n \<noteq> Finite 0 \<and> n \<noteq> NaN
      | JStr s \<Rightarrow> s \<noteq> []
      | JArr _ \<Rightarrow> True
      | JObj _ \<Rightarrow> True)"

definition truthy :: "json option \<Rightarrow> bool" where
  "truthy v = (case v of None \<Rightarrow> False | Some j \<Rightarrow> truthyJ j)"

text \<open>
  The objects that \<open>sanitizeScholarships\<close> builds: the fields hold whatever value the payload
  had there.  \<open>ofScholarship\<close> is the object of a \<open>Scholarship\<close>, \<open>wellTyped\<close> holds of the
  objects that are one, and \<open>toScholarship\<close> reads such an object back.
\<close>

record RawScholarship =
  r_id :: json
  r_name :: json
  r_amount :: json
  r_eligibility :: json
  r_deadline :: json
  r_category :: json
  r_source :: "json option"
  r_link :: "json option"
  r_documents :: "json list option"

definition ofAmount :: "amount \<Rightarrow> json" where
  "ofAmount a = (case a of Num n \<Rightarrow> JNum n | Str v \<Rightarrow> JStr v)"

definition ofScholarship :: "Scholarship \<Rightarrow> RawScholarship" where
  "ofScholarship s =
     \<lparr> r_id = JStr (s_id s), r_name = JStr (s_name s),
       r_amount = ofAmount (s_amount s),
       r_eligibility = JStr (s_eligibility s),
       r_deadline = (case s_deadline s of None \<Rightarrow> JNull | Some d \<Rightarrow> JStr d),
       r_category = JStr (s_category s),
       r_source = map_option JStr (s_source s),
       r_link = map_option JStr (s_link s),
       r_documents = map_option (map JStr) (s_documents s) \<rparr>"

definition isText :: "json \<Rightarrow> bool" where
  "isText v = (case v of JStr _ \<Rightarrow> True | _ \<Rightarrow> False)"

definition textOf :: "json \<Rightarrow> jsstring" where
  "textOf v = (case v of JStr s \<Rightarrow> s | _ \<Rightarrow> [])"

definition isAmount :: "json \<Rightarrow> bool" where
  "isAmount v = (case v of JStr _ \<Rightarrow> True | JNum _ \<Rightarrow> True | _ \<Rightarrow> False)"

definition amountOf :: "json \<Rightarrow> amount" where
  "amountOf v = (case v of JNum n \<Rightarrow> Num n | _ \<Rightarrow> Str (textOf v))"

definition wellTyped :: "RawScholarship \<Rightarrow> bool" where
  "wellTyped r =
     (isText (r_id r) \<and> isText (r_name r) \<and> isAmount (r_amount r)
      \<and> isText (r_eligibility r)
      \<and> (r_deadline r = JNull \<or> isText (r_deadline r))
      \<and> isText (r_category r)
      \<and> list_all isText (case r_source r of None \<Rightarrow> [] | Some v \<Rightarrow> [v])
      \<and> list_all isText (case r_link r of None \<Rightarrow> [] | Some v \<Rightarrow> [v])
      \<and> list_all isText (case r_documents r of None \<Rightarrow> [] | Some ds \<Rightarrow> ds))"

definition toScholarship :: "RawScholarship \<Rightarrow> Scholarship" where
  "toScholarship r =
     \<lparr> s_id = textOf (r_id r), s_name = textOf (r_name r),
       s_amount = amountOf (r_amount r),
       s_eligibility = textOf (r_eligibility r),
       s_deadline = (if r_deadline r = JNull then None else Some (textOf (r_deadline r))),
       s_category = textOf (r_category r),
       s_source = map_option textOf (r_source r),
       s_link = map_option textOf (r_link r),
       s_documents = map_option (map textOf) (r_documents r) \<rparr>"

subsection \<open>\<^verbatim>\<open>sanitizeScholarships\<close>\<close>

text \<open>
  \<^verbatim>\<open>
  function sanitizeScholarships(list: Scholarship[]): Scholarship[] {
    return list
      .filter((s) => s && s.id && s.name)
      .map((s) => ({
        ...s,
        amount: s.amount ?? 0,
        eligibility: s.eligibility || "Eligibility details not provided",
        category: s.category || "General",
        link: s.link || undefined,
        source: s.source || undefined,
        deadline: s.deadline || null,
        documents: Array.isArray(s.documents) ? s.documents : undefined,
      }))
  }
  \<close>
  \<open>sanitizeOne\<close> is the filter test and the mapping on one entry: the empty list when the
  entry is dropped, and else the object \<open>normalise\<close> builds from the members of the entry, its
  id \<open>i\<close> and its name \<open>n\<close>.  An entry that is no object is dropped: \<^verbatim>\<open>null\<close> is falsy,
  and a number, a boolean, a text and an array have no property \<^verbatim>\<open>id\<close>.  The test only
  asks for a truthy \<^verbatim>\<open>id\<close> and \<^verbatim>\<open>name\<close>: \<^verbatim>\<open>{id: "x", name: 123}\<close> is kept.
\<close>

definition orElse :: "json option \<Rightarrow> json \<Rightarrow> json" where
  "orElse v d = (case v of None \<Rightarrow> d | Some j \<Rightarrow> if truthyJ j then j else d)"

definition orNothing :: "json option \<Rightarrow> json option" where
  "orNothing v = (if truthy v then v else None)"

definition normalise :: "json \<Rightarrow> json \<Rightarrow> (jsstring \<times> json) list \<Rightarrow> RawScholarship" where
  "normalise i n kvs =
     \<lparr> r_id = i, r_name = n,
       r_amount = (case field kvs ''amount'' of
                     None \<Rightarrow> JNum (Finite 0)
                   | Some a \<Rightarrow> if a = JNull then JNum (Finite 0) else a),
       r_eligibility =
         orElse (field kvs ''eligibility'') (JStr (ascii ''Eligibility details not provided'')),
       r_deadline = orElse (field kvs ''deadline'') JNull,
       r_category = orElse (field kvs ''category'') (JStr (ascii ''General'')),
       r_source = orNothing (field kvs ''source''),
       r_link = orNothing (field kvs ''link''),
       r_documents = (case field kvs ''documents'' of Some (JArr ds) \<Rightarrow> Some ds | _ \<Rightarrow> None) \<rparr>"

definition sanitizeOne :: "json \<Rightarrow> RawScholarship list" where
  "sanitizeOne entry =
     (case entry of
        JObj kvs \<Rightarrow>
          (case (field kvs ''id'', field kvs ''name'') of
             (Some i, Some n) \<Rightarrow> if truthyJ i \<and> truthyJ n then [normalise i n kvs] else []
           | _ \<Rightarrow> [])
      | _ \<Rightarrow> [])"

definition sanitizeScholarships :: "json list \<Rightarrow> RawScholarship list" where
  "sanitizeScholarships lst = concat (map sanitizeOne lst)"

text \<open>The catalog that the component stores for a payload \<open>data\<close>.\<close>

definition loadedScholarships :: "json \<Rightarrow> RawScholarship list" where
  "loadedScholarships data = (case data of JArr lst \<Rightarrow> sanitizeScholarships lst | _ \<Rightarrow> [])"

text \<open>
  The payload entries whose members have the declared types, a member that is missing or
  \<^verbatim>\<open>null\<close> apart.
\<close>

definition textOrMissing :: "json option \<Rightarrow> bool" where
  "textOrMissing v = (case v of None \<Rightarrow> True | Some j \<Rightarrow> j = JNull \<or> isText j)"

definition declaredTypes :: "json \<Rightarrow> bool" where
  "declaredTypes entry =
     (case entry of
        JObj kvs \<Rightarrow>
          textOrMissing (field kvs ''id'') \<and> textOrMissing (field kvs ''name'')
          \<and> (case field kvs ''amount'' of None \<Rightarrow> True | Some a \<Rightarrow> a = JNull \<or> isAmount a)
          \<and> textOrMissing (field kvs ''eligibility'')
          \<and> textOrMissing (field kvs ''deadline'')
          \<and> textOrMissing (field kvs ''category'')
          \<and> textOrMissing (field kvs ''source'')
          \<and> textOrMissing (field kvs ''link'')
          \<and> (case field kvs ''documents'' of
                None \<Rightarrow> True
              | Some d \<Rightarrow> (case d of JArr ds \<Rightarrow> list_all isText ds | _ \<Rightarrow> d = JNull))
      | _ \<Rightarrow> True)"

subsection \<open>\<^verbatim>\<open>parseAmount\<close>\<close>

text \<open>
  \<^verbatim>\<open>parseFloat\<close> after the language standard: leading white space is skipped, then the
  longest prefix that is a decimal literal (sign, digits, fraction, exponent) is read and
  its value rounded by the host; without such a prefix the result is \<^verbatim>\<open>NaN\<close>.  The
  literal \<^verbatim>\<open>Infinity\<close> is left out: \<open>parseAmount\<close>, the only caller, lowercases its text
  first.  Code units: \<open>+\<close> 43, \<open>,\<close> 44, \<open>-\<close> 45, \<open>.\<close> 46,
  \<open>0\<close>..\<open>9\<close> 48..57, \<open>E\<close> 69, \<open>e\<close> 101, \<open>k\<close> 107, the rupee sign 8377.
\<close>

definition isDigit :: "nat \<Rightarrow> bool" where
  "isDigit c = (48 \<le> c \<and> c \<le> 57)"

definition digitsValue :: "jsstring \<Rightarrow> nat" where
  "digitsValue ds = foldl (\<lambda>acc c. 10 * acc + (c - 48)) 0 ds"

definition exponentPart :: "jsstring \<Rightarrow> int" where
  "exponentPart r =
     (case r of
        [] \<Rightarrow> 0
      | c # r1 \<Rightarrow>
          if c = 101 \<or> c = 69 then
            (case r1 of
               [] \<Rightarrow> 0
             | d # r2 \<Rightarrow>
                 if d = 45 then - int (digitsValue (takeWhile isDigit r2))
                 else if d = 43 then int (digitsValue (takeWhile isDigit r2))
                 else int (digitsValue (takeWhile isDigit r1)))
          else 0)"

text \<open>The sign of a literal, the text after the sign, and the value of an unsigned literal.\<close>

definition signOf :: "jsstring \<Rightarrow> real" where
  "signOf t = (case t of [] \<Rightarrow> 1 | c # _ \<Rightarrow> if c = 45 then - 1 else 1)"

definition afterSign :: "jsstring \<Rightarrow> jsstring" where
  "afterSign t = (case t of [] \<Rightarrow> [] | c # r \<Rightarrow> if c = 45 \<or> c = 43 then r else t)"

definition unsignedLiteral :: "jsstring \<Rightarrow> real option" where
  "unsignedLiteral u =
     (let ip = takeWhile isDigit u;
          r1 = dropWhile isDigit u;
          hasDot = (case r1 of [] \<Rightarrow> False | c # _ \<Rightarrow> c = 46);
          fp = (if hasDot then takeWhile isDigit (tl r1) else []);
          r2 = (if hasDot then dropWhile isDigit (tl r1) else r1);
          e = exponentPart r2 - int (length fp);
          m = real (digitsValue (ip @ fp))
      in if ip = [] \<and> fp = [] then None
         else Some (if 0 \<le> e then m * 10 ^ nat e else m / 10 ^ nat (- e)))"

definition parseFloat :: "host \<Rightarrow> jsstring \<Rightarrow> number" where
  "parseFloat h input =
     (let t = dropWhile isWhiteSpace input
      in case unsignedLiteral (afterSign t) of
           None \<Rightarrow> NaN
         | Some m \<Rightarrow> toNumber h (signOf t * m))"

text \<open>
  \<^verbatim>\<open>
  function parseAmount(val: number | string): number {
    if (typeof val === "number") return val
    const clean = val.replace(/[,\u20B9\s]/g, "").toLowerCase()
    if (clean.endsWith("k")) {
      const n = parseFloat(clean.slice(0, -1))
      return isNaN(n) ? 0 : n * 1000
    }
    const n = parseFloat(clean)
    return isNaN(n) ? 0 : n
  }
  \<close>
  (the rupee sign in the character class is written \<^verbatim>\<open>\u20B9\<close> here).
\<close>

definition stripAmount :: "jsstring \<Rightarrow> jsstring" where
  "stripAmount val = filter (\<lambda>c. \<not> (c = 44 \<or> c = 8377 \<or> isWhiteSpace c)) val"

definition parseAmount :: "host \<Rightarrow> amount \<Rightarrow> number" where
  "parseAmount h val =
     (case val of
        Num n \<Rightarrow> n
      | Str v \<Rightarrow>
          (let clean = toLowerCase (stripAmount v)
           in if endsWith clean (ascii ''k'') then
                (let n = parseFloat h (butlast clean)
                 in if n = NaN then Finite 0 else numTimes h n (Finite 1000))
              else
                (let n = parseFloat h clean
                 in if n = NaN then Finite 0 else n)))"

subsection \<open>The filtered list\<close>

text \<open>
  \<^verbatim>\<open>
  const filtered = useMemo(() => {
    let list = scholarships.slice()
    if (query.trim()) {
      const q = query.toLowerCase()
      list = list.filter(
        (s) =>
          s.name.toLowerCase().includes(q) ||
          (s.eligibility || "").toLowerCase().includes(q) ||
          (s.category || "").toLowerCase().includes(q) ||
          String(s.amount).toLowerCase().includes(q)
      )
    }
    if (category) list = list.filter((s) => s.category === category)
    if (eligibility) list = list.filter((s) => (s.eligibility || "").includes(eligibility))
    if (deadlineWindow !== "all") {
      const days = parseInt(deadlineWindow, 10)
      const now = new Date()
      list = list.filter((s) => {
        if (!s.deadline) return false
        const d = new Date(s.deadline)
        if (isNaN(d.getTime())) return false
        const diff = Math.ceil((d.getTime() - now.getTime()) / (1000 * 60 * 60 * 24))
        return diff >= 0 && diff <= days
      })
    }
    if (amountOrder) {
      list.sort((a, b) => {
        const av = parseAmount(a.amount)
        const bv = parseAmount(b.amount)
        return amountOrder === "asc" ? av - bv : bv - av
      })
    }
    return list
  }, [scholarships, query, category, eligibility, deadlineWindow, amountOrder])
  \<close>
  The filter settings are the \<open>criteria\<close>.  For a string \<open>x\<close>, \<^verbatim>\<open>x || ""\<close> is \<open>x\<close>.
\<close>

datatype order = asc | desc

datatype window = W7 | W14 | W30 | Wall

record criteria =
  query :: jsstring
  category :: "jsstring option"
  eligibility :: "jsstring option"
  amountOrder :: "order option"
  deadlineWindow :: window

text \<open>\<^verbatim>\<open>parseInt(deadlineWindow, 10)\<close> on "7", "14" and "30"; on "all" it is not called.\<close>

definition windowDays :: "window \<Rightarrow> int" where
  "windowDays w = (case w of W7 \<Rightarrow> 7 | W14 \<Rightarrow> 14 | W30 \<Rightarrow> 30 | Wall \<Rightarrow> 0)"

definition amountToString :: "host \<Rightarrow> amount \<Rightarrow> jsstring" where
  "amountToString h a = (case a of Num n \<Rightarrow> numberToString h n | Str v \<Rightarrow> v)"

definition matchesQuery :: "host \<Rightarrow> jsstring \<Rightarrow> Scholarship \<Rightarrow> bool" where
  "matchesQuery h q s =
     (includesStr (toLowerCase (s_name s)) q
      \<or> includesStr (toLowerCase (s_eligibility s)) q
      \<or> includesStr (toLowerCase (s_category s)) q
      \<or> includesStr (toLowerCase (amountToString h (s_amount s))) q)"

text \<open>The callback of the deadline filter, for a window of \<open>days\<close> days.\<close>

definition withinWindow :: "host \<Rightarrow> int \<Rightarrow> int \<Rightarrow> Scholarship \<Rightarrow> bool" where
  "withinWindow h now days s =
     (case s_deadline s of
        None \<Rightarrow> False
      | Some dl \<Rightarrow>
          if dl = [] then False
          else (case dateParse h dl of
                  None \<Rightarrow> False
                | Some d \<Rightarrow>
                    (let diff = ceilDays (d - now) in 0 \<le> diff \<and> diff \<le> days)))"

definition compareAmount :: "host \<Rightarrow> order \<Rightarrow> Scholarship \<Rightarrow> Scholarship \<Rightarrow> number" where
  "compareAmount h ord a b =
     (let av = parseAmount h (s_amount a); bv = parseAmount h (s_amount b)
      in if ord = asc then numMinus h av bv else numMinus h bv av)"

definition filtered :: "host \<Rightarrow> int \<Rightarrow> criteria \<Rightarrow> Scholarship list \<Rightarrow> Scholarship list" where
  "filtered h now c scholarships =
     (let l0 = scholarships;
          l1 = (if trim (query c) \<noteq> [] then filter (matchesQuery h (toLowerCase (query c))) l0
                else l0);
          l2 = (case category c of
                  None \<Rightarrow> l1
                | Some cat \<Rightarrow> if cat = [] then l1 else filter (\<lambda>s. s_category s = cat) l1);
          l3 = (case eligibility c of
                  None \<Rightarrow> l2
                | Some el \<Rightarrow>
                    if el = [] then l2 else filter (\<lambda>s. includesStr (s_eligibility s) el) l2);
          l4 = (if deadlineWindow c \<noteq> Wall
                then filter (withinWindow h now (windowDays (deadlineWindow c))) l3
                else l3)
      in case amountOrder c of
           None \<Rightarrow> l4
         | Some ord \<Rightarrow> sortBy (\<lambda>a b. numSign (compareAmount h ord a b)) l4)"

subsection \<open>The filtered list on the objects of the payload\<close>

text \<open>
  The same code on the objects that \<open>sanitizeScholarships\<close> delivers, where a field may hold a
  value of another type than the declared one; a method call on a value that has no such
  method raises a \<^verbatim>\<open>TypeError\<close>, which leaves the computation.

  \<^verbatim>\<open>String(v)\<close>: an array is the texts of its elements joined by commas, \<^verbatim>\<open>null\<close>
  elements as the empty text; an object is \<^verbatim>\<open>[object Object]\<close>, unless it has a member
  \<^verbatim>\<open>toString\<close> of its own, which shadows the inherited method and is no function: then
  the conversion finds no method that returns a primitive value and raises.
\<close>

definition bindE :: "jserror + 'a \<Rightarrow> ('a \<Rightarrow> jserror + 'b) \<Rightarrow> jserror + 'b" where
  "bindE m f = (case m of Inl e \<Rightarrow> Inl e | Inr x \<Rightarrow> f x)"

fun sequenceE :: "(jserror + 'a) list \<Rightarrow> jserror + 'a list" where
  "sequenceE [] = Inr []"
| "sequenceE (m # ms) =
     (case m of
        Inl e \<Rightarrow> Inl e
      | Inr x \<Rightarrow> (case sequenceE ms of Inl e \<Rightarrow> Inl e | Inr xs \<Rightarrow> Inr (x # xs)))"

fun joinComma :: "jsstring list \<Rightarrow> jsstring" where
  "joinComma [] = []"
| "joinComma [x] = x"
| "joinComma (x # y # ys) = x @ [44] @ joinComma (y # ys)"

fun jsToString :: "host \<Rightarrow> json \<Rightarrow> jserror + jsstring" where
  "jsToString h JNull = Inr (ascii ''null'')"
| "jsToString h (JBool b) = Inr (if b then ascii ''true'' else ascii ''false'')"
| "jsToString h (JNum n) = Inr (numberToString h n)"
| "jsToString h (JStr s) = Inr s"
| "jsToString h (JArr xs) =
     bindE (sequenceE (map (\<lambda>x. if x = JNull then Inr [] else jsToString h x) xs))
       (\<lambda>ts. Inr (joinComma ts))"
| "jsToString h (JObj kvs) =
     (if ascii ''toString'' \<in> fst ` set kvs then Inl TypeError
      else Inr (ascii ''[object Object]''))"

text \<open>\<^verbatim>\<open>v.toLowerCase().includes(q)\<close> and \<^verbatim>\<open>v || ""\<close>\<close>

definition includesLower :: "jsstring \<Rightarrow> json \<Rightarrow> jserror + bool" where
  "includesLower q v =
     (case v of JStr t \<Rightarrow> Inr (includesStr (toLowerCase t) q) | _ \<Rightarrow> Inl TypeError)"

definition orEmpty :: "json \<Rightarrow> json" where
  "orEmpty v = (if truthyJ v then v else JStr [])"

text \<open>\<^verbatim>\<open>a || b\<close>, where \<open>b\<close> is evaluated only when \<open>a\<close> is false.\<close>

definition orE :: "jserror + bool \<Rightarrow> jserror + bool \<Rightarrow> jserror + bool" where
  "orE a b = (case a of Inl e \<Rightarrow> Inl e | Inr x \<Rightarrow> if x then Inr True else b)"

definition matchesQueryRaw :: "host \<Rightarrow> jsstring \<Rightarrow> RawScholarship \<Rightarrow> jserror + bool" where
  "matchesQueryRaw h q s =
     orE (includesLower q (r_name s))
       (orE (includesLower q (orEmpty (r_eligibility s)))
          (orE (includesLower q (orEmpty (r_category s)))
             (bindE (jsToString h (r_amount s))
                (\<lambda>t. Inr (includesStr (toLowerCase t) q)))))"

text \<open>
  \<^verbatim>\<open>(s.eligibility || "").includes(eligibility)\<close>: on a text the substring test, on an
  array the membership test of \<^verbatim>\<open>Array.prototype.includes\<close>.
\<close>

definition includesEligibility :: "jsstring \<Rightarrow> RawScholarship \<Rightarrow> jserror + bool" where
  "includesEligibility el s =
     (case orEmpty (r_eligibility s) of
        JStr t \<Rightarrow> Inr (includesStr t el)
      | JArr xs \<Rightarrow> Inr (JStr el \<in> set xs)
      | _ \<Rightarrow> Inl TypeError)"

text \<open>
  \<^verbatim>\<open>new Date(v).getTime()\<close>: a text is parsed, an array or an object is parsed as its
  text, and any other value is taken for a number of milliseconds.
\<close>

definition dateOf :: "host \<Rightarrow> json \<Rightarrow> jserror + int option" where
  "dateOf h v =
     (case v of
        JStr t \<Rightarrow> Inr (dateParse h t)
      | JNum n \<Rightarrow>
          Inr (case n of
                 Finite x \<Rightarrow>
                   if \<bar>x\<bar> \<le> 8640000000000000
                   then Some (if 0 \<le> x then \<lfloor>x\<rfloor> else \<lceil>x\<rceil>) else None
               | _ \<Rightarrow> None)
      | JBool b \<Rightarrow> Inr (Some (if b then 1 else 0))
      | JNull \<Rightarrow> Inr (Some 0)
      | _ \<Rightarrow> bindE (jsToString h v) (\<lambda>t. Inr (dateParse h t)))"

definition withinWindowRaw :: "host \<Rightarrow> int \<Rightarrow> int \<Rightarrow> RawScholarship \<Rightarrow> jserror + bool" where
  "withinWindowRaw h now days s =
     (if \<not> truthyJ (r_deadline s) then Inr False
      else bindE (dateOf h (r_deadline s))
             (\<lambda>d. Inr (case d of
                          None \<Rightarrow> False
                        | Some t \<Rightarrow> (let diff = ceilDays (t - now) in 0 \<le> diff \<and> diff \<le> days))))"

text \<open>
  \<open>parseAmount\<close> on a value that is neither a number nor a text calls a \<^verbatim>\<open>replace\<close> that
  the value does not have.
\<close>

definition parseAmountRaw :: "host \<Rightarrow> json \<Rightarrow> jserror + number" where
  "parseAmountRaw h v =
     (case v of
        JNum n \<Rightarrow> Inr (parseAmount h (Num n))
      | JStr t \<Rightarrow> Inr (parseAmount h (Str t))
      | _ \<Rightarrow> Inl TypeError)"

definition compareAmountRaw ::
  "host \<Rightarrow> order \<Rightarrow> RawScholarship \<Rightarrow> RawScholarship \<Rightarrow> number" where
  "compareAmountRaw h ord a b =
     (case (parseAmountRaw h (r_amount a), parseAmountRaw h (r_amount b)) of
        (Inr av, Inr bv) \<Rightarrow> if ord = asc then numMinus h av bv else numMinus h bv av
      | _ \<Rightarrow> NaN)"

text \<open>
  \<^verbatim>\<open>filter\<close> with a callback that may raise: the callback runs on the elements from left
  to right, and its first error leaves the filter.
\<close>

fun filterE :: "('a \<Rightarrow> jserror + bool) \<Rightarrow> 'a list \<Rightarrow> jserror + 'a list" where
  "filterE p [] = Inr []"
| "filterE p (x # xs) =
     (case p x of
        Inl e \<Rightarrow> Inl e
      | Inr b \<Rightarrow>
          (case filterE p xs of
             Inl e \<Rightarrow> Inl e
           | Inr ys \<Rightarrow> Inr (if b then x # ys else ys)))"

text \<open>
  \<^verbatim>\<open>sort\<close> calls the comparator when the list has two elements or more, and then on every
  element at least once; the comparator parses the amounts of both its arguments.
\<close>

definition sortAmountRaw ::
  "host \<Rightarrow> order \<Rightarrow> RawScholarship list \<Rightarrow> jserror + RawScholarship list" where
  "sortAmountRaw h ord l =
     (if 2 \<le> length l \<and> list_ex (\<lambda>s. parseAmountRaw h (r_amount s) = Inl TypeError) l
      then Inl TypeError
      else Inr (sortBy (\<lambda>a b. numSign (compareAmountRaw h ord a b)) l))"

definition filteredRaw ::
  "host \<Rightarrow> int \<Rightarrow> criteria \<Rightarrow> RawScholarship list \<Rightarrow> jserror + RawScholarship list" where
  "filteredRaw h now c scholarships =
     bindE (if trim (query c) \<noteq> []
            then filterE (matchesQueryRaw h (toLowerCase (query c))) scholarships
            else Inr scholarships)
       (\<lambda>l1. bindE (Inr (case category c of
                           None \<Rightarrow> l1
                         | Some cat \<Rightarrow>
                             if cat = [] then l1 else filter (\<lambda>s. r_category s = JStr cat) l1))
          (\<lambda>l2. bindE (case eligibility c of
                          None \<Rightarrow> Inr l2
                        | Some el \<Rightarrow>
                            if el = [] then Inr l2 else filterE (includesEligibility el) l2)
             (\<lambda>l3. bindE (if deadlineWindow c \<noteq> Wall
                           then filterE (withinWindowRaw h now (windowDays (deadlineWindow c))) l3
                           else Inr l3)
                (\<lambda>l4. case amountOrder c of
                         None \<Rightarrow> Inr l4
                       | Some ord \<Rightarrow> sortAmountRaw h ord l4))))"

subsection \<open>The tracker\<close>

text \<open>
  \<^verbatim>\<open>
  type Status = "planning" | "in_progress" | "submitted" | "awarded" | "rejected"

  type TrackedItem = {
    id: string
    status: Status
    reminderDate?: string | null
    checklist: Record<string, boolean>
    savedAt: string
  }

  const [savedIds, setSavedIds] = useState<Set<string>>(new Set())
  const [tracked, setTracked] = useState<Record<string, TrackedItem>>({})
  \<close>
  A date that the component stores as an ISO string (\<^verbatim>\<open>toISOString()\<close>) is modelled by the
  time value the string denotes.  \<open>tracked\<close> and the checklists are maps over their own
  properties.
\<close>

datatype Status = planning | in_progress | submitted | awarded | rejected

record TrackedItem =
  t_id :: jsstring
  t_status :: Status
  t_reminderDate :: "int option"
  t_checklist :: "jsstring \<rightharpoonup> bool"
  t_savedAt :: int

record TrackerState =
  savedIds :: "jsstring set"
  tracked :: "jsstring \<rightharpoonup> TrackedItem"

definition DEFAULT_DOCS :: "jsstring list" where
  "DEFAULT_DOCS =
     [ascii ''Aadhaar Card'',
      ascii ''Income Certificate'',
      ascii ''Caste/Category Certificate (if applicable)'',
      ascii ''Previous Marksheet'',
      ascii ''Bonafide Student Certificate'',
      ascii ''Bank Passbook'']"

text \<open>
  \<^verbatim>\<open>
  function suggestReminder(deadline: string | null | undefined): string | null {
    if (!deadline) return null
    const d = new Date(deadline)
    if (isNaN(d.getTime())) return null
    const reminder = new Date(d)
    reminder.setDate(reminder.getDate() - 5)
    const now = new Date()
    if (reminder < now) {
      // If reminder in past, set for tomorrow 9am
      const t = new Date(now)
      t.setDate(t.getDate() + 1)
      t.setHours(9, 0, 0, 0)
      return t.toISOString()
    }
    return reminder.toISOString()
  }
  \<close>
  \<^verbatim>\<open>d.setDate(d.getDate() + n)\<close> reads the local time of the date, moves it by \<open>n\<close>
  calendar days with the time of day kept, converts back and clips
  (\<^verbatim>\<open>TimeClip(UTC(MakeDate(MakeDay(year, month, date + n), TimeWithinDay(t))))\<close>, where the
  day number of \<^verbatim>\<open>MakeDay(year, month, date + n)\<close> is the local day number plus \<open>n\<close>).
  \<^verbatim>\<open>setHours(9, 0, 0, 0)\<close> keeps the local day and sets the local time of day to
  09:00:00.000.  A setter leaves an invalid date invalid, \<^verbatim>\<open>reminder < now\<close> is false
  for an invalid \<open>reminder\<close>, and \<^verbatim>\<open>toISOString()\<close> of an invalid date raises a
  \<^verbatim>\<open>RangeError\<close>.  \<^verbatim>\<open>new Date(deadline)\<close> clips the parsed time value.
\<close>

definition shiftDays :: "host \<Rightarrow> int \<Rightarrow> int \<Rightarrow> int" where
  "shiftDays h t n = utcTime h (localTime h t + n * msPerDay)"

definition setDateBy :: "host \<Rightarrow> int \<Rightarrow> int \<Rightarrow> int option" where
  "setDateBy h t n = timeClip (shiftDays h t n)"

definition nineOClock :: "host \<Rightarrow> int \<Rightarrow> int" where
  "nineOClock h t = utcTime h (localTime h t div msPerDay * msPerDay + 9 * 60 * 60 * 1000)"

definition setHours9 :: "host \<Rightarrow> int \<Rightarrow> int option" where
  "setHours9 h t = timeClip (nineOClock h t)"

definition toISOString :: "int option \<Rightarrow> jserror + int" where
  "toISOString t = (case t of None \<Rightarrow> Inl RangeError | Some v \<Rightarrow> Inr v)"

definition newDate :: "host \<Rightarrow> jsstring \<Rightarrow> int option" where
  "newDate h text = (case dateParse h text of None \<Rightarrow> None | Some t \<Rightarrow> timeClip t)"

definition suggestReminder :: "host \<Rightarrow> int \<Rightarrow> jsstring option \<Rightarrow> jserror + int option" where
  "suggestReminder h now deadline =
     (case deadline of
        None \<Rightarrow> Inr None
      | Some dl \<Rightarrow>
          if dl = [] then Inr None
          else (case newDate h dl of
                  None \<Rightarrow> Inr None
                | Some d \<Rightarrow>
                    (case setDateBy h d (- 5) of
                       None \<Rightarrow> Inl RangeError
                     | Some reminder \<Rightarrow>
                         if reminder < now then
                           (case setDateBy h now 1 of
                              None \<Rightarrow> Inl RangeError
                            | Some t \<Rightarrow>
                                (case toISOString (setHours9 h t) of
                                   Inl e \<Rightarrow> Inl e
                                 | Inr v \<Rightarrow> Inr (Some v)))
                         else Inr (Some reminder))))"

text \<open>
  \<^verbatim>\<open>
  const handleSaveToggle = useCallback(
    (s: Scholarship) => {
      setSavedIds((prev) => {
        const next = new Set(prev)
        if (next.has(s.id)) {
          next.delete(s.id)
          toast("Removed from Tracker", { ... })
        } else {
          next.add(s.id)
          // Initialize tracked entry if absent
          setTracked((tprev) => {
            if (tprev[s.id]) return tprev
            const checklistDocs = (s.documents && s.documents.length > 0 ? s.documents : DEFAULT_DOCS).reduce(
              (acc, d) => {
                acc[d] = false
                return acc
              },
              {} as Record<string, boolean>
            )
            return {
              ...tprev,
              [s.id]: {
                id: s.id,
                status: "planning",
                reminderDate: suggestReminder(s.deadline),
                checklist: checklistDocs,
                savedAt: new Date().toISOString(),
              },
            }
          })
          toast("Saved to Tracker", { ... })
        }
        return next
      })
    },
    [setSavedIds]
  )
  \<close>
  The two toasts change no state and are left out.  The test \<^verbatim>\<open>tprev[s.id]\<close> reads a
  property of a plain object: it is truthy for a stored \<open>TrackedItem\<close>, and also for a name
  that every object inherits from \<^verbatim>\<open>Object.prototype\<close>.  The assignment
  \<^verbatim>\<open>acc[d] = false\<close> creates the property \<open>d\<close>, except for \<open>d\<close> = \<^verbatim>\<open>__proto__\<close>, where it
  calls the inherited setter, which ignores a value that is no object.  An error that
  \<open>suggestReminder\<close> raises leaves the updater, and the handler, without a new state.
\<close>

definition objectPrototypeKeys :: "jsstring list" where
  "objectPrototypeKeys =
     [ascii ''constructor'', ascii ''hasOwnProperty'', ascii ''isPrototypeOf'',
      ascii ''propertyIsEnumerable'', ascii ''toLocaleString'', ascii ''toString'',
      ascii ''valueOf'', ascii ''__proto__'', ascii ''__defineGetter__'',
      ascii ''__defineSetter__'', ascii ''__lookupGetter__'', ascii ''__lookupSetter__'']"

definition hasTruthy :: "(jsstring \<rightharpoonup> TrackedItem) \<Rightarrow> jsstring \<Rightarrow> bool" where
  "hasTruthy tprev k = (tprev k \<noteq> None \<or> k \<in> set objectPrototypeKeys)"

definition requiredDocs :: "Scholarship \<Rightarrow> jsstring list" where
  "requiredDocs s =
     (case s_documents s of
        None \<Rightarrow> DEFAULT_DOCS
      | Some ds \<Rightarrow> if length ds > 0 then ds else DEFAULT_DOCS)"

definition checklistDocs :: "Scholarship \<Rightarrow> (jsstring \<rightharpoonup> bool)" where
  "checklistDocs s =
     foldl (\<lambda>acc d. if d = ascii ''__proto__'' then acc else acc(d \<mapsto> False)) Map.empty
       (requiredDocs s)"

definition seedTracked :: "Scholarship \<Rightarrow> int option \<Rightarrow> int \<Rightarrow> TrackedItem" where
  "seedTracked s reminder now =
     \<lparr> t_id = s_id s, t_status = planning,
       t_reminderDate = reminder,
       t_checklist = checklistDocs s,
       t_savedAt = now \<rparr>"

definition handleSaveToggle ::
  "host \<Rightarrow> int \<Rightarrow> Scholarship \<Rightarrow> TrackerState \<Rightarrow> jserror + TrackerState" where
  "handleSaveToggle h now s st =
     (if s_id s \<in> savedIds st then
        Inr (st\<lparr> savedIds := savedIds st - {s_id s} \<rparr>)
      else if hasTruthy (tracked st) (s_id s) then
        Inr (st\<lparr> savedIds := insert (s_id s) (savedIds st) \<rparr>)
      else
        (case suggestReminder h now (s_deadline s) of
           Inl e \<Rightarrow> Inl e
         | Inr reminder \<Rightarrow>
             Inr (st\<lparr> savedIds := insert (s_id s) (savedIds st),
                      tracked := (tracked st)(s_id s \<mapsto> seedTracked s reminder now) \<rparr>)))"

subsection \<open>The deadline window of the second tracker component\<close>



section \<open>Course and career recommendations\<close>

subsection \<open>Courses (CareerRecommendationsSection.tsx)\<close>

text \<open>
  \<^verbatim>\<open>
  type Course = {
    id: string; title: string; stream: string; description: string;
    level: "Certificate" | "Diploma" | "Undergraduate" | "Postgraduate";
    duration?: string; salaryRange?: string; qualifications?: string[]; prospects?: string;
    popularity?: number; relevance?: number; imageUrl?: string;
    resources?: Array<{ label: string; url: string }>;
  };
  type SortKey = "relevance" | "salary" | "popularity" | "alphabetical";
  type FilterLevel = "all" | "Undergraduate" | "Postgraduate" | "Diploma" | "Certificate" | "10+2";
  \<close>
  The record has the fields that the filter and the sort read.
\<close>

datatype CourseLevel = Certificate | Diploma | Undergraduate | Postgraduate

datatype FilterLevel = LevelAll | LevelOf CourseLevel | Level10plus2

datatype SortKey = relevance | salary | popularity | alphabetical

record Course =
  c_id :: jsstring
  c_title :: jsstring
  c_stream :: jsstring
  c_description :: jsstring
  c_level :: CourseLevel
  c_salaryRange :: "jsstring option"
  c_popularity :: "real option"
  c_relevance :: "real option"

text \<open>
  \<^verbatim>\<open>
  const filteredCourses = useMemo(() => {
    const list = data?.courses ?? [];
    const byLevel =
      level === "all"
        ? list
        : list.filter((c) => (level === "10+2" ? false : c.level === level ||
            (level === "Undergraduate" && c.level === "Undergraduate")));
    const bySearch = search
      ? byLevel.filter(
          (c) =>
            c.title.toLowerCase().includes(search.toLowerCase()) ||
            c.stream.toLowerCase().includes(search.toLowerCase()) ||
            c.description.toLowerCase().includes(search.toLowerCase()),
        )
      : byLevel;

    const withSalarySort = (a: Course, b: Course) => {
      // salaryRange: "4L-10L" -> parse upper bound
      const parse = (s?: string) => {
        if (!s) return 0;
        const match = s.replace(/[^0-9\-\u2013]/g, "").split(/-|\u2013/).map(Number);
        return match[1] || match[0] || 0;
      };
      return parse(b.salaryRange) - parse(a.salaryRange);
    };

    const sorted = [...bySearch].sort((a, b) => {
      switch (sort) {
        case "relevance":
          return (b.relevance ?? 0) - (a.relevance ?? 0);
        case "popularity":
          return (b.popularity ?? 0) - (a.popularity ?? 0);
        case "salary":
          return withSalarySort(a, b);
        case "alphabetical":
          return a.title.localeCompare(b.title);
        default:
          return 0;
      }
    });
    return sorted;
  }, [data?.courses, level, search, sort]);
  \<close>
  (the en dash of the two regular expressions is written \<^verbatim>\<open>\u2013\<close> here; its code unit is
  8211).  \<^verbatim>\<open>Number\<close> of a run of digits is its decimal value, and 0 for the empty text.
\<close>

definition orZero :: "real option \<Rightarrow> real" where
  "orZero v = (case v of None \<Rightarrow> 0 | Some x \<Rightarrow> x)"

fun splitOn :: "(nat \<Rightarrow> bool) \<Rightarrow> jsstring \<Rightarrow> jsstring list" where
  "splitOn p [] = [[]]"
| "splitOn p (c # cs) =
     (if p c then [] # splitOn p cs
      else (case splitOn p cs of [] \<Rightarrow> [[c]] | x # xs \<Rightarrow> (c # x) # xs))"

definition parseSalary :: "jsstring option \<Rightarrow> real" where
  "parseSalary s =
     (case s of
        None \<Rightarrow> 0
      | Some t \<Rightarrow>
          if t = [] then 0
          else (let kept = filter (\<lambda>c. isDigit c \<or> c = 45 \<or> c = 8211) t;
                    match = map (\<lambda>p. real (digitsValue p))
                              (splitOn (\<lambda>c. c = 45 \<or> c = 8211) kept)
                in case match of
                     [] \<Rightarrow> 0
                   | [a] \<Rightarrow> a
                   | a # b # _ \<Rightarrow> if b \<noteq> 0 then b else a))"

definition compareCourses :: "host \<Rightarrow> SortKey \<Rightarrow> Course \<Rightarrow> Course \<Rightarrow> real" where
  "compareCourses h key a b =
     (case key of
        relevance \<Rightarrow> orZero (c_relevance b) - orZero (c_relevance a)
      | popularity \<Rightarrow> orZero (c_popularity b) - orZero (c_popularity a)
      | salary \<Rightarrow> parseSalary (c_salaryRange b) - parseSalary (c_salaryRange a)
      | alphabetical \<Rightarrow> real_of_int (localeCompare h (c_title a) (c_title b)))"

definition levelMatches :: "FilterLevel \<Rightarrow> Course \<Rightarrow> bool" where
  "levelMatches level c =
     (if level = Level10plus2 then False
      else LevelOf (c_level c) = level
           \<or> (level = LevelOf Undergraduate \<and> c_level c = Undergraduate))"

definition searchMatches :: "jsstring \<Rightarrow> Course \<Rightarrow> bool" where
  "searchMatches search c =
     (includesStr (toLowerCase (c_title c)) (toLowerCase search)
      \<or> includesStr (toLowerCase (c_stream c)) (toLowerCase search)
      \<or> includesStr (toLowerCase (c_description c)) (toLowerCase search))"

definition filteredCourses ::
  "host \<Rightarrow> FilterLevel \<Rightarrow> jsstring \<Rightarrow> SortKey \<Rightarrow> Course list \<Rightarrow> Course list" where
  "filteredCourses h level search key courses =
     (let byLevel = (if level = LevelAll then courses else filter (levelMatches level) courses);
          bySearch = (if search \<noteq> [] then filter (searchMatches search) byLevel else byLevel)
      in sortBy (compareCourses h key) bySearch)"

subsection \<open>Career recommendations of the second recommendations component\<close>

text \<open>
  \<^verbatim>\<open>
  export type CareerRecommendation = {
    id: string; title: string; stream: string; summary: string;
    fitScore: number // 0-100
    explanation: string; skills: string[]; courses: CourseLink[]; paths: string[]
  }
  type SortKey = "fit-desc" | "name-asc" | "stream-asc"

  const filtered = React.useMemo(() => {
    let data = [...items]
    if (query.trim()) {
      const q = query.toLowerCase()
      data = data.filter(
        (i) =>
          i.title.toLowerCase().includes(q) ||
          i.stream.toLowerCase().includes(q) ||
          i.summary.toLowerCase().includes(q) ||
          i.skills.some((s) => s.toLowerCase().includes(q)),
      )
    }
    if (selectedStreams.length) {
      data = data.filter((i) => selectedStreams.includes(i.stream))
    }
    if (minFit !== null) {
      data = data.filter((i) => i.fitScore >= minFit)
    }
    if (showBookmarksOnly) {
      data = data.filter((i) => bookmarked.has(i.id))
    }
    switch (sort) {
      case "fit-desc":
        data.sort((a, b) => b.fitScore - a.fitScore)
        break
      case "name-asc":
        data.sort((a, b) => a.title.localeCompare(b.title))
        break
      case "stream-asc":
        data.sort((a, b) => a.stream.localeCompare(b.stream) || b.fitScore - a.fitScore)
        break
    }
    return data
  }, [items, query, selectedStreams, minFit, showBookmarksOnly, sort, bookmarked])
  \<close>
  The record has the fields the list reads, and \<open>ViewState\<close> the state of the component that
  it depends on.  \<open>itemOrder\<close> is the comparator of each case of the switch, \<open>sortItems\<close> the
  switch, and \<open>filteredItems\<close> (the name \<open>filtered\<close> is taken by the scholarships) the list.
\<close>

datatype ItemSortKey = fit_desc | name_asc | stream_asc

record CareerRecommendation =
  cr_id :: jsstring
  cr_title :: jsstring
  cr_stream :: jsstring
  cr_summary :: jsstring
  cr_fitScore :: real
  cr_skills :: "jsstring list"

record ViewState =
  v_query :: jsstring
  v_selectedStreams :: "jsstring list"
  v_minFit :: "real option"
  v_showBookmarksOnly :: bool
  v_bookmarked :: "jsstring set"
  v_sort :: ItemSortKey

definition itemOrder ::
  "host \<Rightarrow> ItemSortKey \<Rightarrow> CareerRecommendation \<Rightarrow> CareerRecommendation \<Rightarrow> real" where
  "itemOrder h key a b =
     (case key of
        fit_desc \<Rightarrow> cr_fitScore b - cr_fitScore a
      | name_asc \<Rightarrow> real_of_int (localeCompare h (cr_title a) (cr_title b))
      | stream_asc \<Rightarrow>
          (let c = localeCompare h (cr_stream a) (cr_stream b)
           in if c \<noteq> 0 then real_of_int c else cr_fitScore b - cr_fitScore a))"

definition sortItems ::
  "host \<Rightarrow> ItemSortKey \<Rightarrow> CareerRecommendation list \<Rightarrow> CareerRecommendation list" where
  "sortItems h key items = sortBy (itemOrder h key) items"

definition itemMatches :: "jsstring \<Rightarrow> CareerRecommendation \<Rightarrow> bool" where
  "itemMatches q i =
     (includesStr (toLowerCase (cr_title i)) q
      \<or> includesStr (toLowerCase (cr_stream i)) q
      \<or> includesStr (toLowerCase (cr_summary i)) q
      \<or> list_ex (\<lambda>s. includesStr (toLowerCase s) q) (cr_skills i))"

definition filteredItems ::
  "host \<Rightarrow> ViewState \<Rightarrow> CareerRecommendation list \<Rightarrow> CareerRecommendation list" where
  "filteredItems h v items =
     (let d0 = items;
          d1 = (if trim (v_query v) \<noteq> [] then filter (itemMatches (toLowerCase (v_query v))) d0
                else d0);
          d2 = (if v_selectedStreams v \<noteq> []
                then filter (\<lambda>i. cr_stream i \<in> set (v_selectedStreams v)) d1
                else d1);
          d3 = (case v_minFit v of
                  None \<Rightarrow> d2
                | Some m \<Rightarrow> filter (\<lambda>i. m \<le> cr_fitScore i) d2);
          d4 = (if v_showBookmarksOnly v then filter (\<lambda>i. cr_id i \<in> v_bookmarked v) d3
                else d3)
      in sortItems h (v_sort v) d4)"

text \<open>
  The header of the same component shows the best match:
  \<^verbatim>\<open>
  <p className="text-sm font-medium">{items.sort((a, b) => b.fitScore - a.fitScore)[0]?.title ?? "\u2014"}</p>
  \<close>
  (the dash is written \<^verbatim>\<open>\u2014\<close> here).  \<^verbatim>\<open>sort\<close> works in place, on the array of the
  \<^verbatim>\<open>items\<close> property itself: \<open>topMatch\<close> is
  the title shown (\<open>None\<close> for the dash) and the contents of that array afterwards, which is
  what the next computation of the list reads.
\<close>

definition topMatch ::
  "host \<Rightarrow> CareerRecommendation list \<Rightarrow> jsstring option \<times> CareerRecommendation list" where
  "topMatch h items =
     (let sortedItems = sortBy (itemOrder h fit_desc) items
      in (case sortedItems of [] \<Rightarrow> None | i # _ \<Rightarrow> Some (cr_title i), sortedItems))"

subsection \<open>Comparison of texts\<close>

text \<open>
  Both components call \<^verbatim>\<open>localeCompare\<close> with one argument, which is the comparison of the
  host's default locale at its default strength; the statements about sorted lists take it
  as a comparison that is consistent: the signs of \<open>cmp x y\<close> and \<open>cmp y x\<close> are opposite, and
  the order is transitive.
\<close>

definition consistentCompare :: "(jsstring \<Rightarrow> jsstring \<Rightarrow> int) \<Rightarrow> bool" where
  "consistentCompare cmp =
     ((\<forall>x y. (cmp x y < 0) = (0 < cmp y x))
      \<and> (\<forall>x y z. cmp x y \<le> 0 \<and> cmp y z \<le> 0 \<longrightarrow> cmp x z \<le> 0))"

text \<open>
  The default strength tells the cases of a letter apart.  On texts of the letters
  \<open>A\<close>..\<open>Z\<close> and \<open>a\<close>..\<open>z\<close> the collation of the Unicode standard, which the locales of English
  and of the languages of India do not tailor for these letters, compares the lowercased
  texts first, letter by letter; two texts that differ only in case are ordered by the
  first letter in which they differ, the lowercase one first (so
  \<^verbatim>\<open>"apple".localeCompare("Apple")\<close> is \<open>-1\<close>).  \<open>rootCollation\<close> holds of a host that compares
  such texts so.
\<close>

fun codeUnitCompare :: "jsstring \<Rightarrow> jsstring \<Rightarrow> int" where
  "codeUnitCompare [] [] = 0"
| "codeUnitCompare [] (y # ys) = - 1"
| "codeUnitCompare (x # xs) [] = 1"
| "codeUnitCompare (x # xs) (y # ys) =
     (if x < y then - 1 else if y < x then 1 else codeUnitCompare xs ys)"

definition collationCompare :: "jsstring \<Rightarrow> jsstring \<Rightarrow> int" where
  "collationCompare a b =
     (let primary = codeUnitCompare (toLowerCase a) (toLowerCase b)
      in if primary \<noteq> 0 then primary else codeUnitCompare b a)"

definition isLetter :: "nat \<Rightarrow> bool" where
  "isLetter c = ((65 \<le> c \<and> c \<le> 90) \<or> (97 \<le> c \<and> c \<le> 122))"

definition rootCollation :: "host \<Rightarrow> bool" where
  "rootCollation h =
     (\<forall>a b. list_all isLetter a \<and> list_all isLetter b
            \<longrightarrow> sgn (localeCompare h a b) = collationCompare a b)"

section \<open>Inputs of the examples\<close>

text \<open>
  A host for the examples: it knows four dates (midnight UTC of 2024-06-10, 2024-06-15 and
  2024-07-30, and the earliest date there is), sits in the zone UTC+05:30, prints every
  number as \<open>0\<close>, keeps every value as its Number (the numbers of the examples are integers
  below \<open>2\<^sup>5\<^sup>3\<close>), and compares texts by \<open>collationCompare\<close>.  The clock of the examples
  reads 2024-06-12 10:00 UTC.
\<close>

definition demoDateParse :: "jsstring \<Rightarrow> int option" where
  "demoDateParse s =
     (if s = ascii ''2024-06-10'' then Some 1717977600000
      else if s = ascii ''2024-06-15'' then Some 1718409600000
      else if s = ascii ''2024-07-30'' then Some 1722297600000
      else if s = ascii ''-271821-04-20T00:00:00.000Z'' then Some (- 8640000000000000)
      else None)"

definition demoHost :: host where
  "demoHost =
     \<lparr> dateParse = demoDateParse,
       numberToString = (\<lambda>n. ascii ''0''),
       toNumber = Finite,
       localTime = (\<lambda>t. t + 19800000),
       utcTime = (\<lambda>t. t - 19800000),
       localeCompare = collationCompare \<rparr>"

definition demoNow :: int where
  "demoNow = 1718186400000"

definition demoScholarship :: Scholarship where
  "demoScholarship =
     \<lparr> s_id = ascii ''sch-1'', s_name = ascii ''Merit Award'',
       s_amount = Str (8377 # ascii ''50,000''), s_eligibility = ascii ''Undergraduate'',
       s_deadline = Some (ascii ''2024-06-15''), s_category = ascii ''Merit'',
       s_source = None, s_link = None, s_documents = Some [ascii ''Marksheet''] \<rparr>"

definition expiredScholarship :: Scholarship where
  "expiredScholarship =
     \<lparr> s_id = ascii ''sch-2'', s_name = ascii ''State Grant'',
       s_amount = Str (ascii ''50k''), s_eligibility = ascii ''Postgraduate'',
       s_deadline = Some (ascii ''2024-06-10''), s_category = ascii ''State'',
       s_source = None, s_link = None, s_documents = None \<rparr>"

text \<open>
  A payload of four entries: one with an id and a name (and a deadline that is no date),
  one without a name, \<^verbatim>\<open>null\<close>, and one whose name is a number.
\<close>

definition demoEntry :: json where
  "demoEntry =
     JObj [(ascii ''id'', JStr (ascii ''sch-1'')), (ascii ''name'', JStr (ascii ''Merit Award'')),
           (ascii ''deadline'', JStr (ascii ''not a date''))]"

definition namelessEntry :: json where
  "namelessEntry = JObj [(ascii ''id'', JStr (ascii ''sch-9'')), (ascii ''amount'', JNum (Finite 1000))]"

definition numberNamedEntry :: json where
  "numberNamedEntry = JObj [(ascii ''id'', JStr (ascii ''x'')), (ascii ''name'', JNum (Finite 123))]"

definition demoPayload :: "json list" where
  "demoPayload = [demoEntry, namelessEntry, JNull]"

definition demoCriteria :: criteria where
  "demoCriteria =
     \<lparr> query = ascii ''merit'', category = None, eligibility = None,
       amountOrder = Some desc, deadlineWindow = Wall \<rparr>"

text \<open>
  A tracker in which \<open>sch-1\<close> is saved and its checklist has one document ticked.
\<close>

definition demoTracked :: TrackedItem where
  "demoTracked =
     \<lparr> t_id = ascii ''sch-1'', t_status = in_progress, t_reminderDate = None,
       t_checklist = [ascii ''Marksheet'' \<mapsto> True], t_savedAt = 1717977600000 \<rparr>"

definition demoTracker :: TrackerState where
  "demoTracker =
     \<lparr> savedIds = {ascii ''sch-1''}, tracked = [ascii ''sch-1'' \<mapsto> demoTracked] \<rparr>"

text \<open>Two courses titled "banana" and "Apple", the second without a relevance.\<close>

definition bananaCourse :: Course where
  "bananaCourse =
     \<lparr> c_id = ascii ''c1'', c_title = ascii ''banana'', c_stream = ascii ''Science'',
       c_description = ascii ''Botany'', c_level = Undergraduate,
       c_salaryRange = Some (ascii ''4L-10L''), c_popularity = Some 40,
       c_relevance = Some (- 5) \<rparr>"

definition appleCourse :: Course where
  "appleCourse =
     \<lparr> c_id = ascii ''c2'', c_title = ascii ''Apple'', c_stream = ascii ''Commerce'',
       c_description = ascii ''Retail'', c_level = Diploma,
       c_salaryRange = None, c_popularity = None, c_relevance = None \<rparr>"


text \<open>A course whose title differs from "Apple" only in case.\<close>

definition lowerAppleCourse :: Course where
  "lowerAppleCourse =
     \<lparr> c_id = ascii ''c4'', c_title = ascii ''apple'', c_stream = ascii ''Science'',
       c_description = ascii ''Orchards'', c_level = Diploma,
       c_salaryRange = None, c_popularity = None, c_relevance = None \<rparr>"


section \<open>Properties of the scorer\<close>

lemma includesStr_sublist: "includesStr s sub \<longleftrightarrow> sublist sub s"
  by (induction s) (auto simp: sublist_Cons_right)

lemma sortBy_Nil: "sortBy cmp [] = []"
  by (simp add: sortBy_def)

lemma sortBy_Cons: "sortBy cmp (x # xs) = insertSorted cmp x (sortBy cmp xs)"
  by (simp add: sortBy_def)

lemma insertSorted_insort_key:
  assumes "\<And>y. y \<in> set ys \<Longrightarrow> (cmp x y \<le> 0) = (f x \<le> f y)"
  shows "insertSorted cmp x ys = insort_key f x ys"
  using assms by (induction ys) simp_all

lemma sortBy_sort_key:
  assumes "\<And>x y. x \<in> set xs \<Longrightarrow> y \<in> set xs \<Longrightarrow> (cmp x y \<le> 0) = (f x \<le> f y)"
  shows "sortBy cmp xs = sort_key f xs"
  using assms
proof (induction xs)
  case Nil
  show ?case by (simp add: sortBy_Nil)
next
  case (Cons x xs)
  have "sortBy cmp xs = sort_key f xs"
    using Cons by simp
  moreover have "insertSorted cmp x (sort_key f xs) = insort_key f x (sort_key f xs)"
    by (rule insertSorted_insort_key) (simp add: Cons.prems)
  ultimately show ?case
    by (simp add: sortBy_Cons)
qed

lemma scoreAnswer_bucketsOf:
  "scoreAnswer x (bucketsOf a s c v) =
     bucketsOf (a + (if \<not> scienceKeyword x \<and> \<not> commerceKeyword x \<and> artsKeyword x then 2 else 0))
       (s + (if scienceKeyword x then 2 else 0))
       (c + (if \<not> scienceKeyword x \<and> commerceKeyword x then 2 else 0))
       (v + (if unmatched x then 1 else 0))"
  by (simp add: scoreAnswer_def bucketsOf_def addTo_def unmatched_def)

lemma fold_scoreAnswer:
  "fold scoreAnswer vs (bucketsOf a s c v) =
     bucketsOf
       (a + 2 * int (length (filter (\<lambda>x. \<not> scienceKeyword x \<and> \<not> commerceKeyword x \<and> artsKeyword x) vs)))
       (s + 2 * int (length (filter scienceKeyword vs)))
       (c + 2 * int (length (filter (\<lambda>x. \<not> scienceKeyword x \<and> commerceKeyword x) vs)))
       (v + int (length (filter unmatched vs)))"
proof (induction vs arbitrary: a s c v)
  case Nil
  show ?case by simp
next
  case (Cons x xs)
  show ?case
    by (simp add: scoreAnswer_bucketsOf Cons.IH algebra_simps)
qed

lemma mockEvaluate_streamScores:
  "streamScores (mockEvaluate a) =
     bucketsOf
       (2 * int (length (filter (\<lambda>x. \<not> scienceKeyword x \<and> \<not> commerceKeyword x \<and> artsKeyword x) (Object_values a))))
       (2 * int (length (filter scienceKeyword (Object_values a))))
       (2 * int (length (filter (\<lambda>x. \<not> scienceKeyword x \<and> commerceKeyword x) (Object_values a))))
       (int (length (filter unmatched (Object_values a))))"
proof -
  have ib: "initialBuckets = bucketsOf 0 0 0 0"
    by (simp add: initialBuckets_def bucketsOf_def)
  show ?thesis
    by (simp add: mockEvaluate_def Let_def ib fold_scoreAnswer)
qed

lemma map_of_bucketsOf: "map_of (bucketsOf a s c v) k = Some (sc a s c v k)"
  by (cases k) (simp_all add: bucketsOf_def sc_def)

lemma compareBuckets_bucketsOf:
  "compareBuckets (bucketsOf a s c v) x y = sc a s c v y - sc a s c v x"
  by (simp add: compareBuckets_def map_of_bucketsOf)

lemma sortedKeys_bucketsOf:
  "sortBy (compareBuckets (bucketsOf a s c v)) (Object_keys (bucketsOf a s c v))
     = sort_key (\<lambda>k. - sc a s c v k) [Arts, Science, Commerce, Vocational]"
proof -
  have "Object_keys (bucketsOf a s c v) = [Arts, Science, Commerce, Vocational]"
    by (simp add: Object_keys_def bucketsOf_def)
  moreover have "sortBy (compareBuckets (bucketsOf a s c v)) [Arts, Science, Commerce, Vocational]
      = sort_key (\<lambda>k. - sc a s c v k) [Arts, Science, Commerce, Vocational]"
    by (rule sortBy_sort_key) (simp add: compareBuckets_bucketsOf)
  ultimately show ?thesis by simp
qed

lemma take2_top:
  fixes f :: "'a \<Rightarrow> int"
  assumes srt: "sorted (map (\<lambda>k. - f k) xs)" and d: "distinct xs"
    and k: "k \<in> set (take 2 xs)" and k': "k' \<in> set xs" "k' \<notin> set (take 2 xs)"
  shows "f k' \<le> f k"
proof -
  have xs: "xs = take 2 xs @ drop 2 xs" by simp
  have "k' \<in> set (drop 2 xs)"
    using k' xs by (metis Un_iff set_append)
  moreover have "sorted (map (\<lambda>k. - f k) (take 2 xs) @ map (\<lambda>k. - f k) (drop 2 xs))"
    using srt by (metis xs map_append)
  ultimately have "- f k \<le> - f k'"
    using k by (auto simp: sorted_append)
  then show ?thesis by simp
qed

lemma hd_strict_max:
  fixes f :: "'a \<Rightarrow> int"
  assumes srt: "sorted (map (\<lambda>k. - f k) xs)" and m: "m \<in> set xs"
    and mx: "\<And>k. k \<in> set xs \<Longrightarrow> k \<noteq> m \<Longrightarrow> f k < f m"
  shows "hd xs = m"
proof (cases xs)
  case Nil
  with m show ?thesis by simp
next
  case (Cons h t)
  show ?thesis
  proof (rule ccontr)
    assume "hd xs \<noteq> m"
    then have hm: "h \<noteq> m" using Cons by simp
    then have "m \<in> set t" using m Cons by simp
    then have "- f h \<le> - f m" using srt Cons by auto
    moreover have "f h < f m" using mx [of h] hm Cons by simp
    ultimately show False by simp
  qed
qed

lemma mockEvaluate_recommended:
  assumes "streamScores (mockEvaluate a) = bucketsOf x s c v"
  shows "recommended (mockEvaluate a)
    = take 2 (sort_key (\<lambda>k. - sc x s c v k) [Arts, Science, Commerce, Vocational])"
proof -
  have "fold scoreAnswer (Object_values a) initialBuckets = bucketsOf x s c v"
    using assms by (simp add: mockEvaluate_def Let_def)
  then show ?thesis
    by (simp add: mockEvaluate_def Let_def sortedKeys_bucketsOf)
qed

lemma scoreOf_bucketsOf:
  assumes "streamScores r = bucketsOf x s c v"
  shows "scoreOf r k = sc x s c v k"
  using assms by (simp add: scoreOf_def map_of_bucketsOf)

lemma all_streams: "set [Arts, Science, Commerce, Vocational] = UNIV"
proof -
  have "k \<in> set [Arts, Science, Commerce, Vocational]" for k
    by (cases k) simp_all
  then show ?thesis by blast
qed

lemma recommended_top2:
  assumes ss: "streamScores (mockEvaluate a) = bucketsOf x s c v"
  shows "length (recommended (mockEvaluate a)) = 2"
    and "distinct (recommended (mockEvaluate a))"
    and "k \<in> set (recommended (mockEvaluate a)) \<Longrightarrow> k' \<notin> set (recommended (mockEvaluate a))
          \<Longrightarrow> scoreOf (mockEvaluate a) k' \<le> scoreOf (mockEvaluate a) k"
proof -
  let ?f = "sc x s c v"
  let ?xs = "sort_key (\<lambda>k. - ?f k) [Arts, Science, Commerce, Vocational]"
  have rec: "recommended (mockEvaluate a) = take 2 ?xs"
    by (rule mockEvaluate_recommended [OF ss])
  have srt: "sorted (map (\<lambda>k. - ?f k) ?xs)"
    by (rule sorted_sort_key)
  have dist: "distinct ?xs"
    by (simp only: distinct_sort) simp
  have setxs: "set ?xs = UNIV"
    by (simp only: set_sort all_streams)
  show "length (recommended (mockEvaluate a)) = 2"
    by (simp only: rec length_take length_sort) simp
  show "distinct (recommended (mockEvaluate a))"
    unfolding rec using dist by (rule distinct_take)
  show "scoreOf (mockEvaluate a) k' \<le> scoreOf (mockEvaluate a) k"
    if "k \<in> set (recommended (mockEvaluate a))" "k' \<notin> set (recommended (mockEvaluate a))"
  proof -
    have "?f k' \<le> ?f k"
      using srt dist that setxs unfolding rec by (intro take2_top [where xs = ?xs]) auto
    then show ?thesis
      by (simp add: scoreOf_bucketsOf [OF ss])
  qed
qed

lemma recommended_ordered:
  assumes ss: "streamScores (mockEvaluate a) = bucketsOf x s c v"
  shows "scoreOf (mockEvaluate a) (recommended (mockEvaluate a) ! 1)
          \<le> scoreOf (mockEvaluate a) (recommended (mockEvaluate a) ! 0)"
proof -
  let ?f = "sc x s c v"
  let ?xs = "sort_key (\<lambda>k. - ?f k) [Arts, Science, Commerce, Vocational]"
  have rec: "recommended (mockEvaluate a) = take 2 ?xs"
    by (rule mockEvaluate_recommended [OF ss])
  have srt: "sorted (map (\<lambda>k. - ?f k) ?xs)"
    by (rule sorted_sort_key)
  have len: "length ?xs = 4" by (simp only: length_sort) simp
  have "map (\<lambda>k. - ?f k) ?xs ! 0 \<le> map (\<lambda>k. - ?f k) ?xs ! 1"
    using srt len by (intro sorted_nth_mono) simp_all
  then have "?f (?xs ! 1) \<le> ?f (?xs ! 0)"
    using len by simp
  then show ?thesis
    using len by (simp add: rec scoreOf_bucketsOf [OF ss])
qed

lemma science_top:
  assumes ss: "streamScores (mockEvaluate a) = bucketsOf x s c v"
    and mx: "x < s" "c < s" "v < s"
  shows "hd (recommended (mockEvaluate a)) = Science"
proof -
  let ?f = "sc x s c v"
  let ?xs = "sort_key (\<lambda>k. - ?f k) [Arts, Science, Commerce, Vocational]"
  have rec: "recommended (mockEvaluate a) = take 2 ?xs"
    by (rule mockEvaluate_recommended [OF ss])
  have srt: "sorted (map (\<lambda>k. - ?f k) ?xs)"
    by (rule sorted_sort_key)
  have "hd ?xs = Science"
  proof (rule hd_strict_max [OF srt])
    show "Science \<in> set ?xs" by (simp only: set_sort) simp
    show "?f k < ?f Science" if "k \<noteq> Science" for k
      using that mx by (cases k) (simp_all add: sc_def)
  qed
  moreover have "hd (take 2 ?xs) = hd ?xs"
    by (rule hd_take) simp
  ultimately show ?thesis
    by (simp add: rec)
qed

text \<open>
  C1 (amended).  For every AnswerMap, the \<open>streamScores\<close> of \<open>mockEvaluate\<close> have exactly the
  four keys Arts, Science, Commerce, Vocational, each with a value \<open>\<ge> 0\<close>.  Every answer
  whose lowercased value contains "logic", "math" or "science" adds 2 to Science, every
  answer no keyword matches adds 1 to Vocational.  The recommended list holds two distinct
  streams, the better one first, and no stream outside it scores higher than one in it.
  If the AnswerMap has at least one answer and every answer value contains a Science
  keyword, no stream scores higher than Science and Science is the first recommended
  stream.
\<close>

theorem mockEvaluate_scores:
  "map fst (streamScores (mockEvaluate a)) = [Arts, Science, Commerce, Vocational]
   \<and> (\<forall>k. 0 \<le> scoreOf (mockEvaluate a) k)
   \<and> map_of (streamScores (mockEvaluate a)) Science
        = Some (2 * int (length (filter scienceKeyword (Object_values a))))
   \<and> map_of (streamScores (mockEvaluate a)) Vocational
        = Some (int (length (filter unmatched (Object_values a))))
   \<and> length (recommended (mockEvaluate a)) = 2
   \<and> distinct (recommended (mockEvaluate a))
   \<and> scoreOf (mockEvaluate a) (recommended (mockEvaluate a) ! 1)
        \<le> scoreOf (mockEvaluate a) (recommended (mockEvaluate a) ! 0)
   \<and> (\<forall>k k'. k \<in> set (recommended (mockEvaluate a)) \<and> k' \<notin> set (recommended (mockEvaluate a))
        \<longrightarrow> scoreOf (mockEvaluate a) k' \<le> scoreOf (mockEvaluate a) k)
   \<and> (a \<noteq> [] \<and> (\<forall>val \<in> set (Object_values a). scienceKeyword val)
        \<longrightarrow> (\<forall>k. scoreOf (mockEvaluate a) k \<le> scoreOf (mockEvaluate a) Science)
            \<and> hd (recommended (mockEvaluate a)) = Science)"
proof -
  let ?vs = "Object_values a"
  let ?x = "2 * int (length (filter (\<lambda>x. \<not> scienceKeyword x \<and> \<not> commerceKeyword x \<and> artsKeyword x) ?vs))"
  let ?s = "2 * int (length (filter scienceKeyword ?vs))"
  let ?c = "2 * int (length (filter (\<lambda>x. \<not> scienceKeyword x \<and> commerceKeyword x) ?vs))"
  let ?v = "int (length (filter unmatched ?vs))"
  have ss: "streamScores (mockEvaluate a) = bucketsOf ?x ?s ?c ?v"
    by (rule mockEvaluate_streamScores)
  have keys: "map fst (streamScores (mockEvaluate a)) = [Arts, Science, Commerce, Vocational]"
    by (simp add: ss bucketsOf_def)
  have nonneg: "0 \<le> scoreOf (mockEvaluate a) k" for k
    by (cases k) (simp_all add: scoreOf_bucketsOf [OF ss] sc_def)
  have sci: "map_of (streamScores (mockEvaluate a)) Science = Some ?s"
    by (simp add: ss map_of_bucketsOf sc_def)
  have voc: "map_of (streamScores (mockEvaluate a)) Vocational = Some ?v"
    by (simp add: ss map_of_bucketsOf sc_def)
  have top: "\<forall>k k'. k \<in> set (recommended (mockEvaluate a)) \<and> k' \<notin> set (recommended (mockEvaluate a))
        \<longrightarrow> scoreOf (mockEvaluate a) k' \<le> scoreOf (mockEvaluate a) k"
    using recommended_top2(3) [OF ss] by blast
  have allsci: "(\<forall>k. scoreOf (mockEvaluate a) k \<le> scoreOf (mockEvaluate a) Science)
            \<and> hd (recommended (mockEvaluate a)) = Science"
    if ne: "a \<noteq> []" and all: "\<forall>val \<in> set ?vs. scienceKeyword val"
  proof -
    have f1: "filter scienceKeyword ?vs = ?vs"
      using all by simp
    have f2: "filter (\<lambda>x. \<not> scienceKeyword x \<and> \<not> commerceKeyword x \<and> artsKeyword x) ?vs = []"
      using all by simp
    have f3: "filter (\<lambda>x. \<not> scienceKeyword x \<and> commerceKeyword x) ?vs = []"
      using all by simp
    have f4: "filter unmatched ?vs = []"
      using all by (simp add: unmatched_def)
    have len: "0 < length ?vs"
      using ne by (simp add: Object_values_def)
    have x0: "?x = 0" and c0: "?c = 0" and v0: "?v = 0"
      by (simp_all add: f2 f3 f4)
    have spos: "0 < ?s"
      using len by (simp add: f1)
    have "scoreOf (mockEvaluate a) k \<le> scoreOf (mockEvaluate a) Science" for k
      using x0 c0 v0 spos by (cases k) (simp_all add: scoreOf_bucketsOf [OF ss] sc_def)
    moreover have "hd (recommended (mockEvaluate a)) = Science"
      using x0 c0 v0 spos by (intro science_top [OF ss]) simp_all
    ultimately show ?thesis by blast
  qed
  show ?thesis
    using keys nonneg sci voc recommended_top2(1,2) [OF ss] recommended_ordered [OF ss] top allsci
    by blast
qed

theorem mockEvaluate_scores_witness:
  "scienceAnswers \<noteq> [] \<and> list_all scienceKeyword (Object_values scienceAnswers)
   \<and> hd (recommended (mockEvaluate scienceAnswers)) = Science
   \<and> map_of (streamScores (mockEvaluate scienceAnswers)) Science = Some 10
   \<and> scoreOf (mockEvaluate scienceAnswers) Arts \<le> scoreOf (mockEvaluate scienceAnswers) Science"
proof -
  have ne: "scienceAnswers \<noteq> []"
    by (simp add: scienceAnswers_def)
  have all: "list_all scienceKeyword (Object_values scienceAnswers)"
    by (simp add: scienceAnswers_def Object_values_def scienceKeyword_def toLowerCase_def lowerUnit_def
        ascii_def)
  have len: "length (filter scienceKeyword (Object_values scienceAnswers)) = 5"
    using all by (simp add: list_all_iff scienceAnswers_def Object_values_def)
  show ?thesis
    using mockEvaluate_scores [of scienceAnswers] ne all len
    by (simp add: list_all_iff)
qed

text \<open>
  The empty AnswerMap (a quiz submitted with no question answered): every answer value
  contains a Science keyword, there being none, yet the first recommended stream is Arts.
\<close>

theorem mockEvaluate_empty_counterexample:
  "list_all scienceKeyword (Object_values []) \<and> recommended (mockEvaluate []) = [Arts, Science]
   \<and> hd (recommended (mockEvaluate [])) \<noteq> Science"
  by (simp add: Object_values_def mockEvaluate_def initialBuckets_def Object_keys_def
      sortBy_def compareBuckets_def)

section \<open>Properties of submit and retake\<close>

text \<open>
  C4.  Whatever the state and its phase, after \<open>handleRetake\<close> the AnswerMap is empty, the
  question cursor is 0, the timer holds the configured duration, the stored result is
  null and the phase is \<open>quiz\<close>; nothing else of the state changes.
\<close>

theorem handleRetake_resets:
  "answers (handleRetake p st) = []
   \<and> index (handleRetake p st) = 0
   \<and> remaining (handleRetake p st) = durationSec p
   \<and> results (handleRetake p st) = None
   \<and> phase (handleRetake p st) = quiz
   \<and> isMounted (handleRetake p st) = isMounted st
   \<and> toasts (handleRetake p st) = toasts st"
  by (simp add: handleRetake_def)

theorem handleRetake_resets_witness:
  "phase (handleRetake rejectingProps reviewState) = quiz
   \<and> answers (handleRetake rejectingProps reviewState) = []
   \<and> remaining (handleRetake rejectingProps reviewState) = 720"
  using handleRetake_resets [of rejectingProps reviewState]
  by (simp add: rejectingProps_def)

text \<open>
  C5.  When the scoring call rejects, \<open>handleSubmit\<close> ends in the \<open>review\<close> phase, its last
  toast is the error "Failed to process results. Please try again.", and the AnswerMap
  and the stored result are as before.  When the call resolves with a result, that result
  is stored, the phase is \<open>result\<close>, and the AnswerMap is as before.  Without \<open>onSubmit\<close>
  the call is \<open>mockEvaluate\<close>, which always resolves.
\<close>

theorem handleSubmit_outcome:
  "(\<forall>f e. onSubmit p = Some f \<and> f (answers st) = Inl e \<longrightarrow>
      phase (handleSubmit p st) = review
      \<and> answers (handleSubmit p st) = answers st
      \<and> results (handleSubmit p st) = results st
      \<and> last (toasts (handleSubmit p st))
          = ToastError (ascii ''Failed to process results. Please try again.''))
   \<and> (\<forall>f res. onSubmit p = Some f \<and> f (answers st) = Inr res \<longrightarrow>
      phase (handleSubmit p st) = result
      \<and> results (handleSubmit p st) = Some res
      \<and> answers (handleSubmit p st) = answers st)
   \<and> (onSubmit p = None \<longrightarrow>
      phase (handleSubmit p st) = result
      \<and> results (handleSubmit p st) = Some (mockEvaluate (answers st))
      \<and> answers (handleSubmit p st) = answers st)"
  by (simp add: handleSubmit_def scoringCall_def Let_def)

theorem handleSubmit_outcome_witness:
  "onSubmit rejectingProps = Some (\<lambda>a. Inl ())
   \<and> phase (handleSubmit rejectingProps reviewState) = review
   \<and> answers (handleSubmit rejectingProps reviewState)
       = [(ascii ''q1'', ascii ''math''), (ascii ''q2'', ascii ''design'')]"
proof -
  have h: "onSubmit rejectingProps = Some (\<lambda>a. Inl ())"
    by (simp add: rejectingProps_def)
  have "phase (handleSubmit rejectingProps reviewState) = review
      \<and> answers (handleSubmit rejectingProps reviewState) = answers reviewState"
    using handleSubmit_outcome [of rejectingProps reviewState] h by blast
  then show ?thesis
    using h by (simp add: reviewState_def)
qed

section \<open>Properties of \<^verbatim>\<open>escapeHtml\<close>\<close>

lemma replaceAll_Nil: "replaceAll c rep [] = []"
  by (simp add: replaceAll_def)

lemma replaceAll_Cons:
  "replaceAll c rep (x # xs) = (if x = c then rep else [x]) @ replaceAll c rep xs"
  by (simp add: replaceAll_def)

lemma replaceAll_append:
  "replaceAll c rep (xs @ ys) = replaceAll c rep xs @ replaceAll c rep ys"
  by (simp add: replaceAll_def)

lemma escapeHtml_Nil: "escapeHtml [] = []"
  by (simp add: escapeHtml_def replaceAll_Nil)

lemma escapeHtml_Cons: "escapeHtml (x # xs) = htmlEntity x @ escapeHtml xs"
  by (simp add: escapeHtml_def htmlEntity_def replaceAll_Cons replaceAll_append
      replaceAll_Nil ascii_def)

lemma escapeHtml_concat: "escapeHtml s = concat (map htmlEntity s)"
  by (induction s) (simp_all add: escapeHtml_Nil escapeHtml_Cons)

lemma htmlEntity_clean:
  "60 \<notin> set (htmlEntity c) \<and> 62 \<notin> set (htmlEntity c) \<and> 34 \<notin> set (htmlEntity c)"
  by (simp add: htmlEntity_def ascii_def)

text \<open>
  C10.  For every string \<open>s\<close>, \<open>escapeHtml s\<close> is \<open>s\<close> with each code unit \<open>&\<close>, \<open><\<close>,
  \<open>>\<close> and double quote replaced by its HTML entity and every other unit kept, and the
  result contains no \<open><\<close> (60), no \<open>>\<close> (62) and no double quote (34).
\<close>

theorem escapeHtml_no_markup:
  "escapeHtml s = concat (map htmlEntity s)
   \<and> 60 \<notin> set (escapeHtml s) \<and> 62 \<notin> set (escapeHtml s) \<and> 34 \<notin> set (escapeHtml s)"
proof -
  have "\<And>c. c \<in> set s \<Longrightarrow> 60 \<notin> set (htmlEntity c) \<and> 62 \<notin> set (htmlEntity c)
      \<and> 34 \<notin> set (htmlEntity c)"
    by (rule htmlEntity_clean)
  then show ?thesis
    by (auto simp: escapeHtml_concat)
qed

theorem escapeHtml_no_markup_witness:
  "escapeHtml (34 # ascii ''<b>T&C</b>'')
     = ascii ''&quot;&lt;b&gt;T&amp;C&lt;/b&gt;''
   \<and> 60 \<notin> set (escapeHtml (34 # ascii ''<b>T&C</b>''))"
  using escapeHtml_no_markup [of "34 # ascii ''<b>T&C</b>''"]
  by (simp add: htmlEntity_def ascii_def)

section \<open>Properties of the deadline window\<close>

lemma ceilDays_div: "ceilDays x = - ((- x) div msPerDay)"
  unfolding ceilDays_def by (rule ceiling_divide_eq_div)





lemma set_insertSorted: "set (insertSorted cmp x ys) = insert x (set ys)"
  by (induction ys) auto

lemma set_sortBy: "set (sortBy cmp xs) = set xs"
  by (induction xs) (simp_all add: sortBy_def set_insertSorted)

lemma length_insertSorted: "length (insertSorted cmp x ys) = Suc (length ys)"
  by (induction ys) auto

lemma length_sortBy: "length (sortBy cmp xs) = length xs"
  by (induction xs) (simp_all add: sortBy_def length_insertSorted)

lemma filtered_subset: "set (filtered h now c l) \<subseteq> set l"
  by (auto simp: filtered_def Let_def set_sortBy split: option.splits if_splits)

lemma filtered_length: "length (filtered h now c l) \<le> length l"
proof -
  have f: "length (filter P xs) \<le> length xs" for P and xs :: "Scholarship list"
    by simp
  show ?thesis
    unfolding filtered_def Let_def
    by (auto simp: length_sortBy split: option.splits intro: order_trans [OF f] order_trans [OF f order_trans [OF f]])
qed



lemma mset_insertSorted: "mset (insertSorted cmp x ys) = add_mset x (mset ys)"
  by (induction ys) auto

lemma mset_sortBy: "mset (sortBy cmp xs) = mset xs"
  by (induction xs) (simp_all add: sortBy_def mset_insertSorted)

lemma filtered_mset: "mset (filtered h now c l) \<subseteq># mset l"
proof -
  have f: "mset (filter P xs) \<subseteq># mset xs" for P and xs :: "Scholarship list"
    by simp
  have t: "mset (filter P (filter Q xs)) \<subseteq># mset xs" for P Q and xs :: "Scholarship list"
    by (rule subset_mset.order_trans [OF f f])
  define l1 where "l1 = (if trim (query c) \<noteq> [] then filter (matchesQuery h (toLowerCase (query c))) l else l)"
  define l2 where "l2 = (case category c of None \<Rightarrow> l1
      | Some cat \<Rightarrow> if cat = [] then l1 else filter (\<lambda>s. s_category s = cat) l1)"
  define l3 where "l3 = (case eligibility c of None \<Rightarrow> l2
      | Some el \<Rightarrow> if el = [] then l2 else filter (\<lambda>s. includesStr (s_eligibility s) el) l2)"
  define l4 where "l4 = (if deadlineWindow c \<noteq> Wall
      then filter (withinWindow h now (windowDays (deadlineWindow c))) l3 else l3)"
  have 1: "mset l1 \<subseteq># mset l" by (simp add: l1_def)
  have "mset l2 \<subseteq># mset l1" by (simp add: l2_def split: option.splits)
  then have 2: "mset l2 \<subseteq># mset l" using 1 by (rule subset_mset.order_trans)
  have "mset l3 \<subseteq># mset l2" by (simp add: l3_def split: option.splits)
  then have 3: "mset l3 \<subseteq># mset l" using 2 by (rule subset_mset.order_trans)
  have "mset l4 \<subseteq># mset l3" by (simp add: l4_def)
  then have 4: "mset l4 \<subseteq># mset l" using 3 by (rule subset_mset.order_trans)
  have "filtered h now c l = (case amountOrder c of None \<Rightarrow> l4 | Some ord \<Rightarrow> sortBy (\<lambda>a b. numSign (compareAmount h ord a b)) l4)"
    by (simp only: filtered_def Let_def l1_def l2_def l3_def l4_def)
  then show ?thesis
    using 4 by (simp add: mset_sortBy split: option.splits)
qed







section \<open>Properties of \<^verbatim>\<open>parseAmount\<close>\<close>

lemma set_tl_subset: "set (tl xs) \<subseteq> set xs"
  by (cases xs) auto

lemma notDigit_takeWhile:
  assumes "\<forall>c \<in> set xs. \<not> isDigit c"
  shows "takeWhile isDigit xs = []"
  using assms by (cases xs) simp_all

lemma unsignedLiteral_no_digit:
  assumes nd: "\<forall>c \<in> set u. \<not> isDigit c"
  shows "unsignedLiteral u = None"
proof -
  let ?r1 = "dropWhile isDigit u"
  have r1: "set ?r1 \<subseteq> set u"
    by (rule set_dropWhileD [THEN subsetI])
  have tl: "set (tl ?r1) \<subseteq> set ?r1"
    by (rule set_tl_subset)
  have ip: "takeWhile isDigit u = []"
    using nd by (rule notDigit_takeWhile)
  have fp: "takeWhile isDigit (tl ?r1) = []"
    using nd r1 tl by (intro notDigit_takeWhile) blast
  show ?thesis
    unfolding unsignedLiteral_def Let_def using ip fp by simp
qed

lemma set_afterSign: "set (afterSign t) \<subseteq> set t"
  by (cases t) (auto simp: afterSign_def)

lemma parseFloat_no_digit:
  assumes nd: "\<forall>c \<in> set s. \<not> isDigit c"
  shows "parseFloat h s = NaN"
proof -
  have "set (dropWhile isWhiteSpace s) \<subseteq> set s"
    by (rule set_dropWhileD [THEN subsetI])
  then have "\<forall>c \<in> set (afterSign (dropWhile isWhiteSpace s)). \<not> isDigit c"
    using nd set_afterSign by blast
  then show ?thesis
    by (simp add: parseFloat_def Let_def unsignedLiteral_no_digit)
qed

lemma digit_not_stripped: "isDigit c \<Longrightarrow> \<not> (c = 44 \<or> c = 8377 \<or> isWhiteSpace c)"
  by (auto simp: isDigit_def isWhiteSpace_def)

lemma digit_props: "isDigit c \<Longrightarrow> c \<noteq> 45 \<and> c \<noteq> 43 \<and> c \<noteq> 107 \<and> \<not> isWhiteSpace c \<and> \<not> (65 \<le> c \<and> c \<le> 90)"
  by (auto simp: isDigit_def isWhiteSpace_def)

lemma stripAmount_digits:
  assumes "\<forall>c \<in> set ds. isDigit c"
  shows "stripAmount ds = ds"
  unfolding stripAmount_def using assms digit_not_stripped by (intro filter_True) blast

lemma toLowerCase_digits:
  assumes "\<forall>c \<in> set ds. isDigit c"
  shows "toLowerCase ds = ds"
  using assms by (induction ds) (auto simp: toLowerCase_def lowerUnit_def isDigit_def)

lemma unsignedLiteral_digits:
  assumes ne: "ds \<noteq> []" and all: "\<forall>c \<in> set ds. isDigit c"
  shows "unsignedLiteral ds = Some (real (digitsValue ds))"
proof -
  have tw: "takeWhile isDigit ds = ds"
    using all by (simp add: takeWhile_eq_all_conv)
  have dw: "dropWhile isDigit ds = []"
    using all by simp
  show ?thesis
    unfolding unsignedLiteral_def Let_def tw dw
    using ne by (simp add: exponentPart_def)
qed

lemma parseFloat_digits:
  assumes ne: "ds \<noteq> []" and all: "\<forall>c \<in> set ds. isDigit c"
  shows "parseFloat h ds = toNumber h (real (digitsValue ds))"
proof -
  obtain c cs where ds: "ds = c # cs"
    using ne by (cases ds) auto
  have c: "isDigit c" using all ds by simp
  have t: "dropWhile isWhiteSpace ds = ds"
    using digit_props [OF c] ds by simp
  have a: "afterSign ds = ds"
    using digit_props [OF c] ds by (simp add: afterSign_def)
  have sg: "signOf ds = 1"
    using digit_props [OF c] ds by (simp add: signOf_def)
  show ?thesis
    by (simp add: parseFloat_def Let_def t a sg unsignedLiteral_digits [OF ne all])
qed

lemma digits_not_endsWith_k:
  assumes ne: "ds \<noteq> []" and all: "\<forall>c \<in> set ds. isDigit c"
  shows "\<not> endsWith ds (ascii ''k'')"
proof
  assume "endsWith ds (ascii ''k'')"
  then obtain p where "ds = p @ [107]"
    by (auto simp: endsWith_def ascii_def suffix_def)
  then have "isDigit 107"
    using all by simp
  then show False
    by (simp add: isDigit_def)
qed

lemma parseAmount_digits:
  assumes ne: "ds \<noteq> []" and all: "\<forall>c \<in> set ds. isDigit c"
  shows "parseAmount h (Str ds)
     = (if toNumber h (real (digitsValue ds)) = NaN then Finite 0
        else toNumber h (real (digitsValue ds)))"
  using digits_not_endsWith_k [OF ne all]
  by (simp add: parseAmount_def Let_def stripAmount_digits [OF all] toLowerCase_digits [OF all]
      parseFloat_digits [OF ne all])

lemma parseAmount_digits_k:
  assumes ne: "ds \<noteq> []" and all: "\<forall>c \<in> set ds. isDigit c" and k: "k = 107 \<or> k = 75"
  shows "parseAmount h (Str (ds @ [k]))
     = (if toNumber h (real (digitsValue ds)) = NaN then Finite 0
        else numTimes h (toNumber h (real (digitsValue ds))) (Finite 1000))"
proof -
  have sk: "stripAmount [k] = [k]"
    using k by (auto simp: stripAmount_def isWhiteSpace_def)
  have lk: "toLowerCase [k] = [107]"
    using k by (auto simp: toLowerCase_def lowerUnit_def)
  have clean: "toLowerCase (stripAmount (ds @ [k])) = ds @ [107]"
  proof -
    have "stripAmount (ds @ [k]) = stripAmount ds @ stripAmount [k]"
      by (simp add: stripAmount_def)
    then have "stripAmount (ds @ [k]) = ds @ [k]"
      by (simp add: stripAmount_digits [OF all] sk)
    moreover have "toLowerCase (ds @ [k]) = toLowerCase ds @ toLowerCase [k]"
      by (simp add: toLowerCase_def lowerUnit_def)
    ultimately show ?thesis
      by (simp add: toLowerCase_digits [OF all] lk)
  qed
  have e: "endsWith (ds @ [107]) (ascii ''k'')"
    by (simp add: endsWith_def ascii_def suffix_def)
  show ?thesis
    by (simp add: parseAmount_def Let_def clean e parseFloat_digits [OF ne all])
qed

lemma exact_int:
  assumes "roundsIntegersExactly h" and "\<bar>i\<bar> \<le> 2 ^ 53"
  shows "toNumber h (real_of_int i) = Finite (real_of_int i)"
  using assms by (simp add: roundsIntegersExactly_def)

lemma exact_nat:
  assumes r: "roundsIntegersExactly h" and b: "n \<le> 2 ^ 53"
  shows "toNumber h (real n) = Finite (real n)"
proof -
  have "\<bar>int n\<bar> \<le> 2 ^ 53"
    using b by (simp add: of_nat_le_iff [of n "2 ^ 53", where ?'a = int, symmetric])
  from exact_int [OF r this] show ?thesis
    by simp
qed

lemma parseAmount_digits_exact:
  assumes r: "roundsIntegersExactly h"
    and ne: "ds \<noteq> []" and all: "\<forall>c \<in> set ds. isDigit c"
    and b: "digitsValue ds * 1000 \<le> 2 ^ 53"
  shows "parseAmount h (Str ds) = Finite (real (digitsValue ds))"
    and "k = 107 \<or> k = 75
         \<Longrightarrow> parseAmount h (Str (ds @ [k])) = Finite (real (digitsValue ds) * 1000)"
proof -
  have "digitsValue ds \<le> digitsValue ds * 1000"
    by simp
  then have "digitsValue ds \<le> 2 ^ 53"
    using b by (rule order_trans)
  then have v: "toNumber h (real (digitsValue ds)) = Finite (real (digitsValue ds))"
    by (rule exact_nat [OF r])
  have "toNumber h (real (digitsValue ds * 1000)) = Finite (real (digitsValue ds * 1000))"
    using b by (rule exact_nat [OF r])
  then have m: "toNumber h (real (digitsValue ds) * 1000) = Finite (real (digitsValue ds) * 1000)"
    by simp
  show "parseAmount h (Str ds) = Finite (real (digitsValue ds))"
    by (simp add: parseAmount_digits [OF ne all] v)
  show "parseAmount h (Str (ds @ [k])) = Finite (real (digitsValue ds) * 1000)"
    if "k = 107 \<or> k = 75"
    by (simp add: parseAmount_digits_k [OF ne all that] v numTimes_def m)
qed

lemma clean_no_digit:
  assumes nd: "\<forall>c \<in> set v. \<not> isDigit c"
  shows "\<forall>c \<in> set (toLowerCase (stripAmount v)). \<not> isDigit c"
proof -
  have "\<forall>c \<in> set (stripAmount v). \<not> isDigit c"
    using nd by (simp add: stripAmount_def)
  then show ?thesis
    by (auto simp: toLowerCase_def lowerUnit_def isDigit_def)
qed

lemma parseAmount_no_digit:
  assumes nd: "\<forall>c \<in> set v. \<not> isDigit c"
  shows "parseAmount h (Str v) = Finite 0"
proof -
  let ?clean = "toLowerCase (stripAmount v)"
  have c: "\<forall>c \<in> set ?clean. \<not> isDigit c"
    using nd by (rule clean_no_digit)
  have "set (butlast ?clean) \<subseteq> set ?clean"
    by (auto dest: in_set_butlastD)
  then have b: "\<forall>c \<in> set (butlast ?clean). \<not> isDigit c"
    using c by blast
  show ?thesis
    by (simp add: parseAmount_def Let_def parseFloat_no_digit [OF c] parseFloat_no_digit [OF b])
qed

lemma stripAmount_separator:
  assumes "c = 44 \<or> c = 8377 \<or> isWhiteSpace c"
  shows "stripAmount (a @ c # b) = stripAmount (a @ b)"
  using assms by (simp add: stripAmount_def)

lemma parseAmount_separator:
  assumes "c = 44 \<or> c = 8377 \<or> isWhiteSpace c"
  shows "parseAmount h (Str (a @ c # b)) = parseAmount h (Str (a @ b))"
  by (simp add: parseAmount_def stripAmount_separator [OF assms])

lemma digits_50000: "ascii ''50000'' \<noteq> [] \<and> (\<forall>c \<in> set (ascii ''50000''). isDigit c)"
  and digits_50: "ascii ''50'' \<noteq> [] \<and> (\<forall>c \<in> set (ascii ''50''). isDigit c)"
  and value_50000: "digitsValue (ascii ''50000'') = 50000"
  and value_50: "digitsValue (ascii ''50'') = 50"
  by (simp_all add: ascii_def isDigit_def digitsValue_def)

lemma parseAmount_rupees:
  assumes r: "roundsIntegersExactly h"
  shows "parseAmount h (Str (8377 # ascii ''50,000'')) = Finite 50000"
proof -
  have "parseAmount h (Str (8377 # ascii ''50,000'')) = parseAmount h (Str (ascii ''50,000''))"
    using parseAmount_separator [of 8377 h "[]" "ascii ''50,000''"] by simp
  also have "\<dots> = parseAmount h (Str (ascii ''50'' @ 44 # ascii ''000''))"
    by (simp add: ascii_def)
  also have "\<dots> = parseAmount h (Str (ascii ''50'' @ ascii ''000''))"
    by (rule parseAmount_separator) simp
  also have "\<dots> = parseAmount h (Str (ascii ''50000''))"
    by (simp add: ascii_def)
  also have "\<dots> = Finite (real (digitsValue (ascii ''50000'')))"
    using digits_50000 by (intro parseAmount_digits_exact(1) [OF r]) (simp_all add: value_50000)
  finally show ?thesis
    by (simp add: value_50000)
qed

lemma parseAmount_50k:
  assumes r: "roundsIntegersExactly h"
  shows "parseAmount h (Str (ascii ''50k'')) = Finite 50000"
proof -
  have "parseAmount h (Str (ascii ''50'' @ [107])) = Finite (real (digitsValue (ascii ''50'')) * 1000)"
    using digits_50 by (intro parseAmount_digits_exact(2) [OF r]) (simp_all add: value_50)
  then have "parseAmount h (Str (ascii ''50'' @ [107])) = Finite 50000"
    by (simp add: value_50)
  moreover have "ascii ''50'' @ [107] = ascii ''50k''"
    by (simp add: ascii_def)
  ultimately show ?thesis
    by simp
qed

lemma parseAmount_abc: "parseAmount h (Str (ascii ''abc'')) = Finite 0"
  by (rule parseAmount_no_digit) (simp add: ascii_def isDigit_def)

lemma parseAmount_suffix_k:
  assumes "endsWith (toLowerCase (stripAmount v)) (ascii ''k'')"
  shows "parseAmount h (Str v)
     = (if parseFloat h (butlast (toLowerCase (stripAmount v))) = NaN then Finite 0
        else numTimes h (parseFloat h (butlast (toLowerCase (stripAmount v)))) (Finite 1000))"
  using assms by (simp add: parseAmount_def Let_def)

lemma parseAmount_no_suffix:
  assumes "\<not> endsWith (toLowerCase (stripAmount v)) (ascii ''k'')"
  shows "parseAmount h (Str v)
     = (if parseFloat h (toLowerCase (stripAmount v)) = NaN then Finite 0
        else parseFloat h (toLowerCase (stripAmount v)))"
  using assms by (simp add: parseAmount_def Let_def)

lemma parseAmount_NaN:
  assumes "parseFloat h (toLowerCase (stripAmount v)) = NaN"
    and "parseFloat h (butlast (toLowerCase (stripAmount v))) = NaN"
  shows "parseAmount h (Str v) = Finite 0"
  using assms by (simp add: parseAmount_def Let_def)

text \<open>
  C3.  A Number is what the host's rounding makes of a value; on a host that rounds the
  integers up to \<open>2\<^sup>5\<^sup>3\<close> exactly, \<open>parseAmount\<close> maps the rupee sign (code unit 8377)
  followed by "50,000" to 50000 and "50k" to 50000.  It maps "abc" to 0 and returns a
  number unchanged.  On a string, commas, rupee signs and white space are ignored wherever
  they stand; when the cleaned, lowercased text ends in "k", the result is the Number
  parsed before the "k", multiplied by 1000 in the host's arithmetic, and else the Number
  parsed from the cleaned text; a text that does not parse to a number gives 0, as does
  every text without a digit.  A run of digits is the Number of its decimal value, with
  "k" or "K" appended that Number times 1000; where the host rounds integers exactly and
  1000 times the value is at most \<open>2\<^sup>5\<^sup>3\<close>, these are the value and 1000 times the
  value.
\<close>

theorem parseAmount_spec:
  "(roundsIntegersExactly h
      \<longrightarrow> parseAmount h (Str (8377 # ascii ''50,000'')) = Finite 50000
          \<and> parseAmount h (Str (ascii ''50k'')) = Finite 50000)
   \<and> parseAmount h (Str (ascii ''abc'')) = Finite 0
   \<and> parseAmount h (Num n) = n
   \<and> (\<forall>a b c. c = 44 \<or> c = 8377 \<or> isWhiteSpace c
        \<longrightarrow> parseAmount h (Str (a @ c # b)) = parseAmount h (Str (a @ b)))
   \<and> (endsWith (toLowerCase (stripAmount v)) (ascii ''k'')
        \<longrightarrow> parseAmount h (Str v)
            = (if parseFloat h (butlast (toLowerCase (stripAmount v))) = NaN then Finite 0
               else numTimes h (parseFloat h (butlast (toLowerCase (stripAmount v))))
                      (Finite 1000)))
   \<and> (\<not> endsWith (toLowerCase (stripAmount v)) (ascii ''k'')
        \<longrightarrow> parseAmount h (Str v)
            = (if parseFloat h (toLowerCase (stripAmount v)) = NaN then Finite 0
               else parseFloat h (toLowerCase (stripAmount v))))
   \<and> (parseFloat h (toLowerCase (stripAmount v)) = NaN
        \<and> parseFloat h (butlast (toLowerCase (stripAmount v))) = NaN
        \<longrightarrow> parseAmount h (Str v) = Finite 0)
   \<and> ((\<forall>c \<in> set v. \<not> isDigit c) \<longrightarrow> parseAmount h (Str v) = Finite 0)
   \<and> (ds \<noteq> [] \<and> (\<forall>c \<in> set ds. isDigit c)
        \<longrightarrow> parseAmount h (Str ds)
              = (if toNumber h (real (digitsValue ds)) = NaN then Finite 0
                 else toNumber h (real (digitsValue ds)))
            \<and> parseAmount h (Str (ds @ ascii ''k''))
              = (if toNumber h (real (digitsValue ds)) = NaN then Finite 0
                 else numTimes h (toNumber h (real (digitsValue ds))) (Finite 1000))
            \<and> parseAmount h (Str (ds @ ascii ''K'')) = parseAmount h (Str (ds @ ascii ''k'')))
   \<and> (roundsIntegersExactly h \<and> ds \<noteq> [] \<and> (\<forall>c \<in> set ds. isDigit c)
         \<and> digitsValue ds * 1000 \<le> 2 ^ 53
        \<longrightarrow> parseAmount h (Str ds) = Finite (real (digitsValue ds))
            \<and> parseAmount h (Str (ds @ ascii ''k'')) = Finite (real (digitsValue ds) * 1000)
            \<and> parseAmount h (Str (ds @ ascii ''K'')) = Finite (real (digitsValue ds) * 1000))"
proof -
  have k1: "ascii ''k'' = [107]" and k2: "ascii ''K'' = [75]"
    by (simp_all add: ascii_def)
  have ex: "roundsIntegersExactly h
      \<longrightarrow> parseAmount h (Str (8377 # ascii ''50,000'')) = Finite 50000
          \<and> parseAmount h (Str (ascii ''50k'')) = Finite 50000"
    using parseAmount_rupees parseAmount_50k by blast
  have n: "parseAmount h (Num n) = n"
    by (simp add: parseAmount_def)
  have sep: "\<forall>a b c. c = 44 \<or> c = 8377 \<or> isWhiteSpace c
        \<longrightarrow> parseAmount h (Str (a @ c # b)) = parseAmount h (Str (a @ b))"
    using parseAmount_separator by blast
  have k: "endsWith (toLowerCase (stripAmount v)) (ascii ''k'')
        \<longrightarrow> parseAmount h (Str v)
            = (if parseFloat h (butlast (toLowerCase (stripAmount v))) = NaN then Finite 0
               else numTimes h (parseFloat h (butlast (toLowerCase (stripAmount v))))
                      (Finite 1000))"
    using parseAmount_suffix_k by blast
  have nk: "\<not> endsWith (toLowerCase (stripAmount v)) (ascii ''k'')
        \<longrightarrow> parseAmount h (Str v)
            = (if parseFloat h (toLowerCase (stripAmount v)) = NaN then Finite 0
               else parseFloat h (toLowerCase (stripAmount v)))"
    using parseAmount_no_suffix by blast
  have nan: "parseFloat h (toLowerCase (stripAmount v)) = NaN
        \<and> parseFloat h (butlast (toLowerCase (stripAmount v))) = NaN
        \<longrightarrow> parseAmount h (Str v) = Finite 0"
    using parseAmount_NaN by blast
  have nd: "(\<forall>c \<in> set v. \<not> isDigit c) \<longrightarrow> parseAmount h (Str v) = Finite 0"
    using parseAmount_no_digit by blast
  have dg: "ds \<noteq> [] \<and> (\<forall>c \<in> set ds. isDigit c)
        \<longrightarrow> parseAmount h (Str ds)
              = (if toNumber h (real (digitsValue ds)) = NaN then Finite 0
                 else toNumber h (real (digitsValue ds)))
            \<and> parseAmount h (Str (ds @ ascii ''k''))
              = (if toNumber h (real (digitsValue ds)) = NaN then Finite 0
                 else numTimes h (toNumber h (real (digitsValue ds))) (Finite 1000))
            \<and> parseAmount h (Str (ds @ ascii ''K'')) = parseAmount h (Str (ds @ ascii ''k''))"
  proof
    assume a: "ds \<noteq> [] \<and> (\<forall>c \<in> set ds. isDigit c)"
    then have ne: "ds \<noteq> []" and all: "\<forall>c \<in> set ds. isDigit c"
      by simp_all
    show "parseAmount h (Str ds)
              = (if toNumber h (real (digitsValue ds)) = NaN then Finite 0
                 else toNumber h (real (digitsValue ds)))
            \<and> parseAmount h (Str (ds @ ascii ''k''))
              = (if toNumber h (real (digitsValue ds)) = NaN then Finite 0
                 else numTimes h (toNumber h (real (digitsValue ds))) (Finite 1000))
            \<and> parseAmount h (Str (ds @ ascii ''K'')) = parseAmount h (Str (ds @ ascii ''k''))"
      unfolding k1 k2
      using parseAmount_digits [OF ne all, of h] parseAmount_digits_k [OF ne all, of 107 h]
        parseAmount_digits_k [OF ne all, of 75 h]
      by simp
  qed
  have dx: "roundsIntegersExactly h \<and> ds \<noteq> [] \<and> (\<forall>c \<in> set ds. isDigit c)
         \<and> digitsValue ds * 1000 \<le> 2 ^ 53
        \<longrightarrow> parseAmount h (Str ds) = Finite (real (digitsValue ds))
            \<and> parseAmount h (Str (ds @ ascii ''k'')) = Finite (real (digitsValue ds) * 1000)
            \<and> parseAmount h (Str (ds @ ascii ''K'')) = Finite (real (digitsValue ds) * 1000)"
  proof
    assume a: "roundsIntegersExactly h \<and> ds \<noteq> [] \<and> (\<forall>c \<in> set ds. isDigit c)
         \<and> digitsValue ds * 1000 \<le> 2 ^ 53"
    then have r: "roundsIntegersExactly h" and ne: "ds \<noteq> []"
      and all: "\<forall>c \<in> set ds. isDigit c" and b: "digitsValue ds * 1000 \<le> 2 ^ 53"
      by simp_all
    show "parseAmount h (Str ds) = Finite (real (digitsValue ds))
            \<and> parseAmount h (Str (ds @ ascii ''k'')) = Finite (real (digitsValue ds) * 1000)
            \<and> parseAmount h (Str (ds @ ascii ''K'')) = Finite (real (digitsValue ds) * 1000)"
      unfolding k1 k2
      using parseAmount_digits_exact(1) [OF r ne all b]
        parseAmount_digits_exact(2) [OF r ne all b, of 107]
        parseAmount_digits_exact(2) [OF r ne all b, of 75]
      by simp
  qed
  show ?thesis
    by (intro conjI ex parseAmount_abc n sep k nk nan nd dg dx)
qed

lemma demoHost_exact: "roundsIntegersExactly demoHost"
  by (simp add: roundsIntegersExactly_def demoHost_def)

theorem parseAmount_spec_witness:
  "roundsIntegersExactly demoHost
   \<and> parseAmount demoHost (Str (8377 # ascii ''50,000'')) = Finite 50000
   \<and> parseAmount demoHost (Str (ascii ''50k'')) = Finite 50000
   \<and> list_all (\<lambda>c. \<not> isDigit c) (ascii ''N/A'')
   \<and> parseAmount demoHost (Str (ascii ''N/A'')) = Finite 0
   \<and> parseAmount demoHost (Str (ascii ''2500K'')) = Finite 2500000
   \<and> parseAmount demoHost (Str (ascii ''1 00 000''))
     = parseAmount demoHost (Str (ascii ''100 000''))"
proof -
  note T = parseAmount_spec [where h = demoHost and n = "Finite 0" and v = "ascii ''N/A''"
      and ds = "ascii ''2500''"]
  have nd: "\<forall>c \<in> set (ascii ''N/A''). \<not> isDigit c"
    by (simp add: ascii_def isDigit_def)
  have dg: "roundsIntegersExactly demoHost \<and> ascii ''2500'' \<noteq> []
      \<and> (\<forall>c \<in> set (ascii ''2500''). isDigit c)
      \<and> digitsValue (ascii ''2500'') * 1000 \<le> 2 ^ 53"
    by (simp add: demoHost_exact) (simp add: ascii_def isDigit_def digitsValue_def)
  have e: "parseAmount demoHost (Str (8377 # ascii ''50,000'')) = Finite 50000
      \<and> parseAmount demoHost (Str (ascii ''50k'')) = Finite 50000"
    using T [THEN conjunct1, THEN mp, OF demoHost_exact] .
  have a: "parseAmount demoHost (Str (ascii ''N/A'')) = Finite 0"
    using T [THEN conjunct2, THEN conjunct2, THEN conjunct2, THEN conjunct2, THEN conjunct2,
        THEN conjunct2, THEN conjunct2, THEN conjunct1, THEN mp, OF nd] .
  have "parseAmount demoHost (Str (ascii ''2500'' @ ascii ''K''))
      = Finite (real (digitsValue (ascii ''2500'')) * 1000)"
    using T [THEN conjunct2, THEN conjunct2, THEN conjunct2, THEN conjunct2, THEN conjunct2,
        THEN conjunct2, THEN conjunct2, THEN conjunct2, THEN conjunct2, THEN mp, OF dg]
    by simp
  then have b: "parseAmount demoHost (Str (ascii ''2500K'')) = Finite 2500000"
    by (simp add: ascii_def digitsValue_def)
  have ws: "(32::nat) = 44 \<or> (32::nat) = 8377 \<or> isWhiteSpace 32"
    by (simp add: isWhiteSpace_def)
  have "parseAmount demoHost (Str ([49] @ 32 # ascii ''00 000''))
      = parseAmount demoHost (Str ([49] @ ascii ''00 000''))"
    using T [THEN conjunct2, THEN conjunct2, THEN conjunct2, THEN conjunct1] ws
    by blast
  then have c: "parseAmount demoHost (Str (ascii ''1 00 000''))
      = parseAmount demoHost (Str (ascii ''100 000''))"
    by (simp add: ascii_def)
  show ?thesis
    using nd a b c e demoHost_exact by (simp add: list_all_iff)
qed
section \<open>Properties of \<^verbatim>\<open>suggestReminder\<close>\<close>











section \<open>Properties of the tracker\<close>

lemma checklistDocs_fold:
  "foldl (\<lambda>acc d. if d = p then acc else acc(d \<mapsto> False)) m ds
     = (\<lambda>d. if d \<in> set ds \<and> d \<noteq> p then Some False else m d)"
  by (induction ds arbitrary: m) (auto simp: fun_eq_iff)

lemma checklistDocs_eq:
  "checklistDocs s
     = (\<lambda>d. if d \<in> set (requiredDocs s) \<and> d \<noteq> ascii ''__proto__'' then Some False else None)"
  by (simp add: checklistDocs_def checklistDocs_fold)

lemma toggle_saved:
  assumes "s_id s \<in> savedIds st"
  shows "handleSaveToggle h now s st = Inr (st\<lparr> savedIds := savedIds st - {s_id s} \<rparr>)"
  using assms by (simp add: handleSaveToggle_def)

lemma toggle_unsaved_existing:
  assumes "s_id s \<notin> savedIds st" and "tracked st (s_id s) \<noteq> None"
  shows "handleSaveToggle h now s st = Inr (st\<lparr> savedIds := insert (s_id s) (savedIds st) \<rparr>)"
  using assms by (simp add: handleSaveToggle_def hasTruthy_def)

lemma toggle_twice:
  assumes sv: "s_id s \<in> savedIds st" and tr: "tracked st (s_id s) \<noteq> None"
  shows "\<exists>st1. handleSaveToggle h now s st = Inr st1
           \<and> savedIds st1 = savedIds st - {s_id s} \<and> tracked st1 = tracked st
           \<and> (\<exists>st2. handleSaveToggle h' now' s st1 = Inr st2
                  \<and> savedIds st2 = savedIds st \<and> tracked st2 = tracked st)"
proof -
  let ?st1 = "st\<lparr> savedIds := savedIds st - {s_id s} \<rparr>"
  let ?st2 = "?st1\<lparr> savedIds := insert (s_id s) (savedIds ?st1) \<rparr>"
  have 1: "handleSaveToggle h now s st = Inr ?st1"
    using sv by (rule toggle_saved)
  have ns: "s_id s \<notin> savedIds ?st1" by simp
  have ex: "tracked ?st1 (s_id s) \<noteq> None" using tr by simp
  have 2: "handleSaveToggle h' now' s ?st1 = Inr ?st2"
    using ns ex by (rule toggle_unsaved_existing)
  have 3: "savedIds ?st2 = savedIds st"
    using sv by auto
  have 4: "tracked ?st2 = tracked st"
    by simp
  have "\<exists>st2. handleSaveToggle h' now' s ?st1 = Inr st2
                  \<and> savedIds st2 = savedIds st \<and> tracked st2 = tracked st"
    using 2 3 4 by blast
  moreover have "savedIds ?st1 = savedIds st - {s_id s}" and "tracked ?st1 = tracked st"
    by simp_all
  ultimately show ?thesis
    using 1 by blast
qed

lemma toggle_changes_tracked:
  assumes "handleSaveToggle h now s st = Inr st1" and "tracked st1 \<noteq> tracked st"
  shows "tracked st (s_id s) = None \<and> s_id s \<notin> savedIds st
     \<and> (\<exists>r. suggestReminder h now (s_deadline s) = Inr r
            \<and> tracked st1 = (tracked st)(s_id s \<mapsto> seedTracked s r now))"
  using assms
  by (auto simp: handleSaveToggle_def hasTruthy_def split: if_splits sum.splits)

lemma toggle_seeds:
  assumes "s_id s \<notin> savedIds st" and "\<not> hasTruthy (tracked st) (s_id s)"
    and "suggestReminder h now (s_deadline s) = Inr r"
  shows "handleSaveToggle h now s st
     = Inr (st\<lparr> savedIds := insert (s_id s) (savedIds st),
               tracked := (tracked st)(s_id s \<mapsto> seedTracked s r now) \<rparr>)"
  using assms by (simp add: handleSaveToggle_def)

lemma toggle_raises:
  assumes "s_id s \<notin> savedIds st" and "\<not> hasTruthy (tracked st) (s_id s)"
    and "suggestReminder h now (s_deadline s) = Inl e"
  shows "handleSaveToggle h now s st = Inl e"
  using assms by (simp add: handleSaveToggle_def)

lemma seedTracked_fields:
  "t_id (seedTracked s r now) = s_id s \<and> t_status (seedTracked s r now) = planning
   \<and> t_reminderDate (seedTracked s r now) = r
   \<and> t_savedAt (seedTracked s r now) = now
   \<and> t_checklist (seedTracked s r now)
       = (\<lambda>d. if d \<in> set (requiredDocs s) \<and> d \<noteq> ascii ''__proto__'' then Some False
              else None)"
  by (simp add: seedTracked_def checklistDocs_eq)

lemma requiredDocs_eq:
  "requiredDocs s = (case s_documents s of None \<Rightarrow> DEFAULT_DOCS
      | Some ds \<Rightarrow> if ds = [] then DEFAULT_DOCS else ds)"
  by (simp add: requiredDocs_def split: option.splits)

text \<open>
  C6.  Toggling save on a saved item removes its id from the saved-id set and leaves the
  tracked map, and so the item's TrackedItem, unchanged; when the item has a TrackedItem,
  toggling again puts the id back and leaves the tracked map as it was at the start, so
  status, checklist, reminder date and \<open>savedAt\<close> are the earlier ones.  Saving an item that
  is not saved but has a TrackedItem does not touch the tracked map.  The tracked map
  changes only when the item has no TrackedItem, and then by the seeded entry alone:
  status \<open>planning\<close>, the reminder that \<open>suggestReminder\<close> returned, and a checklist that
  maps the item's documents, or the default documents when it declares none, to false (a
  document named \<^verbatim>\<open>__proto__\<close> gets no entry).  When \<open>suggestReminder\<close> raises an error,
  so does the handler, and no state changes.
\<close>

theorem handleSaveToggle_soft_delete:
  "(s_id s \<in> savedIds st \<longrightarrow>
      handleSaveToggle h now s st = Inr (st\<lparr> savedIds := savedIds st - {s_id s} \<rparr>))
   \<and> (s_id s \<in> savedIds st \<and> tracked st (s_id s) \<noteq> None \<longrightarrow>
      (\<exists>st1. handleSaveToggle h now s st = Inr st1
           \<and> savedIds st1 = savedIds st - {s_id s} \<and> tracked st1 = tracked st
           \<and> (\<exists>st2. handleSaveToggle h' now' s st1 = Inr st2
                  \<and> savedIds st2 = savedIds st \<and> tracked st2 = tracked st)))
   \<and> (s_id s \<notin> savedIds st \<and> tracked st (s_id s) \<noteq> None \<longrightarrow>
      handleSaveToggle h now s st = Inr (st\<lparr> savedIds := insert (s_id s) (savedIds st) \<rparr>))
   \<and> (handleSaveToggle h now s st = Inr st' \<and> tracked st' \<noteq> tracked st \<longrightarrow>
      tracked st (s_id s) = None \<and> s_id s \<notin> savedIds st
      \<and> (\<exists>r. suggestReminder h now (s_deadline s) = Inr r
             \<and> tracked st' = (tracked st)(s_id s \<mapsto> seedTracked s r now)))
   \<and> (s_id s \<notin> savedIds st \<and> \<not> hasTruthy (tracked st) (s_id s)
       \<and> suggestReminder h now (s_deadline s) = Inr r \<longrightarrow>
      handleSaveToggle h now s st
        = Inr (st\<lparr> savedIds := insert (s_id s) (savedIds st),
                  tracked := (tracked st)(s_id s \<mapsto> seedTracked s r now) \<rparr>))
   \<and> (s_id s \<notin> savedIds st \<and> \<not> hasTruthy (tracked st) (s_id s)
       \<and> suggestReminder h now (s_deadline s) = Inl e \<longrightarrow>
      handleSaveToggle h now s st = Inl e)
   \<and> t_id (seedTracked s r now) = s_id s
   \<and> t_status (seedTracked s r now) = planning
   \<and> t_reminderDate (seedTracked s r now) = r
   \<and> t_savedAt (seedTracked s r now) = now
   \<and> t_checklist (seedTracked s r now)
       = (\<lambda>d. if d \<in> set (requiredDocs s) \<and> d \<noteq> ascii ''__proto__'' then Some False
              else None)
   \<and> requiredDocs s = (case s_documents s of None \<Rightarrow> DEFAULT_DOCS
        | Some ds \<Rightarrow> if ds = [] then DEFAULT_DOCS else ds)"
proof -
  have a: "s_id s \<in> savedIds st \<longrightarrow>
      handleSaveToggle h now s st = Inr (st\<lparr> savedIds := savedIds st - {s_id s} \<rparr>)"
    by (rule impI) (rule toggle_saved)
  have a2: "s_id s \<in> savedIds st \<and> tracked st (s_id s) \<noteq> None \<longrightarrow>
      (\<exists>st1. handleSaveToggle h now s st = Inr st1
           \<and> savedIds st1 = savedIds st - {s_id s} \<and> tracked st1 = tracked st
           \<and> (\<exists>st2. handleSaveToggle h' now' s st1 = Inr st2
                  \<and> savedIds st2 = savedIds st \<and> tracked st2 = tracked st))"
  proof
    assume "s_id s \<in> savedIds st \<and> tracked st (s_id s) \<noteq> None"
    then have sv: "s_id s \<in> savedIds st" and tr: "tracked st (s_id s) \<noteq> None"
      by simp_all
    show "\<exists>st1. handleSaveToggle h now s st = Inr st1
           \<and> savedIds st1 = savedIds st - {s_id s} \<and> tracked st1 = tracked st
           \<and> (\<exists>st2. handleSaveToggle h' now' s st1 = Inr st2
                  \<and> savedIds st2 = savedIds st \<and> tracked st2 = tracked st)"
      using sv tr by (rule toggle_twice)
  qed
  have b: "s_id s \<notin> savedIds st \<and> tracked st (s_id s) \<noteq> None \<longrightarrow>
      handleSaveToggle h now s st = Inr (st\<lparr> savedIds := insert (s_id s) (savedIds st) \<rparr>)"
    using toggle_unsaved_existing [of s st h now] by blast
  have c: "handleSaveToggle h now s st = Inr st' \<and> tracked st' \<noteq> tracked st \<longrightarrow>
      tracked st (s_id s) = None \<and> s_id s \<notin> savedIds st
      \<and> (\<exists>r. suggestReminder h now (s_deadline s) = Inr r
             \<and> tracked st' = (tracked st)(s_id s \<mapsto> seedTracked s r now))"
    using toggle_changes_tracked [of h now s st st'] by blast
  have d: "s_id s \<notin> savedIds st \<and> \<not> hasTruthy (tracked st) (s_id s)
       \<and> suggestReminder h now (s_deadline s) = Inr r \<longrightarrow>
      handleSaveToggle h now s st
        = Inr (st\<lparr> savedIds := insert (s_id s) (savedIds st),
                  tracked := (tracked st)(s_id s \<mapsto> seedTracked s r now) \<rparr>)"
    using toggle_seeds [of s st h now r] by blast
  have d2: "s_id s \<notin> savedIds st \<and> \<not> hasTruthy (tracked st) (s_id s)
       \<and> suggestReminder h now (s_deadline s) = Inl e \<longrightarrow>
      handleSaveToggle h now s st = Inl e"
    using toggle_raises [of s st h now e] by blast
  note f = seedTracked_fields [of s r now]
  show ?thesis
    by (intro conjI a a2 b c d d2 f [THEN conjunct1] f [THEN conjunct2, THEN conjunct1]
        f [THEN conjunct2, THEN conjunct2, THEN conjunct1]
        f [THEN conjunct2, THEN conjunct2, THEN conjunct2, THEN conjunct1]
        f [THEN conjunct2, THEN conjunct2, THEN conjunct2, THEN conjunct2] requiredDocs_eq)
qed

theorem handleSaveToggle_soft_delete_witness:
  "s_id demoScholarship \<in> savedIds demoTracker
   \<and> tracked demoTracker (s_id demoScholarship) = Some demoTracked
   \<and> t_checklist demoTracked (ascii ''Marksheet'') = Some True
   \<and> handleSaveToggle demoHost demoNow demoScholarship demoTracker
     = Inr (demoTracker\<lparr> savedIds := {} \<rparr>)
   \<and> handleSaveToggle demoHost (demoNow + 1000) demoScholarship (demoTracker\<lparr> savedIds := {} \<rparr>)
     = Inr demoTracker
   \<and> s_id expiredScholarship \<notin> savedIds demoTracker
   \<and> \<not> hasTruthy (tracked demoTracker) (s_id expiredScholarship)
   \<and> suggestReminder demoHost demoNow (s_deadline expiredScholarship) = Inr (Some 1718249400000)
   \<and> handleSaveToggle demoHost demoNow expiredScholarship demoTracker
     = Inr (demoTracker\<lparr> savedIds := insert (s_id expiredScholarship) (savedIds demoTracker),
              tracked := (tracked demoTracker)(s_id expiredScholarship \<mapsto>
                 seedTracked expiredScholarship (Some 1718249400000) demoNow) \<rparr>)"
proof -
  note T = handleSaveToggle_soft_delete [where s = demoScholarship and st = demoTracker
      and h = demoHost and now = demoNow and h' = demoHost and now' = "demoNow + 1000"]
  note U = handleSaveToggle_soft_delete [where s = demoScholarship
      and st = "demoTracker\<lparr> savedIds := {} \<rparr>"
      and h = demoHost and now = "demoNow + 1000"]
  note V = handleSaveToggle_soft_delete [where s = expiredScholarship and st = demoTracker
      and h = demoHost and now = demoNow and r = "Some 1718249400000"]
  have sv: "s_id demoScholarship \<in> savedIds demoTracker"
    by (simp add: demoScholarship_def demoTracker_def)
  have tr: "tracked demoTracker (s_id demoScholarship) = Some demoTracked"
    by (simp add: demoScholarship_def demoTracker_def)
  have ck: "t_checklist demoTracked (ascii ''Marksheet'') = Some True"
    by (simp add: demoTracked_def)
  have e: "savedIds demoTracker - {s_id demoScholarship} = {}"
    by (simp add: demoScholarship_def demoTracker_def)
  have 1: "handleSaveToggle demoHost demoNow demoScholarship demoTracker
     = Inr (demoTracker\<lparr> savedIds := {} \<rparr>)"
    using T [THEN conjunct1, THEN mp, OF sv] by (simp only: e)
  have ns: "s_id demoScholarship \<notin> savedIds (demoTracker\<lparr> savedIds := {} \<rparr>)
      \<and> tracked (demoTracker\<lparr> savedIds := {} \<rparr>) (s_id demoScholarship) \<noteq> None"
    using tr by simp
  have 2: "handleSaveToggle demoHost (demoNow + 1000) demoScholarship
       (demoTracker\<lparr> savedIds := {} \<rparr>) = Inr demoTracker"
    using U [THEN conjunct2, THEN conjunct2, THEN conjunct1, THEN mp, OF ns]
    by (simp add: demoScholarship_def demoTracker_def)
  have n3: "s_id expiredScholarship \<notin> savedIds demoTracker"
    by (simp add: expiredScholarship_def demoTracker_def ascii_def)
  have h3: "\<not> hasTruthy (tracked demoTracker) (s_id expiredScholarship)"
    by (simp add: hasTruthy_def expiredScholarship_def demoTracker_def objectPrototypeKeys_def
        ascii_def)
  have r3: "suggestReminder demoHost demoNow (s_deadline expiredScholarship)
      = Inr (Some 1718249400000)"
    by (simp add: suggestReminder_def expiredScholarship_def newDate_def timeClip_def
        setDateBy_def setHours9_def toISOString_def shiftDays_def nineOClock_def demoHost_def
        demoDateParse_def demoNow_def msPerDay_def ascii_def)
  have 3: "handleSaveToggle demoHost demoNow expiredScholarship demoTracker
     = Inr (demoTracker\<lparr> savedIds := insert (s_id expiredScholarship) (savedIds demoTracker),
              tracked := (tracked demoTracker)(s_id expiredScholarship \<mapsto>
                 seedTracked expiredScholarship (Some 1718249400000) demoNow) \<rparr>)"
    using V [THEN conjunct2, THEN conjunct2, THEN conjunct2, THEN conjunct2, THEN conjunct1,
        THEN mp] n3 h3 r3
    by blast
  show ?thesis
    by (intro conjI sv tr ck 1 2 n3 h3 r3 3)
qed
section \<open>Properties of the filter pipeline\<close>

subsection \<open>Sanitization\<close>

lemma normalise_id: "r_id (normalise i n kvs) = i"
  and normalise_name: "r_name (normalise i n kvs) = n"
  by (simp_all add: normalise_def)

lemma sanitizeOne_object:
  "sanitizeOne (JObj kvs)
     = (if truthy (field kvs ''id'') \<and> truthy (field kvs ''name'')
        then [normalise (the (field kvs ''id'')) (the (field kvs ''name'')) kvs] else [])"
  by (simp add: sanitizeOne_def truthy_def split: option.splits)

lemma sanitizeOne_other: "\<forall>kvs. e \<noteq> JObj kvs \<Longrightarrow> sanitizeOne e = []"
  by (cases e) (simp_all add: sanitizeOne_def)

lemma sanitizeOne_truthy:
  assumes "r \<in> set (sanitizeOne e)"
  shows "truthyJ (r_id r) \<and> truthyJ (r_name r) \<and> sanitizeOne e = [r]"
proof (cases e)
  case (JObj kvs)
  show ?thesis
    using assms unfolding JObj sanitizeOne_object
    by (auto simp: normalise_id normalise_name truthy_def split: if_splits option.splits)
qed (use assms in \<open>simp_all add: sanitizeOne_def\<close>)

lemma sanitize_elem:
  assumes "r \<in> set (sanitizeScholarships payload)"
  shows "truthyJ (r_id r) \<and> truthyJ (r_name r) \<and> (\<exists>e \<in> set payload. sanitizeOne e = [r])"
proof -
  obtain e where e: "e \<in> set payload" and r: "r \<in> set (sanitizeOne e)"
    using assms by (auto simp: sanitizeScholarships_def)
  show ?thesis
    using sanitizeOne_truthy [OF r] e by blast
qed

lemma sanitizeOne_drop:
  assumes "\<not> (truthy (field kvs ''id'') \<and> truthy (field kvs ''name''))"
  shows "sanitizeOne (JObj kvs) = []"
  using assms by (simp add: sanitizeOne_object)

lemma sanitizeScholarships_append:
  "sanitizeScholarships (xs @ e # ys)
     = sanitizeScholarships xs @ sanitizeOne e @ sanitizeScholarships ys"
  by (simp add: sanitizeScholarships_def)

lemma sanitizeOne_null: "sanitizeOne JNull = []"
  by (simp add: sanitizeOne_def)

subsection \<open>Objects of the declared type\<close>

lemma isText_textOf: "isText v \<Longrightarrow> JStr (textOf v) = v"
  by (cases v) (simp_all add: isText_def textOf_def)

lemma isAmount_amountOf: "isAmount v \<Longrightarrow> ofAmount (amountOf v) = v"
  by (cases v) (simp_all add: isAmount_def amountOf_def ofAmount_def textOf_def)

lemma isText_map: "list_all isText ds \<Longrightarrow> map (\<lambda>d. JStr (textOf d)) ds = ds"
  by (induction ds) (simp_all add: isText_textOf)

lemma isText_option:
  "list_all isText (case v of None \<Rightarrow> [] | Some x \<Rightarrow> [x])
     \<Longrightarrow> map_option (\<lambda>d. JStr (textOf d)) v = v"
  by (cases v) (simp_all add: isText_textOf)

lemma isText_documents:
  "list_all isText (case v of None \<Rightarrow> [] | Some ds \<Rightarrow> ds)
     \<Longrightarrow> map_option (map (\<lambda>d. JStr (textOf d))) v = v"
  by (cases v) (simp_all add: isText_map)

lemma deadline_roundtrip:
  "v = JNull \<or> isText v
     \<Longrightarrow> (case (if v = JNull then None else Some (textOf v)) of
            None \<Rightarrow> JNull | Some d \<Rightarrow> JStr d) = v"
  by (auto simp: isText_textOf)

lemma wellTyped_roundtrip:
  assumes "wellTyped r"
  shows "ofScholarship (toScholarship r) = r"
proof -
  have 1: "JStr (textOf (r_id r)) = r_id r" and 2: "JStr (textOf (r_name r)) = r_name r"
    and 3: "ofAmount (amountOf (r_amount r)) = r_amount r"
    and 4: "JStr (textOf (r_eligibility r)) = r_eligibility r"
    and 5: "(case (if r_deadline r = JNull then None else Some (textOf (r_deadline r))) of
            None \<Rightarrow> JNull | Some d \<Rightarrow> JStr d) = r_deadline r"
    and 6: "JStr (textOf (r_category r)) = r_category r"
    and 7: "map_option (\<lambda>d. JStr (textOf d)) (r_source r) = r_source r"
    and 8: "map_option (\<lambda>d. JStr (textOf d)) (r_link r) = r_link r"
    and 9: "map_option (map (\<lambda>d. JStr (textOf d))) (r_documents r) = r_documents r"
    using assms
    by (simp_all only: wellTyped_def isText_textOf isAmount_amountOf deadline_roundtrip
        isText_option isText_documents)
  show ?thesis
    by (rule RawScholarship.equality)
      (simp_all add: ofScholarship_def toScholarship_def 1 2 3 4 5 6 7 8 9
        option.map_comp comp_def del: map_option_eq_Some)
qed

lemma isText_truthy: "v = JNull \<or> isText v \<Longrightarrow> truthyJ v \<Longrightarrow> isText v"
  by (auto simp: truthyJ_def)

lemma orElse_text:
  assumes "textOrMissing v" and "isText d"
  shows "isText (orElse v d)"
  using assms by (auto simp: textOrMissing_def orElse_def truthyJ_def split: option.splits)

lemma orElse_deadline:
  assumes "textOrMissing v"
  shows "orElse v JNull = JNull \<or> isText (orElse v JNull)"
  using assms by (auto simp: textOrMissing_def orElse_def truthyJ_def split: option.splits)

lemma orNothing_text:
  assumes "textOrMissing v"
  shows "list_all isText (case orNothing v of None \<Rightarrow> [] | Some x \<Rightarrow> [x])"
  using assms
  by (auto simp: textOrMissing_def orNothing_def truthy_def truthyJ_def split: option.splits)

lemma amount_declared:
  assumes "case v of None \<Rightarrow> True | Some a \<Rightarrow> a = JNull \<or> isAmount a"
  shows "isAmount (case v of None \<Rightarrow> JNum (Finite 0)
                   | Some a \<Rightarrow> if a = JNull then JNum (Finite 0) else a)"
  using assms by (auto simp: isAmount_def split: option.splits)

lemma documents_declared:
  assumes "case v of None \<Rightarrow> True
           | Some d \<Rightarrow> (case d of JArr ds \<Rightarrow> list_all isText ds | _ \<Rightarrow> d = JNull)"
  shows "list_all isText
     (case (case v of Some (JArr ds) \<Rightarrow> Some ds | _ \<Rightarrow> None) of None \<Rightarrow> [] | Some ds \<Rightarrow> ds)"
  using assms by (auto split: option.splits json.splits)

lemma normalise_wellTyped:
  assumes d: "declaredTypes (JObj kvs)"
    and i: "field kvs ''id'' = Some i" "truthyJ i"
    and n: "field kvs ''name'' = Some n" "truthyJ n"
  shows "wellTyped (normalise i n kvs)"
proof -
  have d1: "textOrMissing (field kvs ''id'')" and d2: "textOrMissing (field kvs ''name'')"
    and d3: "case field kvs ''amount'' of None \<Rightarrow> True | Some a \<Rightarrow> a = JNull \<or> isAmount a"
    and d4: "textOrMissing (field kvs ''eligibility'')"
    and d5: "textOrMissing (field kvs ''deadline'')"
    and d6: "textOrMissing (field kvs ''category'')"
    and d7: "textOrMissing (field kvs ''source'')"
    and d8: "textOrMissing (field kvs ''link'')"
    and d9: "case field kvs ''documents'' of None \<Rightarrow> True
           | Some d \<Rightarrow> (case d of JArr ds \<Rightarrow> list_all isText ds | _ \<Rightarrow> d = JNull)"
    using d by (simp_all add: declaredTypes_def)
  have ti: "isText i"
    using d1 i by (auto simp: textOrMissing_def intro: isText_truthy)
  have tn: "isText n"
    using d2 n by (auto simp: textOrMissing_def intro: isText_truthy)
  have g: "isText (JStr (ascii ''General''))"
    and e: "isText (JStr (ascii ''Eligibility details not provided''))"
    by (simp_all add: isText_def)
  show ?thesis
    unfolding wellTyped_def normalise_def
    by (simp add: ti tn amount_declared [OF d3] orElse_text [OF d4 e] orElse_deadline [OF d5]
        orElse_text [OF d6 g] orNothing_text [OF d7] orNothing_text [OF d8]
        documents_declared [OF d9])
qed

lemma sanitizeOne_wellTyped:
  assumes "declaredTypes e" and "r \<in> set (sanitizeOne e)"
  shows "wellTyped r"
proof (cases e)
  case (JObj kvs)
  from assms(2) have t: "truthy (field kvs ''id'')" "truthy (field kvs ''name'')"
    and r: "r = normalise (the (field kvs ''id'')) (the (field kvs ''name'')) kvs"
    unfolding JObj sanitizeOne_object by (auto split: if_splits)
  obtain i where i: "field kvs ''id'' = Some i" "truthyJ i"
    using t(1) by (auto simp: truthy_def split: option.splits)
  obtain n where n: "field kvs ''name'' = Some n" "truthyJ n"
    using t(2) by (auto simp: truthy_def split: option.splits)
  have "wellTyped (normalise i n kvs)"
    using assms(1) i n unfolding JObj by (rule normalise_wellTyped)
  then show ?thesis
    using r i n by simp
qed (use assms in \<open>simp_all add: sanitizeOne_def\<close>)

lemma sanitize_wellTyped:
  assumes "\<forall>e \<in> set payload. declaredTypes e"
  shows "\<forall>r \<in> set (sanitizeScholarships payload). wellTyped r"
  using assms sanitizeOne_wellTyped by (auto simp: sanitizeScholarships_def)

subsection \<open>The filtered list\<close>

lemma bindE_Inr: "bindE (Inr x) f = f x"
  by (simp add: bindE_def)

lemma bindE_eq_Inr: "bindE m f = Inr y \<longleftrightarrow> (\<exists>x. m = Inr x \<and> f x = Inr y)"
  by (cases m) (simp_all add: bindE_def)

lemma subset_add_mset: "A \<subseteq># B \<Longrightarrow> A \<subseteq># add_mset x B"
  by (simp add: subseteq_mset_def le_SucI)

lemma filterE_mset: "filterE p xs = Inr ys \<Longrightarrow> mset ys \<subseteq># mset xs"
proof (induction xs arbitrary: ys)
  case Nil
  then show ?case by simp
next
  case (Cons x xs)
  from Cons.prems obtain b zs where z: "filterE p xs = Inr zs"
    and ys: "ys = (if b then x # zs else zs)"
    by (auto split: sum.splits)
  have "mset zs \<subseteq># mset xs"
    using z by (rule Cons.IH)
  then show ?case
    unfolding ys by (simp add: subset_add_mset)
qed

lemma sortAmountRaw_mset: "sortAmountRaw h ord l = Inr out \<Longrightarrow> mset out = mset l"
  by (auto simp: sortAmountRaw_def mset_sortBy split: if_splits)

lemma filteredRaw_mset:
  assumes "filteredRaw h now c l = Inr out"
  shows "mset out \<subseteq># mset l"
proof -
  from assms obtain l1 l2 l3 l4 where
    s1: "(if trim (query c) \<noteq> []
          then filterE (matchesQueryRaw h (toLowerCase (query c))) l else Inr l) = Inr l1"
    and s2: "l2 = (case category c of None \<Rightarrow> l1
        | Some cat \<Rightarrow> if cat = [] then l1 else filter (\<lambda>s. r_category s = JStr cat) l1)"
    and s3: "(case eligibility c of None \<Rightarrow> Inr l2
        | Some el \<Rightarrow> if el = [] then Inr l2 else filterE (includesEligibility el) l2) = Inr l3"
    and s4: "(if deadlineWindow c \<noteq> Wall
          then filterE (withinWindowRaw h now (windowDays (deadlineWindow c))) l3
          else Inr l3) = Inr l4"
    and s5: "(case amountOrder c of None \<Rightarrow> Inr l4 | Some ord \<Rightarrow> sortAmountRaw h ord l4)
        = Inr out"
    unfolding filteredRaw_def bindE_eq_Inr by blast
  have 1: "mset l1 \<subseteq># mset l"
    using s1 by (auto split: if_splits dest: filterE_mset)
  have "mset l2 \<subseteq># mset l1"
    by (simp add: s2 split: option.splits)
  then have 2: "mset l2 \<subseteq># mset l"
    using 1 by (rule subset_mset.order_trans)
  have "mset l3 \<subseteq># mset l2"
    using s3 by (auto split: option.splits if_splits dest: filterE_mset)
  then have 3: "mset l3 \<subseteq># mset l"
    using 2 by (rule subset_mset.order_trans)
  have "mset l4 \<subseteq># mset l3"
    using s4 by (auto split: if_splits dest: filterE_mset)
  then have 4: "mset l4 \<subseteq># mset l"
    using 3 by (rule subset_mset.order_trans)
  have "mset out = mset l4"
    using s5 by (auto split: option.splits dest: sortAmountRaw_mset)
  then show ?thesis
    using 4 by simp
qed

lemma filterE_map:
  assumes "\<And>x. p (f x) = Inr (q x)"
  shows "filterE p (map f xs) = Inr (map f (filter q xs))"
  by (induction xs) (simp_all add: assms)

lemma insertSorted_map:
  assumes "\<And>a b. cmp' (f a) (f b) = cmp a b"
  shows "insertSorted cmp' (f x) (map f ys) = map f (insertSorted cmp x ys)"
  by (induction ys) (simp_all add: assms)

lemma sortBy_map:
  assumes "\<And>a b. cmp' (f a) (f b) = cmp a b"
  shows "sortBy cmp' (map f xs) = map f (sortBy cmp xs)"
proof (induction xs)
  case Nil
  show ?case by (simp add: sortBy_def)
next
  case (Cons x xs)
  have "sortBy cmp' (map f (x # xs)) = insertSorted cmp' (f x) (sortBy cmp' (map f xs))"
    by (simp add: sortBy_def)
  also have "\<dots> = insertSorted cmp' (f x) (map f (sortBy cmp xs))"
    by (simp only: Cons.IH)
  also have "\<dots> = map f (insertSorted cmp x (sortBy cmp xs))"
    using assms by (rule insertSorted_map)
  also have "\<dots> = map f (sortBy cmp (x # xs))"
    by (simp add: sortBy_def)
  finally show ?case .
qed

lemma orE_Inr: "orE (Inr a) (Inr b) = Inr (a \<or> b)"
  by (simp add: orE_def)

lemma orEmpty_text: "orEmpty (JStr t) = JStr t"
  by (simp add: orEmpty_def truthyJ_def)

lemma includesLower_text: "includesLower q (JStr t) = Inr (includesStr (toLowerCase t) q)"
  by (simp add: includesLower_def)

lemma jsToString_amount: "jsToString h (ofAmount a) = Inr (amountToString h a)"
  by (cases a) (simp_all add: ofAmount_def amountToString_def)

lemma matchesQueryRaw_typed:
  "matchesQueryRaw h q (ofScholarship s) = Inr (matchesQuery h q s)"
  by (simp add: matchesQueryRaw_def matchesQuery_def ofScholarship_def orEmpty_text
      includesLower_text jsToString_amount bindE_Inr orE_Inr)

lemma includesEligibility_typed:
  "includesEligibility el (ofScholarship s) = Inr (includesStr (s_eligibility s) el)"
  by (simp add: includesEligibility_def ofScholarship_def orEmpty_text)

lemma withinWindowRaw_typed:
  "withinWindowRaw h now days (ofScholarship s) = Inr (withinWindow h now days s)"
  by (simp add: withinWindowRaw_def withinWindow_def ofScholarship_def truthyJ_def dateOf_def
      bindE_Inr split: option.splits)

lemma parseAmountRaw_typed: "parseAmountRaw h (ofAmount a) = Inr (parseAmount h a)"
  by (cases a) (simp_all add: parseAmountRaw_def ofAmount_def)

lemma compareAmountRaw_typed:
  "compareAmountRaw h ord (ofScholarship a) (ofScholarship b) = compareAmount h ord a b"
proof -
  have "r_amount (ofScholarship a) = ofAmount (s_amount a)"
    and "r_amount (ofScholarship b) = ofAmount (s_amount b)"
    by (simp_all add: ofScholarship_def)
  then show ?thesis
    by (simp add: compareAmountRaw_def compareAmount_def parseAmountRaw_typed Let_def)
qed

lemma sortAmountRaw_typed:
  "sortAmountRaw h ord (map ofScholarship l)
     = Inr (map ofScholarship (sortBy (\<lambda>a b. numSign (compareAmount h ord a b)) l))"
proof -
  have a: "r_amount (ofScholarship s) = ofAmount (s_amount s)" for s
    by (simp add: ofScholarship_def)
  have "\<not> list_ex (\<lambda>s. parseAmountRaw h (r_amount s) = Inl TypeError) (map ofScholarship l)"
    by (simp add: list_ex_iff a parseAmountRaw_typed)
  moreover have "sortBy (\<lambda>a b. numSign (compareAmountRaw h ord a b)) (map ofScholarship l)
      = map ofScholarship (sortBy (\<lambda>a b. numSign (compareAmount h ord a b)) l)"
    by (rule sortBy_map) (simp add: compareAmountRaw_typed)
  ultimately show ?thesis
    by (simp add: sortAmountRaw_def)
qed

lemma filteredRaw_typed:
  "filteredRaw h now c (map ofScholarship t) = Inr (map ofScholarship (filtered h now c t))"
proof -
  define l1 where "l1 = (if trim (query c) \<noteq> [] then filter (matchesQuery h (toLowerCase (query c))) t else t)"
  define l2 where "l2 = (case category c of None \<Rightarrow> l1
      | Some cat \<Rightarrow> if cat = [] then l1 else filter (\<lambda>s. s_category s = cat) l1)"
  define l3 where "l3 = (case eligibility c of None \<Rightarrow> l2
      | Some el \<Rightarrow> if el = [] then l2 else filter (\<lambda>s. includesStr (s_eligibility s) el) l2)"
  define l4 where "l4 = (if deadlineWindow c \<noteq> Wall
      then filter (withinWindow h now (windowDays (deadlineWindow c))) l3 else l3)"
  have s1: "(if trim (query c) \<noteq> []
        then filterE (matchesQueryRaw h (toLowerCase (query c))) (map ofScholarship t)
        else Inr (map ofScholarship t)) = Inr (map ofScholarship l1)"
    by (simp add: l1_def filterE_map [where f = ofScholarship
        and p = "matchesQueryRaw h (toLowerCase (query c))"
        and q = "matchesQuery h (toLowerCase (query c))", OF matchesQueryRaw_typed])
  have cat: "filter (\<lambda>s. r_category s = JStr x) (map ofScholarship l)
      = map ofScholarship (filter (\<lambda>s. s_category s = x) l)" for x l
    by (induction l) (simp_all add: ofScholarship_def)
  have s2: "(case category c of None \<Rightarrow> map ofScholarship l1
      | Some cat \<Rightarrow> if cat = [] then map ofScholarship l1
                    else filter (\<lambda>s. r_category s = JStr cat) (map ofScholarship l1))
      = map ofScholarship l2"
    by (simp add: l2_def cat split: option.splits)
  have s3: "(case eligibility c of None \<Rightarrow> Inr (map ofScholarship l2)
      | Some el \<Rightarrow> if el = [] then Inr (map ofScholarship l2)
                   else filterE (includesEligibility el) (map ofScholarship l2))
      = Inr (map ofScholarship l3)"
  proof (cases "eligibility c")
    case None
    then show ?thesis by (simp add: l3_def)
  next
    case (Some el)
    show ?thesis
      unfolding Some
      by (simp add: l3_def Some filterE_map [where f = ofScholarship
          and p = "includesEligibility el" and q = "\<lambda>s. includesStr (s_eligibility s) el",
          OF includesEligibility_typed])
  qed
  have s4: "(if deadlineWindow c \<noteq> Wall
        then filterE (withinWindowRaw h now (windowDays (deadlineWindow c))) (map ofScholarship l3)
        else Inr (map ofScholarship l3)) = Inr (map ofScholarship l4)"
    by (simp add: l4_def filterE_map [where f = ofScholarship
        and p = "withinWindowRaw h now (windowDays (deadlineWindow c))"
        and q = "withinWindow h now (windowDays (deadlineWindow c))", OF withinWindowRaw_typed])
  have s5: "(case amountOrder c of None \<Rightarrow> Inr (map ofScholarship l4)
      | Some ord \<Rightarrow> sortAmountRaw h ord (map ofScholarship l4))
      = Inr (map ofScholarship (case amountOrder c of None \<Rightarrow> l4
           | Some ord \<Rightarrow> sortBy (\<lambda>a b. numSign (compareAmount h ord a b)) l4))"
    by (simp add: sortAmountRaw_typed split: option.splits)
  have f: "filtered h now c t = (case amountOrder c of None \<Rightarrow> l4
      | Some ord \<Rightarrow> sortBy (\<lambda>a b. numSign (compareAmount h ord a b)) l4)"
    by (simp only: filtered_def Let_def l1_def l2_def l3_def l4_def)
  show ?thesis
    by (simp only: filteredRaw_def s1 bindE_Inr s2 s3 s4 s5 f)
qed

lemma filteredRaw_wellTyped:
  assumes "\<forall>r \<in> set l. wellTyped r"
  shows "filteredRaw h now c l
     = Inr (map ofScholarship (filtered h now c (map toScholarship l)))"
proof -
  have "map ofScholarship (map toScholarship l) = l"
    using assms by (induction l) (simp_all add: wellTyped_roundtrip)
  then show ?thesis
    using filteredRaw_typed [of h now c "map toScholarship l"] by simp
qed

text \<open>
  C8.  For every catalog and every combination of the criteria (text query, category,
  eligibility, deadline window, sort order) every record of a filtered list is a record of
  the catalog, with no more copies than the catalog holds.  \<open>sanitizeScholarships\<close> drops
  the entries that are no JSON objects (\<^verbatim>\<open>null\<close> among them) and the entries whose id
  or name is missing or falsy, and leaves the other entries in place, so a record of a
  sanitized payload always stems from a payload entry with a truthy id and name; a
  payload that is no array gives the empty catalog.  On a payload whose entries have
  members of the declared types the sanitized records are of the declared type, and on
  records of the declared type the filter raises no error: it returns the list that the
  typed filter computes.
\<close>

theorem filter_pipeline_subset:
  "(filteredRaw h now c l = Inr out \<longrightarrow> mset out \<subseteq># mset l \<and> set out \<subseteq> set l)
   \<and> (\<forall>r \<in> set (sanitizeScholarships payload).
         truthyJ (r_id r) \<and> truthyJ (r_name r) \<and> (\<exists>e \<in> set payload. sanitizeOne e = [r]))
   \<and> (\<not> (truthy (field kvs ''id'') \<and> truthy (field kvs ''name''))
        \<longrightarrow> sanitizeOne (JObj kvs) = [])
   \<and> sanitizeOne JNull = []
   \<and> ((\<forall>members. entry \<noteq> JObj members) \<longrightarrow> sanitizeOne entry = [])
   \<and> loadedScholarships (JArr payload) = sanitizeScholarships payload
   \<and> ((\<forall>lst. data \<noteq> JArr lst) \<longrightarrow> loadedScholarships data = [])
   \<and> sanitizeScholarships (xs @ e # ys)
       = sanitizeScholarships xs @ sanitizeOne e @ sanitizeScholarships ys
   \<and> ((\<forall>e \<in> set payload. declaredTypes e)
        \<longrightarrow> (\<forall>r \<in> set (sanitizeScholarships payload). wellTyped r))
   \<and> ((\<forall>r \<in> set l. wellTyped r)
        \<longrightarrow> filteredRaw h now c l
            = Inr (map ofScholarship (filtered h now c (map toScholarship l))))
   \<and> filteredRaw h now c (map ofScholarship t) = Inr (map ofScholarship (filtered h now c t))
   \<and> mset (filtered h now c t) \<subseteq># mset t"
proof -
  have a: "filteredRaw h now c l = Inr out \<longrightarrow> mset out \<subseteq># mset l \<and> set out \<subseteq> set l"
  proof
    assume "filteredRaw h now c l = Inr out"
    then have m: "mset out \<subseteq># mset l"
      by (rule filteredRaw_mset)
    then have "set_mset (mset out) \<subseteq> set_mset (mset l)"
      by (rule set_mset_mono)
    then show "mset out \<subseteq># mset l \<and> set out \<subseteq> set l"
      using m by simp
  qed
  have b: "\<forall>r \<in> set (sanitizeScholarships payload).
         truthyJ (r_id r) \<and> truthyJ (r_name r) \<and> (\<exists>e \<in> set payload. sanitizeOne e = [r])"
    using sanitize_elem by blast
  have c: "\<not> (truthy (field kvs ''id'') \<and> truthy (field kvs ''name''))
        \<longrightarrow> sanitizeOne (JObj kvs) = []"
    by (rule impI) (rule sanitizeOne_drop)
  have d: "(\<forall>e \<in> set payload. declaredTypes e)
        \<longrightarrow> (\<forall>r \<in> set (sanitizeScholarships payload). wellTyped r)"
    by (rule impI) (rule sanitize_wellTyped)
  have noobj: "(\<forall>members. entry \<noteq> JObj members) \<longrightarrow> sanitizeOne entry = []"
    by (rule impI) (rule sanitizeOne_other)
  have loaded: "loadedScholarships (JArr payload) = sanitizeScholarships payload"
    by (simp add: loadedScholarships_def)
  have other: "(\<forall>lst. data \<noteq> JArr lst) \<longrightarrow> loadedScholarships data = []"
    by (cases data) (simp_all add: loadedScholarships_def)
  have e: "(\<forall>r \<in> set l. wellTyped r)
        \<longrightarrow> filteredRaw h now c l
            = Inr (map ofScholarship (filtered h now c (map toScholarship l)))"
    by (rule impI) (rule filteredRaw_wellTyped)
  show ?thesis
    by (intro conjI a b c sanitizeOne_null noobj loaded other sanitizeScholarships_append d e
        filteredRaw_typed filtered_mset)
qed

lemma demoCriteria_query: "trim (query demoCriteria) \<noteq> []"
  and demoCriteria_rest: "category demoCriteria = None" "eligibility demoCriteria = None"
    "deadlineWindow demoCriteria = Wall" "amountOrder demoCriteria = Some desc"
  and demoCriteria_lower: "toLowerCase (query demoCriteria) = ascii ''merit''"
  by (simp_all add: demoCriteria_def trim_def ascii_def isWhiteSpace_def toLowerCase_def
      lowerUnit_def)

lemma demoPayload_sanitized:
  "sanitizeScholarships demoPayload
     = [normalise (JStr (ascii ''sch-1'')) (JStr (ascii ''Merit Award''))
          [(ascii ''id'', JStr (ascii ''sch-1'')), (ascii ''name'', JStr (ascii ''Merit Award'')),
           (ascii ''deadline'', JStr (ascii ''not a date''))]]"
  by (simp add: sanitizeScholarships_def demoPayload_def demoEntry_def namelessEntry_def
      sanitizeOne_def field_def truthyJ_def ascii_def)

lemma demoPayload_declared: "\<forall>e \<in> set demoPayload. declaredTypes e"
  by (simp add: demoPayload_def demoEntry_def namelessEntry_def declaredTypes_def field_def
      textOrMissing_def isText_def isAmount_def ascii_def)

lemma singleton_sortAmountRaw: "sortAmountRaw h ord [x] = Inr [x]"
  by (simp add: sortAmountRaw_def sortBy_Cons sortBy_Nil)

theorem filter_pipeline_subset_witness:
  "list_all declaredTypes demoPayload
   \<and> length demoPayload = 3
   \<and> map r_id (sanitizeScholarships demoPayload) = [JStr (ascii ''sch-1'')]
   \<and> list_all wellTyped (sanitizeScholarships demoPayload)
   \<and> filteredRaw demoHost demoNow demoCriteria (sanitizeScholarships demoPayload)
     = Inr (sanitizeScholarships demoPayload)
   \<and> filteredRaw demoHost demoNow demoCriteria (sanitizeScholarships demoPayload)
     = Inr (map ofScholarship (filtered demoHost demoNow demoCriteria
              (map toScholarship (sanitizeScholarships demoPayload))))
   \<and> mset (sanitizeScholarships demoPayload) \<subseteq># mset (sanitizeScholarships demoPayload)"
proof -
  let ?kvs = "[(ascii ''id'', JStr (ascii ''sch-1'')), (ascii ''name'', JStr (ascii ''Merit Award'')),
           (ascii ''deadline'', JStr (ascii ''not a date''))]"
  let ?x = "normalise (JStr (ascii ''sch-1'')) (JStr (ascii ''Merit Award'')) ?kvs"
  note T = filter_pipeline_subset [where h = demoHost and now = demoNow and c = demoCriteria
      and payload = demoPayload and l = "sanitizeScholarships demoPayload"
      and out = "sanitizeScholarships demoPayload"]
  have w: "\<forall>r \<in> set (sanitizeScholarships demoPayload). wellTyped r"
    using T [THEN conjunct2, THEN conjunct2, THEN conjunct2, THEN conjunct2, THEN conjunct2,
        THEN conjunct2, THEN conjunct2, THEN conjunct2, THEN conjunct1, THEN mp,
        OF demoPayload_declared] .
  have ty: "filteredRaw demoHost demoNow demoCriteria (sanitizeScholarships demoPayload)
     = Inr (map ofScholarship (filtered demoHost demoNow demoCriteria
              (map toScholarship (sanitizeScholarships demoPayload))))"
    using T [THEN conjunct2, THEN conjunct2, THEN conjunct2, THEN conjunct2, THEN conjunct2,
        THEN conjunct2, THEN conjunct2, THEN conjunct2, THEN conjunct2, THEN conjunct1, THEN mp,
        OF w] .
  have m: "matchesQueryRaw demoHost (ascii ''merit'') ?x = Inr True"
    by (simp add: matchesQueryRaw_def normalise_name includesLower_def orE_def toLowerCase_def
        lowerUnit_def ascii_def)
  have ev: "filteredRaw demoHost demoNow demoCriteria [?x] = Inr [?x]"
    by (simp add: filteredRaw_def demoCriteria_query demoCriteria_rest demoCriteria_lower m
        bindE_Inr singleton_sortAmountRaw)
  have ev': "filteredRaw demoHost demoNow demoCriteria (sanitizeScholarships demoPayload)
     = Inr (sanitizeScholarships demoPayload)"
    using ev by (simp only: demoPayload_sanitized)
  have sub: "mset (sanitizeScholarships demoPayload) \<subseteq># mset (sanitizeScholarships demoPayload)"
    using T [THEN conjunct1, THEN mp, OF ev'] by (rule conjunct1)
  have len: "length demoPayload = 3"
    by (simp add: demoPayload_def)
  have ids: "map r_id (sanitizeScholarships demoPayload) = [JStr (ascii ''sch-1'')]"
    by (simp only: demoPayload_sanitized list.map normalise_id)
  have d: "list_all declaredTypes demoPayload"
    using demoPayload_declared by (simp add: list_all_iff)
  have w': "list_all wellTyped (sanitizeScholarships demoPayload)"
    using w by (simp add: list_all_iff)
  show ?thesis
    by (intro conjI d len ids w' ev' ty sub)
qed

theorem filter_pipeline_counterexample:
  "map r_name (sanitizeScholarships [numberNamedEntry]) = [JNum (Finite 123)]
   \<and> trim (query demoCriteria) = ascii ''merit''
   \<and> filteredRaw demoHost demoNow demoCriteria (sanitizeScholarships [numberNamedEntry])
     = Inl TypeError"
proof -
  let ?kvs = "[(ascii ''id'', JStr (ascii ''x'')), (ascii ''name'', JNum (Finite 123))]"
  let ?x = "normalise (JStr (ascii ''x'')) (JNum (Finite 123)) ?kvs"
  have s: "sanitizeScholarships [numberNamedEntry] = [?x]"
    by (simp add: sanitizeScholarships_def numberNamedEntry_def sanitizeOne_def field_def
        truthyJ_def ascii_def)
  have m: "matchesQueryRaw demoHost (ascii ''merit'') ?x = Inl TypeError"
    by (simp add: matchesQueryRaw_def normalise_name includesLower_def orE_def)
  have q: "trim (query demoCriteria) = ascii ''merit''"
    by (simp add: demoCriteria_def trim_def ascii_def isWhiteSpace_def)
  have f: "filteredRaw demoHost demoNow demoCriteria [?x] = Inl TypeError"
    by (simp add: filteredRaw_def demoCriteria_query demoCriteria_lower m bindE_def)
  have n: "map r_name (sanitizeScholarships [numberNamedEntry]) = [JNum (Finite 123)]"
    by (simp only: s list.map normalise_name)
  have f': "filteredRaw demoHost demoNow demoCriteria (sanitizeScholarships [numberNamedEntry])
     = Inl TypeError"
    using f by (simp only: s)
  show ?thesis
    by (intro conjI n q f')
qed
section \<open>Properties of the sort keys\<close>

subsection \<open>The comparison of letter texts\<close>

lemma codeUnitCompare_sgn: "sgn (codeUnitCompare x y) = codeUnitCompare x y"
  by (induction x y rule: codeUnitCompare.induct) simp_all

lemma codeUnitCompare_neg: "codeUnitCompare y x = - codeUnitCompare x y"
  by (induction x y rule: codeUnitCompare.induct) auto

lemma codeUnitCompare_eq: "codeUnitCompare x y = 0 \<longleftrightarrow> x = y"
  by (induction x y rule: codeUnitCompare.induct) auto

lemma codeUnitCompare_refl: "codeUnitCompare x x = 0"
  by (simp add: codeUnitCompare_eq)

lemma codeUnitCompare_trans:
  "codeUnitCompare x y \<le> 0 \<Longrightarrow> codeUnitCompare y z \<le> 0 \<Longrightarrow> codeUnitCompare x z \<le> 0"
proof (induction x z arbitrary: y rule: codeUnitCompare.induct)
  case 1
  show ?case by simp
next
  case (2 c cs)
  show ?case by simp
next
  case (3 a as)
  then show ?case by (cases y) (auto split: if_splits)
next
  case (4 a as c cs)
  show ?case
  proof (cases y)
    case Nil
    with 4 show ?thesis by simp
  next
    case (Cons b bs)
    with 4 show ?thesis
      by (auto split: if_splits)
  qed
qed

lemma collationCompare_sgn: "sgn (collationCompare x y) = collationCompare x y"
  by (simp add: collationCompare_def Let_def codeUnitCompare_sgn)

lemma collationCompare_neg: "collationCompare y x = - collationCompare x y"
proof -
  have p: "codeUnitCompare (toLowerCase y) (toLowerCase x)
      = - codeUnitCompare (toLowerCase x) (toLowerCase y)"
    by (rule codeUnitCompare_neg)
  have s: "codeUnitCompare x y = - codeUnitCompare y x"
    by (rule codeUnitCompare_neg)
  show ?thesis
    by (simp add: collationCompare_def Let_def p s)
qed

lemma collationCompare_le:
  "collationCompare x y \<le> 0 \<longleftrightarrow>
     codeUnitCompare (toLowerCase x) (toLowerCase y) < 0
     \<or> (toLowerCase x = toLowerCase y \<and> codeUnitCompare y x \<le> 0)"
  using codeUnitCompare_eq [of "toLowerCase x" "toLowerCase y"]
  by (auto simp: collationCompare_def Let_def)

lemma codeUnitCompare_less_le:
  assumes "codeUnitCompare x y < 0" and "codeUnitCompare y z \<le> 0"
  shows "codeUnitCompare x z < 0"
proof -
  have le: "codeUnitCompare x z \<le> 0"
    using assms codeUnitCompare_trans [of x y z] by simp
  have "codeUnitCompare x z \<noteq> 0"
  proof
    assume "codeUnitCompare x z = 0"
    then have "x = z"
      by (simp add: codeUnitCompare_eq)
    then have "codeUnitCompare y x \<le> 0"
      using assms(2) by simp
    then show False
      using assms(1) codeUnitCompare_neg [of y x] by simp
  qed
  then show ?thesis
    using le by simp
qed

lemma codeUnitCompare_le_less:
  assumes "codeUnitCompare x y \<le> 0" and "codeUnitCompare y z < 0"
  shows "codeUnitCompare x z < 0"
proof -
  have le: "codeUnitCompare x z \<le> 0"
    using assms codeUnitCompare_trans [of x y z] by simp
  have "codeUnitCompare x z \<noteq> 0"
  proof
    assume "codeUnitCompare x z = 0"
    then have "x = z"
      by (simp add: codeUnitCompare_eq)
    then have "codeUnitCompare z y \<le> 0"
      using assms(1) by simp
    then show False
      using assms(2) codeUnitCompare_neg [of z y] by simp
  qed
  then show ?thesis
    using le by simp
qed

lemma collationCompare_trans:
  assumes xy: "collationCompare x y \<le> 0" and yz: "collationCompare y z \<le> 0"
  shows "collationCompare x z \<le> 0"
proof -
  let ?p = "\<lambda>a b. codeUnitCompare (toLowerCase a) (toLowerCase b)"
  from xy consider (l1) "?p x y < 0" | (e1) "toLowerCase x = toLowerCase y" "codeUnitCompare y x \<le> 0"
    unfolding collationCompare_le by blast
  then show ?thesis
  proof cases
    case l1
    have "?p y z \<le> 0"
      using yz unfolding collationCompare_le by (auto simp: codeUnitCompare_refl)
    then have "?p x z < 0"
      using l1 codeUnitCompare_less_le by blast
    then show ?thesis
      unfolding collationCompare_le by simp
  next
    case e1
    from yz consider (l2) "?p y z < 0" | (e2) "toLowerCase y = toLowerCase z" "codeUnitCompare z y \<le> 0"
      unfolding collationCompare_le by blast
    then show ?thesis
    proof cases
      case l2
      then show ?thesis
        unfolding collationCompare_le using e1(1) by simp
    next
      case e2
      have "codeUnitCompare z x \<le> 0"
        using e2(2) e1(2) by (rule codeUnitCompare_trans)
      then show ?thesis
        unfolding collationCompare_le using e1(1) e2(1) by simp
    qed
  qed
qed

lemma collationCompare_consistent: "consistentCompare collationCompare"
  unfolding consistentCompare_def
proof (intro conjI allI impI)
  fix x y
  show "(collationCompare x y < 0) = (0 < collationCompare y x)"
    using collationCompare_neg [of y x] by simp
next
  fix x y z
  assume "collationCompare x y \<le> 0 \<and> collationCompare y z \<le> 0"
  then show "collationCompare x z \<le> 0"
    using collationCompare_trans by blast
qed

lemma demoHost_compare: "localeCompare demoHost = collationCompare"
  by (simp add: demoHost_def)

lemma demoHost_consistent: "consistentCompare (localeCompare demoHost)"
  unfolding demoHost_compare by (rule collationCompare_consistent)

lemma demoHost_rootCollation: "rootCollation demoHost"
  by (simp add: rootCollation_def demoHost_compare collationCompare_sgn)

lemma sgn_le_iff: "(sgn (i::int) \<le> 0) = (i \<le> 0)" and sgn_pos_iff: "(0 < sgn (i::int)) = (0 < i)"
  by (simp_all add: sgn_if)

lemma rootCollation_le:
  assumes "rootCollation h" and "list_all isLetter a" and "list_all isLetter b"
  shows "(localeCompare h a b \<le> 0) = (collationCompare a b \<le> 0)"
    and "(0 < localeCompare h a b) = (0 < collationCompare a b)"
proof -
  have s: "sgn (localeCompare h a b) = collationCompare a b"
    using assms by (simp add: rootCollation_def)
  show "(localeCompare h a b \<le> 0) = (collationCompare a b \<le> 0)"
    using sgn_le_iff [of "localeCompare h a b"] by (simp only: s)
  show "(0 < localeCompare h a b) = (0 < collationCompare a b)"
    using sgn_pos_iff [of "localeCompare h a b"] by (simp only: s)
qed

lemma letters: "list_all isLetter (ascii ''banana'')" "list_all isLetter (ascii ''Apple'')"
  "list_all isLetter (ascii ''apple'')"
  by (simp_all add: ascii_def isLetter_def)

lemma collation_examples:
  "collationCompare (ascii ''banana'') (ascii ''Apple'') = 1"
  "collationCompare (ascii ''Apple'') (ascii ''apple'') = 1"
  "collationCompare (ascii ''apple'') (ascii ''Apple'') = - 1"
  by (simp_all add: collationCompare_def Let_def toLowerCase_def lowerUnit_def ascii_def)

lemma rootCollation_examples:
  assumes r: "rootCollation h"
  shows "0 < localeCompare h (ascii ''banana'') (ascii ''Apple'')"
    and "0 < localeCompare h (ascii ''Apple'') (ascii ''apple'')"
    and "localeCompare h (ascii ''apple'') (ascii ''Apple'') \<le> 0"
  by (simp_all add: rootCollation_le [OF r] letters collation_examples)

lemma rootCollation_primary:
  assumes r: "rootCollation h" and a: "list_all isLetter a" and b: "list_all isLetter b"
    and ne: "toLowerCase a \<noteq> toLowerCase b"
  shows "(localeCompare h a b \<le> 0) = (codeUnitCompare (toLowerCase a) (toLowerCase b) \<le> 0)"
proof -
  have "codeUnitCompare (toLowerCase a) (toLowerCase b) \<noteq> 0"
    using ne by (simp add: codeUnitCompare_eq)
  then have "collationCompare a b = codeUnitCompare (toLowerCase a) (toLowerCase b)"
    by (simp add: collationCompare_def Let_def)
  then show ?thesis
    by (simp add: rootCollation_le(1) [OF r a b])
qed

lemma rootCollation_case:
  assumes r: "rootCollation h" and a: "list_all isLetter a" and b: "list_all isLetter b"
    and ne: "a \<noteq> b"
  shows "localeCompare h a b \<noteq> 0"
proof -
  have "collationCompare a b \<noteq> 0"
    using ne codeUnitCompare_eq [of b a] by (auto simp: collationCompare_def Let_def)
  moreover have "sgn (localeCompare h a b) = collationCompare a b"
    using r a b by (simp add: rootCollation_def)
  ultimately show ?thesis
    by auto
qed

subsection \<open>The sort with a consistent comparator\<close>

lemma sorted_wrt_insertSorted:
  assumes tot: "\<And>x y. cmp x y \<le> 0 \<or> cmp y x \<le> 0"
    and tr: "\<And>x y z. cmp x y \<le> 0 \<Longrightarrow> cmp y z \<le> 0 \<Longrightarrow> cmp x z \<le> 0"
    and s: "sorted_wrt (\<lambda>a b. cmp a b \<le> 0) ys"
  shows "sorted_wrt (\<lambda>a b. cmp a b \<le> 0) (insertSorted cmp x ys)"
  using s
proof (induction ys)
  case Nil
  show ?case by simp
next
  case (Cons y ys)
  show ?case
  proof (cases "cmp x y \<le> 0")
    case True
    have "cmp x z \<le> 0" if "z \<in> set ys" for z
      using Cons.prems that True tr by auto
    then show ?thesis
      using True Cons.prems by auto
  next
    case False
    then have yx: "cmp y x \<le> 0"
      using tot [of x y] by simp
    have "sorted_wrt (\<lambda>a b. cmp a b \<le> 0) (insertSorted cmp x ys)"
      using Cons by simp
    moreover have "cmp y z \<le> 0" if "z \<in> set (insertSorted cmp x ys)" for z
      using that yx Cons.prems by (auto simp: set_insertSorted)
    ultimately show ?thesis
      using False by simp
  qed
qed

lemma sorted_wrt_sortBy:
  assumes tot: "\<And>x y. cmp x y \<le> 0 \<or> cmp y x \<le> 0"
    and tr: "\<And>x y z. cmp x y \<le> 0 \<Longrightarrow> cmp y z \<le> 0 \<Longrightarrow> cmp x z \<le> 0"
  shows "sorted_wrt (\<lambda>a b. cmp a b \<le> 0) (sortBy cmp xs)"
proof (induction xs)
  case Nil
  show ?case by (simp add: sortBy_Nil)
next
  case (Cons x xs)
  show ?case
    unfolding sortBy_Cons using tot tr Cons by (rule sorted_wrt_insertSorted)
qed

lemma filter_insertSorted:
  assumes tr: "\<And>x y z. cmp x y \<le> 0 \<Longrightarrow> cmp y z \<le> 0 \<Longrightarrow> cmp x z \<le> 0"
  shows "filter (\<lambda>y. cmp y k \<le> 0 \<and> cmp k y \<le> 0) (insertSorted cmp x ys)
     = (if cmp x k \<le> 0 \<and> cmp k x \<le> 0
        then x # filter (\<lambda>y. cmp y k \<le> 0 \<and> cmp k y \<le> 0) ys
        else filter (\<lambda>y. cmp y k \<le> 0 \<and> cmp k y \<le> 0) ys)"
proof (induction ys)
  case Nil
  show ?case by simp
next
  case (Cons y ys)
  show ?case
  proof (cases "cmp x y \<le> 0")
    case True
    then show ?thesis by simp
  next
    case False
    have "\<not> (cmp x k \<le> 0 \<and> cmp k y \<le> 0)"
      using False tr by blast
    then show ?thesis
      using False Cons by auto
  qed
qed

lemma sortBy_stable:
  assumes tr: "\<And>x y z. cmp x y \<le> 0 \<Longrightarrow> cmp y z \<le> 0 \<Longrightarrow> cmp x z \<le> 0"
  shows "filter (\<lambda>y. cmp y k \<le> 0 \<and> cmp k y \<le> 0) (sortBy cmp xs)
     = filter (\<lambda>y. cmp y k \<le> 0 \<and> cmp k y \<le> 0) xs"
proof (induction xs)
  case Nil
  show ?case by (simp add: sortBy_Nil)
next
  case (Cons x xs)
  show ?case
    unfolding sortBy_Cons by (simp add: filter_insertSorted [of cmp, OF tr] Cons)
qed

lemma consistent_total:
  assumes "consistentCompare cmp"
  shows "cmp x y \<le> 0 \<or> cmp y x \<le> 0"
proof (cases "cmp x y \<le> 0")
  case False
  then have "0 < cmp x y" by simp
  then have "cmp y x < 0"
    using assms by (simp add: consistentCompare_def)
  then show ?thesis by simp
qed simp

lemma consistent_trans:
  assumes "consistentCompare cmp" and "cmp x y \<le> 0" and "cmp y z \<le> 0"
  shows "cmp x z \<le> 0"
  using assms unfolding consistentCompare_def by blast

lemma consistent_zero:
  assumes "consistentCompare cmp"
  shows "(cmp x y = 0) = (cmp y x = 0)"
proof -
  have a: "(cmp x y < 0) = (0 < cmp y x)" and b: "(cmp y x < 0) = (0 < cmp x y)"
    using assms by (simp_all add: consistentCompare_def)
  show ?thesis
    using a b by auto
qed

lemma consistent_equiv:
  assumes "consistentCompare cmp"
  shows "(cmp x y \<le> 0 \<and> cmp y x \<le> 0) = (cmp x y = 0)"
proof -
  have a: "(cmp x y < 0) = (0 < cmp y x)" and b: "(cmp y x < 0) = (0 < cmp x y)"
    using assms by (simp_all add: consistentCompare_def)
  show ?thesis
    using a b by auto
qed

lemma consistent_less_le:
  assumes c: "consistentCompare cmp" and xy: "cmp x y < 0" and yz: "cmp y z \<le> 0"
  shows "cmp x z < 0"
proof -
  have le: "cmp x z \<le> 0"
    using consistent_trans [OF c, of x y z] xy yz by simp
  have "cmp x z \<noteq> 0"
  proof
    assume "cmp x z = 0"
    then have "cmp z x \<le> 0"
      using consistent_zero [OF c, of x z] by simp
    with yz have "cmp y x \<le> 0"
      by (rule consistent_trans [OF c])
    moreover have "0 < cmp y x"
      using c xy by (simp add: consistentCompare_def)
    ultimately show False by simp
  qed
  then show ?thesis
    using le by simp
qed

lemma consistent_le_less:
  assumes c: "consistentCompare cmp" and xy: "cmp x y \<le> 0" and yz: "cmp y z < 0"
  shows "cmp x z < 0"
proof -
  have le: "cmp x z \<le> 0"
    using consistent_trans [OF c, of x y z] xy yz by simp
  have "cmp x z \<noteq> 0"
  proof
    assume "cmp x z = 0"
    then have "cmp z x \<le> 0"
      using consistent_zero [OF c, of x z] by simp
    then have "cmp z y \<le> 0"
      using xy by (rule consistent_trans [OF c])
    moreover have "0 < cmp z y"
      using c yz by (simp add: consistentCompare_def)
    ultimately show False by simp
  qed
  then show ?thesis
    using le by simp
qed

subsection \<open>Courses\<close>

lemma compareCourses_alphabetical:
  "(compareCourses h alphabetical x y \<le> 0) = (localeCompare h (c_title x) (c_title y) \<le> 0)"
  by (simp add: compareCourses_def)

lemma alphabetical_consistent:
  assumes "consistentCompare (localeCompare h)"
  shows "compareCourses h alphabetical x y \<le> 0 \<or> compareCourses h alphabetical y x \<le> 0"
    and "compareCourses h alphabetical x y \<le> 0 \<Longrightarrow> compareCourses h alphabetical y z \<le> 0
      \<Longrightarrow> compareCourses h alphabetical x z \<le> 0"
  unfolding compareCourses_alphabetical
  using consistent_total [OF assms] consistent_trans [OF assms] by blast+

lemma sortCourses_relevance:
  "sortBy (compareCourses h relevance) xs = sort_key (\<lambda>c. - orZero (c_relevance c)) xs"
  by (rule sortBy_sort_key) (simp add: compareCourses_def)

lemma sortCourses_popularity:
  "sortBy (compareCourses h popularity) xs = sort_key (\<lambda>c. - orZero (c_popularity c)) xs"
  by (rule sortBy_sort_key) (simp add: compareCourses_def)

lemma filteredCourses_mset: "mset (filteredCourses h level search key xs) \<subseteq># mset xs"
proof -
  define byLevel where "byLevel = (if level = LevelAll then xs else filter (levelMatches level) xs)"
  define bySearch where
    "bySearch = (if search \<noteq> [] then filter (searchMatches search) byLevel else byLevel)"
  have 1: "mset byLevel \<subseteq># mset xs"
    by (simp add: byLevel_def)
  have "mset bySearch \<subseteq># mset byLevel"
    by (simp add: bySearch_def)
  then have 2: "mset bySearch \<subseteq># mset xs"
    using 1 by (rule subset_mset.order_trans)
  have "filteredCourses h level search key xs = sortBy (compareCourses h key) bySearch"
    by (simp only: filteredCourses_def Let_def byLevel_def bySearch_def)
  then show ?thesis
    using 2 by (simp add: mset_sortBy)
qed

lemma filteredCourses_all: "filteredCourses h LevelAll [] key xs = sortBy (compareCourses h key) xs"
  by (simp add: filteredCourses_def)

lemma sort_two_titles:
  assumes "0 < localeCompare h (c_title a) (c_title b)"
  shows "sortBy (compareCourses h alphabetical) [a, b] = [b, a]"
  using assms by (simp add: sortBy_Cons sortBy_Nil compareCourses_def)

lemma sort_two_titles_kept:
  assumes "localeCompare h (c_title a) (c_title b) \<le> 0"
  shows "sortBy (compareCourses h alphabetical) [a, b] = [a, b]"
  using assms by (simp add: sortBy_Cons sortBy_Nil compareCourses_def)

subsection \<open>Career recommendations\<close>

lemma sort_two_items:
  assumes "0 < localeCompare h (cr_title p) (cr_title q)"
  shows "sortItems h name_asc [p, q] = [q, p]"
  using assms by (simp add: sortItems_def sortBy_Cons sortBy_Nil itemOrder_def)

lemma itemOrder_name:
  "(itemOrder h name_asc x y \<le> 0) = (localeCompare h (cr_title x) (cr_title y) \<le> 0)"
  by (simp add: itemOrder_def)

lemma itemOrder_stream:
  "(itemOrder h stream_asc x y \<le> 0)
     = (localeCompare h (cr_stream x) (cr_stream y) < 0
        \<or> (localeCompare h (cr_stream x) (cr_stream y) = 0 \<and> cr_fitScore y \<le> cr_fitScore x))"
  by (auto simp: itemOrder_def Let_def)

lemma name_consistent:
  assumes "consistentCompare (localeCompare h)"
  shows "itemOrder h name_asc x y \<le> 0 \<or> itemOrder h name_asc y x \<le> 0"
    and "itemOrder h name_asc x y \<le> 0 \<Longrightarrow> itemOrder h name_asc y z \<le> 0
      \<Longrightarrow> itemOrder h name_asc x z \<le> 0"
  unfolding itemOrder_name
  using consistent_total [OF assms] consistent_trans [OF assms] by blast+

lemma stream_total:
  assumes c: "consistentCompare (localeCompare h)"
  shows "itemOrder h stream_asc x y \<le> 0 \<or> itemOrder h stream_asc y x \<le> 0"
proof -
  let ?a = "localeCompare h (cr_stream x) (cr_stream y)"
  let ?b = "localeCompare h (cr_stream y) (cr_stream x)"
  have s: "(?a < 0) = (0 < ?b)" "(?b < 0) = (0 < ?a)"
    using c by (simp_all add: consistentCompare_def)
  show ?thesis
    unfolding itemOrder_stream using s by auto
qed

lemma stream_trans:
  assumes c: "consistentCompare (localeCompare h)"
    and xy: "itemOrder h stream_asc x y \<le> 0" and yz: "itemOrder h stream_asc y z \<le> 0"
  shows "itemOrder h stream_asc x z \<le> 0"
proof -
  let ?c = "\<lambda>a b. localeCompare h (cr_stream a) (cr_stream b)"
  from xy consider (l1) "?c x y < 0" | (e1) "?c x y = 0" "cr_fitScore y \<le> cr_fitScore x"
    unfolding itemOrder_stream by blast
  then show ?thesis
  proof cases
    case l1
    have "?c y z \<le> 0"
      using yz unfolding itemOrder_stream by auto
    then have "?c x z < 0"
      using consistent_less_le [OF c l1] by simp
    then show ?thesis
      unfolding itemOrder_stream by simp
  next
    case e1
    from yz consider (l2) "?c y z < 0" | (e2) "?c y z = 0" "cr_fitScore z \<le> cr_fitScore y"
      unfolding itemOrder_stream by blast
    then show ?thesis
    proof cases
      case l2
      have "?c x y \<le> 0"
        using e1(1) by simp
      then have "?c x z < 0"
        using l2 by (rule consistent_le_less [OF c])
      then show ?thesis
        unfolding itemOrder_stream by simp
    next
      case e2
      have le: "?c x z \<le> 0"
        using consistent_trans [OF c, of "cr_stream x" "cr_stream y" "cr_stream z"] e1(1) e2(1)
        by simp
      have "?c z y = 0" and "?c y x = 0"
        using consistent_zero [OF c] e1(1) e2(1) by simp_all
      then have "?c z x \<le> 0"
        using consistent_trans [OF c, of "cr_stream z" "cr_stream y" "cr_stream x"] by simp
      then have "?c x z = 0"
        using le consistent_equiv [OF c, of "cr_stream x" "cr_stream z"] by simp
      then show ?thesis
        unfolding itemOrder_stream using e1(2) e2(2) by simp
    qed
  qed
qed

lemma stream_equiv:
  assumes c: "consistentCompare (localeCompare h)"
  shows "(itemOrder h stream_asc y k \<le> 0 \<and> itemOrder h stream_asc k y \<le> 0)
     = (localeCompare h (cr_stream y) (cr_stream k) = 0 \<and> cr_fitScore y = cr_fitScore k)"
proof -
  let ?a = "localeCompare h (cr_stream y) (cr_stream k)"
  let ?b = "localeCompare h (cr_stream k) (cr_stream y)"
  have s: "(?a < 0) = (0 < ?b)" "(?b < 0) = (0 < ?a)"
    using c by (simp_all add: consistentCompare_def)
  show ?thesis
    unfolding itemOrder_stream using s by auto
qed

lemma sortItems_fit:
  "sortItems h fit_desc items = sort_key (\<lambda>i. - cr_fitScore i) items"
  unfolding sortItems_def by (rule sortBy_sort_key) (simp add: itemOrder_def)

lemma filteredItems_mset: "mset (filteredItems h v items) \<subseteq># mset items"
proof -
  define d1 where "d1 = (if trim (v_query v) \<noteq> []
      then filter (itemMatches (toLowerCase (v_query v))) items else items)"
  define d2 where "d2 = (if v_selectedStreams v \<noteq> []
      then filter (\<lambda>i. cr_stream i \<in> set (v_selectedStreams v)) d1 else d1)"
  define d3 where "d3 = (case v_minFit v of None \<Rightarrow> d2
      | Some m \<Rightarrow> filter (\<lambda>i. m \<le> cr_fitScore i) d2)"
  define d4 where "d4 = (if v_showBookmarksOnly v
      then filter (\<lambda>i. cr_id i \<in> v_bookmarked v) d3 else d3)"
  have 1: "mset d1 \<subseteq># mset items"
    by (simp add: d1_def)
  have "mset d2 \<subseteq># mset d1"
    by (simp add: d2_def)
  then have 2: "mset d2 \<subseteq># mset items"
    using 1 by (rule subset_mset.order_trans)
  have "mset d3 \<subseteq># mset d2"
    by (simp add: d3_def split: option.splits)
  then have 3: "mset d3 \<subseteq># mset items"
    using 2 by (rule subset_mset.order_trans)
  have "mset d4 \<subseteq># mset d3"
    by (simp add: d4_def)
  then have 4: "mset d4 \<subseteq># mset items"
    using 3 by (rule subset_mset.order_trans)
  have "filteredItems h v items = sortItems h (v_sort v) d4"
    by (simp only: filteredItems_def Let_def d1_def d2_def d3_def d4_def)
  then show ?thesis
    using 4 by (simp add: sortItems_def mset_sortBy)
qed

lemma topMatch_array: "snd (topMatch h items) = sortItems h fit_desc items"
  and topMatch_title: "fst (topMatch h items)
     = (case sortItems h fit_desc items of [] \<Rightarrow> None | i # _ \<Rightarrow> Some (cr_title i))"
  by (simp_all add: topMatch_def sortItems_def Let_def)

text \<open>
  C9.  The alphabetical key compares titles with the host's \<^verbatim>\<open>localeCompare\<close> at its
  default strength, which is not case-insensitive.  On a host with the root collation,
  titles of letters that differ in more than case are ordered alphabetically whatever
  their case (courses, or career recommendations, titled "banana", "Apple" sort to
  "Apple", "banana"), and titles that differ only in case are never equal: "Apple",
  "apple" sort to "apple", "Apple" in either input order.  The sort places every record
  exactly once.  When the comparison is consistent, the result of the alphabetical key of
  the courses, and of the keys \<open>name-asc\<close> and \<open>stream-asc\<close> (stream, then fit score
  descending) of the recommendations, ascends in the comparator and records that compare
  equal keep their order.  Under the numeric keys (relevance and popularity, a missing
  field counting as 0, and \<open>fit-desc\<close>) the result descends in the field and records with
  equal values keep their order.  The header's best match sorts the array of the
  \<^verbatim>\<open>items\<close> property itself by fit score.
\<close>

theorem sort_keys_spec:
  "(rootCollation h \<and> c_title a = ascii ''banana'' \<and> c_title b = ascii ''Apple''
     \<longrightarrow> map c_title (filteredCourses h LevelAll [] alphabetical [a, b])
          = [ascii ''Apple'', ascii ''banana''])
   \<and> (rootCollation h \<and> cr_title p = ascii ''banana'' \<and> cr_title q = ascii ''Apple''
     \<longrightarrow> map cr_title (sortItems h name_asc [p, q]) = [ascii ''Apple'', ascii ''banana''])
   \<and> (rootCollation h \<and> c_title a' = ascii ''Apple'' \<and> c_title b' = ascii ''apple''
     \<longrightarrow> sortBy (compareCourses h alphabetical) [a', b'] = [b', a']
         \<and> sortBy (compareCourses h alphabetical) [b', a'] = [b', a'])
   \<and> (rootCollation h \<and> list_all isLetter s \<and> list_all isLetter t
       \<and> toLowerCase s \<noteq> toLowerCase t
     \<longrightarrow> (localeCompare h s t \<le> 0) = (codeUnitCompare (toLowerCase s) (toLowerCase t) \<le> 0))
   \<and> (rootCollation h \<and> list_all isLetter s \<and> list_all isLetter t \<and> s \<noteq> t
     \<longrightarrow> localeCompare h s t \<noteq> 0)
   \<and> mset (sortBy (compareCourses h key) xs) = mset xs
   \<and> mset (filteredCourses h level search key xs) \<subseteq># mset xs
   \<and> mset (sortItems h ikey items) = mset items
   \<and> mset (filteredItems h v items) \<subseteq># mset items
   \<and> (consistentCompare (localeCompare h) \<longrightarrow>
        sorted_wrt (\<lambda>x y. localeCompare h (c_title x) (c_title y) \<le> 0)
          (sortBy (compareCourses h alphabetical) xs)
        \<and> (\<forall>k::Course. filter (\<lambda>y. localeCompare h (c_title y) (c_title k) \<le> 0
                         \<and> localeCompare h (c_title k) (c_title y) \<le> 0)
                 (sortBy (compareCourses h alphabetical) xs)
               = filter (\<lambda>y. localeCompare h (c_title y) (c_title k) \<le> 0
                         \<and> localeCompare h (c_title k) (c_title y) \<le> 0) xs))
   \<and> (consistentCompare (localeCompare h) \<longrightarrow>
        sorted_wrt (\<lambda>x y. localeCompare h (cr_title x) (cr_title y) \<le> 0)
          (sortItems h name_asc items)
        \<and> (\<forall>k::CareerRecommendation.
              filter (\<lambda>y. localeCompare h (cr_title y) (cr_title k) \<le> 0
                         \<and> localeCompare h (cr_title k) (cr_title y) \<le> 0)
                 (sortItems h name_asc items)
               = filter (\<lambda>y. localeCompare h (cr_title y) (cr_title k) \<le> 0
                         \<and> localeCompare h (cr_title k) (cr_title y) \<le> 0) items))
   \<and> (consistentCompare (localeCompare h) \<longrightarrow>
        sorted_wrt (\<lambda>x y. localeCompare h (cr_stream x) (cr_stream y) < 0
                      \<or> (localeCompare h (cr_stream x) (cr_stream y) = 0
                         \<and> cr_fitScore y \<le> cr_fitScore x))
          (sortItems h stream_asc items)
        \<and> (\<forall>k::CareerRecommendation.
              filter (\<lambda>y. localeCompare h (cr_stream y) (cr_stream k) = 0
                         \<and> cr_fitScore y = cr_fitScore k)
                 (sortItems h stream_asc items)
               = filter (\<lambda>y. localeCompare h (cr_stream y) (cr_stream k) = 0
                         \<and> cr_fitScore y = cr_fitScore k) items))
   \<and> sortBy (compareCourses h relevance) xs = sort_key (\<lambda>c. - orZero (c_relevance c)) xs
   \<and> sortBy (compareCourses h popularity) xs = sort_key (\<lambda>c. - orZero (c_popularity c)) xs
   \<and> sortItems h fit_desc items = sort_key (\<lambda>i. - cr_fitScore i) items
   \<and> sorted (map (\<lambda>c. - orZero (c_relevance c)) (sortBy (compareCourses h relevance) xs))
   \<and> sorted (map (\<lambda>c. - orZero (c_popularity c)) (sortBy (compareCourses h popularity) xs))
   \<and> sorted (map (\<lambda>i. - cr_fitScore i) (sortItems h fit_desc items))
   \<and> (\<forall>v. filter (\<lambda>c. orZero (c_relevance c) = v) (sortBy (compareCourses h relevance) xs)
           = filter (\<lambda>c. orZero (c_relevance c) = v) xs)
   \<and> (\<forall>v. filter (\<lambda>c. orZero (c_popularity c) = v) (sortBy (compareCourses h popularity) xs)
           = filter (\<lambda>c. orZero (c_popularity c) = v) xs)
   \<and> (\<forall>v. filter (\<lambda>i. cr_fitScore i = v) (sortItems h fit_desc items)
           = filter (\<lambda>i. cr_fitScore i = v) items)
   \<and> orZero None = 0
   \<and> snd (topMatch h items) = sortItems h fit_desc items
   \<and> fst (topMatch h items)
       = (case sortItems h fit_desc items of [] \<Rightarrow> None | i # _ \<Rightarrow> Some (cr_title i))"
proof -
  have ex1: "rootCollation h \<and> c_title a = ascii ''banana'' \<and> c_title b = ascii ''Apple''
     \<longrightarrow> map c_title (filteredCourses h LevelAll [] alphabetical [a, b])
          = [ascii ''Apple'', ascii ''banana'']"
  proof
    assume h: "rootCollation h \<and> c_title a = ascii ''banana'' \<and> c_title b = ascii ''Apple''"
    then have "0 < localeCompare h (c_title a) (c_title b)"
      using rootCollation_examples(1) [of h] by simp
    then have "sortBy (compareCourses h alphabetical) [a, b] = [b, a]"
      by (rule sort_two_titles)
    then show "map c_title (filteredCourses h LevelAll [] alphabetical [a, b])
          = [ascii ''Apple'', ascii ''banana'']"
      using h by (simp add: filteredCourses_all)
  qed
  have ex2: "rootCollation h \<and> cr_title p = ascii ''banana'' \<and> cr_title q = ascii ''Apple''
     \<longrightarrow> map cr_title (sortItems h name_asc [p, q]) = [ascii ''Apple'', ascii ''banana'']"
  proof
    assume h: "rootCollation h \<and> cr_title p = ascii ''banana'' \<and> cr_title q = ascii ''Apple''"
    then have "0 < localeCompare h (cr_title p) (cr_title q)"
      using rootCollation_examples(1) [of h] by simp
    then have "sortItems h name_asc [p, q] = [q, p]"
      by (rule sort_two_items)
    then show "map cr_title (sortItems h name_asc [p, q]) = [ascii ''Apple'', ascii ''banana'']"
      using h by simp
  qed
  have ex3: "rootCollation h \<and> c_title a' = ascii ''Apple'' \<and> c_title b' = ascii ''apple''
     \<longrightarrow> sortBy (compareCourses h alphabetical) [a', b'] = [b', a']
         \<and> sortBy (compareCourses h alphabetical) [b', a'] = [b', a']"
  proof
    assume h: "rootCollation h \<and> c_title a' = ascii ''Apple'' \<and> c_title b' = ascii ''apple''"
    then have 1: "0 < localeCompare h (c_title a') (c_title b')"
      using rootCollation_examples(2) [of h] by simp
    have 2: "localeCompare h (c_title b') (c_title a') \<le> 0"
      using h rootCollation_examples(3) [of h] by simp
    show "sortBy (compareCourses h alphabetical) [a', b'] = [b', a']
         \<and> sortBy (compareCourses h alphabetical) [b', a'] = [b', a']"
      using sort_two_titles [OF 1] sort_two_titles_kept [OF 2] by (rule conjI)
  qed
  have pr: "rootCollation h \<and> list_all isLetter s \<and> list_all isLetter t
       \<and> toLowerCase s \<noteq> toLowerCase t
     \<longrightarrow> (localeCompare h s t \<le> 0) = (codeUnitCompare (toLowerCase s) (toLowerCase t) \<le> 0)"
    using rootCollation_primary [of h s t] by blast
  have cs: "rootCollation h \<and> list_all isLetter s \<and> list_all isLetter t \<and> s \<noteq> t
     \<longrightarrow> localeCompare h s t \<noteq> 0"
    using rootCollation_case [of h s t] by blast
  have mi: "mset (sortItems h ikey items) = mset items"
    by (simp add: sortItems_def mset_sortBy)
  have al: "consistentCompare (localeCompare h) \<longrightarrow>
        sorted_wrt (\<lambda>x y. localeCompare h (c_title x) (c_title y) \<le> 0)
          (sortBy (compareCourses h alphabetical) xs)
        \<and> (\<forall>k::Course. filter (\<lambda>y. localeCompare h (c_title y) (c_title k) \<le> 0
                         \<and> localeCompare h (c_title k) (c_title y) \<le> 0)
                 (sortBy (compareCourses h alphabetical) xs)
               = filter (\<lambda>y. localeCompare h (c_title y) (c_title k) \<le> 0
                         \<and> localeCompare h (c_title k) (c_title y) \<le> 0) xs)"
  proof
    assume cc: "consistentCompare (localeCompare h)"
    have "sorted_wrt (\<lambda>x y. compareCourses h alphabetical x y \<le> 0)
        (sortBy (compareCourses h alphabetical) xs)"
      by (rule sorted_wrt_sortBy) (rule alphabetical_consistent [OF cc], rule alphabetical_consistent [OF cc])
    then have s: "sorted_wrt (\<lambda>x y. localeCompare h (c_title x) (c_title y) \<le> 0)
          (sortBy (compareCourses h alphabetical) xs)"
      by (simp only: compareCourses_alphabetical)
    have stab: "filter (\<lambda>y. compareCourses h alphabetical y k \<le> 0 \<and> compareCourses h alphabetical k y \<le> 0)
            (sortBy (compareCourses h alphabetical) xs)
        = filter (\<lambda>y. compareCourses h alphabetical y k \<le> 0 \<and> compareCourses h alphabetical k y \<le> 0) xs"
      for k
      by (rule sortBy_stable) (rule alphabetical_consistent(2) [OF cc])
    have st: "\<forall>k::Course. filter (\<lambda>y. localeCompare h (c_title y) (c_title k) \<le> 0
                         \<and> localeCompare h (c_title k) (c_title y) \<le> 0)
                 (sortBy (compareCourses h alphabetical) xs)
               = filter (\<lambda>y. localeCompare h (c_title y) (c_title k) \<le> 0
                         \<and> localeCompare h (c_title k) (c_title y) \<le> 0) xs"
    proof
      fix k :: Course
      show "filter (\<lambda>y. localeCompare h (c_title y) (c_title k) \<le> 0
                         \<and> localeCompare h (c_title k) (c_title y) \<le> 0)
                 (sortBy (compareCourses h alphabetical) xs)
               = filter (\<lambda>y. localeCompare h (c_title y) (c_title k) \<le> 0
                         \<and> localeCompare h (c_title k) (c_title y) \<le> 0) xs"
        using stab [of k] by (simp only: compareCourses_alphabetical)
    qed
    from s st show "sorted_wrt (\<lambda>x y. localeCompare h (c_title x) (c_title y) \<le> 0)
          (sortBy (compareCourses h alphabetical) xs)
        \<and> (\<forall>k::Course. filter (\<lambda>y. localeCompare h (c_title y) (c_title k) \<le> 0
                         \<and> localeCompare h (c_title k) (c_title y) \<le> 0)
                 (sortBy (compareCourses h alphabetical) xs)
               = filter (\<lambda>y. localeCompare h (c_title y) (c_title k) \<le> 0
                         \<and> localeCompare h (c_title k) (c_title y) \<le> 0) xs)"
      by (rule conjI)
  qed
  have nm: "consistentCompare (localeCompare h) \<longrightarrow>
        sorted_wrt (\<lambda>x y. localeCompare h (cr_title x) (cr_title y) \<le> 0)
          (sortItems h name_asc items)
        \<and> (\<forall>k::CareerRecommendation.
              filter (\<lambda>y. localeCompare h (cr_title y) (cr_title k) \<le> 0
                         \<and> localeCompare h (cr_title k) (cr_title y) \<le> 0)
                 (sortItems h name_asc items)
               = filter (\<lambda>y. localeCompare h (cr_title y) (cr_title k) \<le> 0
                         \<and> localeCompare h (cr_title k) (cr_title y) \<le> 0) items)"
  proof
    assume cc: "consistentCompare (localeCompare h)"
    have "sorted_wrt (\<lambda>x y. itemOrder h name_asc x y \<le> 0) (sortBy (itemOrder h name_asc) items)"
      by (rule sorted_wrt_sortBy) (rule name_consistent [OF cc], rule name_consistent [OF cc])
    then have s: "sorted_wrt (\<lambda>x y. localeCompare h (cr_title x) (cr_title y) \<le> 0)
          (sortItems h name_asc items)"
      by (simp only: itemOrder_name sortItems_def)
    have stab: "filter (\<lambda>y. itemOrder h name_asc y k \<le> 0 \<and> itemOrder h name_asc k y \<le> 0)
            (sortBy (itemOrder h name_asc) items)
        = filter (\<lambda>y. itemOrder h name_asc y k \<le> 0 \<and> itemOrder h name_asc k y \<le> 0) items"
      for k
      by (rule sortBy_stable) (rule name_consistent(2) [OF cc])
    have st: "\<forall>k::CareerRecommendation.
              filter (\<lambda>y. localeCompare h (cr_title y) (cr_title k) \<le> 0
                         \<and> localeCompare h (cr_title k) (cr_title y) \<le> 0)
                 (sortItems h name_asc items)
               = filter (\<lambda>y. localeCompare h (cr_title y) (cr_title k) \<le> 0
                         \<and> localeCompare h (cr_title k) (cr_title y) \<le> 0) items"
    proof
      fix k :: CareerRecommendation
      show "filter (\<lambda>y. localeCompare h (cr_title y) (cr_title k) \<le> 0
                         \<and> localeCompare h (cr_title k) (cr_title y) \<le> 0)
                 (sortItems h name_asc items)
               = filter (\<lambda>y. localeCompare h (cr_title y) (cr_title k) \<le> 0
                         \<and> localeCompare h (cr_title k) (cr_title y) \<le> 0) items"
        using stab [of k] by (simp only: itemOrder_name sortItems_def)
    qed
    from s st show "sorted_wrt (\<lambda>x y. localeCompare h (cr_title x) (cr_title y) \<le> 0)
          (sortItems h name_asc items)
        \<and> (\<forall>k::CareerRecommendation.
              filter (\<lambda>y. localeCompare h (cr_title y) (cr_title k) \<le> 0
                         \<and> localeCompare h (cr_title k) (cr_title y) \<le> 0)
                 (sortItems h name_asc items)
               = filter (\<lambda>y. localeCompare h (cr_title y) (cr_title k) \<le> 0
                         \<and> localeCompare h (cr_title k) (cr_title y) \<le> 0) items)"
      by (rule conjI)
  qed
  have sm: "consistentCompare (localeCompare h) \<longrightarrow>
        sorted_wrt (\<lambda>x y. localeCompare h (cr_stream x) (cr_stream y) < 0
                      \<or> (localeCompare h (cr_stream x) (cr_stream y) = 0
                         \<and> cr_fitScore y \<le> cr_fitScore x))
          (sortItems h stream_asc items)
        \<and> (\<forall>k::CareerRecommendation.
              filter (\<lambda>y. localeCompare h (cr_stream y) (cr_stream k) = 0
                         \<and> cr_fitScore y = cr_fitScore k)
                 (sortItems h stream_asc items)
               = filter (\<lambda>y. localeCompare h (cr_stream y) (cr_stream k) = 0
                         \<and> cr_fitScore y = cr_fitScore k) items)"
  proof
    assume cc: "consistentCompare (localeCompare h)"
    have "sorted_wrt (\<lambda>x y. itemOrder h stream_asc x y \<le> 0)
        (sortBy (itemOrder h stream_asc) items)"
      by (rule sorted_wrt_sortBy) (rule stream_total [OF cc], rule stream_trans [OF cc])
    then have s: "sorted_wrt (\<lambda>x y. localeCompare h (cr_stream x) (cr_stream y) < 0
                      \<or> (localeCompare h (cr_stream x) (cr_stream y) = 0
                         \<and> cr_fitScore y \<le> cr_fitScore x))
          (sortItems h stream_asc items)"
      by (simp only: itemOrder_stream sortItems_def)
    have stab: "filter (\<lambda>y. itemOrder h stream_asc y k \<le> 0 \<and> itemOrder h stream_asc k y \<le> 0)
            (sortBy (itemOrder h stream_asc) items)
        = filter (\<lambda>y. itemOrder h stream_asc y k \<le> 0 \<and> itemOrder h stream_asc k y \<le> 0) items"
      for k
      by (rule sortBy_stable) (rule stream_trans [OF cc])
    have st: "\<forall>k::CareerRecommendation.
              filter (\<lambda>y. localeCompare h (cr_stream y) (cr_stream k) = 0
                         \<and> cr_fitScore y = cr_fitScore k)
                 (sortItems h stream_asc items)
               = filter (\<lambda>y. localeCompare h (cr_stream y) (cr_stream k) = 0
                         \<and> cr_fitScore y = cr_fitScore k) items"
    proof
      fix k :: CareerRecommendation
      show "filter (\<lambda>y. localeCompare h (cr_stream y) (cr_stream k) = 0
                         \<and> cr_fitScore y = cr_fitScore k)
                 (sortItems h stream_asc items)
               = filter (\<lambda>y. localeCompare h (cr_stream y) (cr_stream k) = 0
                         \<and> cr_fitScore y = cr_fitScore k) items"
        using stab [of k] by (simp only: stream_equiv [OF cc] sortItems_def)
    qed
    from s st show "sorted_wrt (\<lambda>x y. localeCompare h (cr_stream x) (cr_stream y) < 0
                      \<or> (localeCompare h (cr_stream x) (cr_stream y) = 0
                         \<and> cr_fitScore y \<le> cr_fitScore x))
          (sortItems h stream_asc items)
        \<and> (\<forall>k::CareerRecommendation.
              filter (\<lambda>y. localeCompare h (cr_stream y) (cr_stream k) = 0
                         \<and> cr_fitScore y = cr_fitScore k)
                 (sortItems h stream_asc items)
               = filter (\<lambda>y. localeCompare h (cr_stream y) (cr_stream k) = 0
                         \<and> cr_fitScore y = cr_fitScore k) items)"
      by (rule conjI)
  qed
  have sr: "sorted (map (\<lambda>c. - orZero (c_relevance c)) (sortBy (compareCourses h relevance) xs))"
    unfolding sortCourses_relevance by (rule sorted_sort_key)
  have sp: "sorted (map (\<lambda>c. - orZero (c_popularity c)) (sortBy (compareCourses h popularity) xs))"
    unfolding sortCourses_popularity by (rule sorted_sort_key)
  have sf: "sorted (map (\<lambda>i. - cr_fitScore i) (sortItems h fit_desc items))"
    unfolding sortItems_fit by (rule sorted_sort_key)
  have str: "\<forall>v. filter (\<lambda>c. orZero (c_relevance c) = v) (sortBy (compareCourses h relevance) xs)
           = filter (\<lambda>c. orZero (c_relevance c) = v) xs"
  proof
    fix v
    show "filter (\<lambda>c. orZero (c_relevance c) = v) (sortBy (compareCourses h relevance) xs)
           = filter (\<lambda>c. orZero (c_relevance c) = v) xs"
      unfolding sortCourses_relevance
      using sort_key_stable [of "\<lambda>c. - orZero (c_relevance c)" "- v" xs] by simp
  qed
  have stp: "\<forall>v. filter (\<lambda>c. orZero (c_popularity c) = v) (sortBy (compareCourses h popularity) xs)
           = filter (\<lambda>c. orZero (c_popularity c) = v) xs"
  proof
    fix v
    show "filter (\<lambda>c. orZero (c_popularity c) = v) (sortBy (compareCourses h popularity) xs)
           = filter (\<lambda>c. orZero (c_popularity c) = v) xs"
      unfolding sortCourses_popularity
      using sort_key_stable [of "\<lambda>c. - orZero (c_popularity c)" "- v" xs] by simp
  qed
  have stf: "\<forall>v. filter (\<lambda>i. cr_fitScore i = v) (sortItems h fit_desc items)
           = filter (\<lambda>i. cr_fitScore i = v) items"
  proof
    fix v
    show "filter (\<lambda>i. cr_fitScore i = v) (sortItems h fit_desc items)
           = filter (\<lambda>i. cr_fitScore i = v) items"
      unfolding sortItems_fit
      using sort_key_stable [of "\<lambda>i. - cr_fitScore i" "- v" items] by simp
  qed
  have z: "orZero None = 0"
    by (simp add: orZero_def)
  show ?thesis
    by (intro conjI ex1 ex2 ex3 pr cs mset_sortBy filteredCourses_mset mi filteredItems_mset
        al nm sm sortCourses_relevance sortCourses_popularity sortItems_fit sr sp sf
        str stp stf z topMatch_array topMatch_title)
qed

theorem sort_keys_spec_witness:
  "rootCollation demoHost
   \<and> consistentCompare (localeCompare demoHost)
   \<and> map c_title (filteredCourses demoHost LevelAll [] alphabetical [bananaCourse, appleCourse])
       = [ascii ''Apple'', ascii ''banana'']
   \<and> sortBy (compareCourses demoHost alphabetical) [appleCourse, lowerAppleCourse]
       = [lowerAppleCourse, appleCourse]
   \<and> sorted_wrt (\<lambda>x y. localeCompare demoHost (c_title x) (c_title y) \<le> 0)
       (sortBy (compareCourses demoHost alphabetical) [bananaCourse, appleCourse])
   \<and> c_relevance appleCourse = None
   \<and> map c_title (sortBy (compareCourses demoHost relevance) [bananaCourse, appleCourse])
       = [ascii ''Apple'', ascii ''banana'']"
proof -
  note T = sort_keys_spec [where h = demoHost and a = bananaCourse and b = appleCourse
      and a' = appleCourse and b' = lowerAppleCourse
      and xs = "[bananaCourse, appleCourse]" and key = alphabetical and level = LevelAll
      and search = "[]"]
  have ta: "c_title bananaCourse = ascii ''banana''" and tb: "c_title appleCourse = ascii ''Apple''"
    and tc: "c_title lowerAppleCourse = ascii ''apple''"
    by (simp_all add: bananaCourse_def appleCourse_def lowerAppleCourse_def)
  have e1: "map c_title (filteredCourses demoHost LevelAll [] alphabetical [bananaCourse, appleCourse])
       = [ascii ''Apple'', ascii ''banana'']"
    using T [THEN conjunct1] ta tb demoHost_rootCollation by blast
  have e3: "sortBy (compareCourses demoHost alphabetical) [appleCourse, lowerAppleCourse]
       = [lowerAppleCourse, appleCourse]"
    using T [THEN conjunct2, THEN conjunct2, THEN conjunct1] tb tc demoHost_rootCollation
    by blast
  have s: "sorted_wrt (\<lambda>x y. localeCompare demoHost (c_title x) (c_title y) \<le> 0)
       (sortBy (compareCourses demoHost alphabetical) [bananaCourse, appleCourse])"
    using T [THEN conjunct2, THEN conjunct2, THEN conjunct2, THEN conjunct2, THEN conjunct2,
        THEN conjunct2, THEN conjunct2, THEN conjunct2, THEN conjunct2, THEN conjunct1,
        THEN mp, OF demoHost_consistent]
    by (rule conjunct1)
  have rn: "c_relevance appleCourse = None" and rb: "c_relevance bananaCourse = Some (- 5)"
    by (simp_all add: bananaCourse_def appleCourse_def)
  have "sortBy (compareCourses demoHost relevance) [bananaCourse, appleCourse]
      = sort_key (\<lambda>c. - orZero (c_relevance c)) [bananaCourse, appleCourse]"
    using T [THEN conjunct2, THEN conjunct2, THEN conjunct2, THEN conjunct2, THEN conjunct2,
        THEN conjunct2, THEN conjunct2, THEN conjunct2, THEN conjunct2, THEN conjunct2,
        THEN conjunct2, THEN conjunct2, THEN conjunct1] .
  then have e2: "map c_title (sortBy (compareCourses demoHost relevance) [bananaCourse, appleCourse])
       = [ascii ''Apple'', ascii ''banana'']"
    by (simp add: rn rb orZero_def ta tb)
  show ?thesis
    by (intro conjI demoHost_rootCollation demoHost_consistent e1 e3 s rn e2)
qed

theorem sort_keys_counterexample:
  "toLowerCase (c_title appleCourse) = toLowerCase (c_title lowerAppleCourse)
   \<and> localeCompare demoHost (ascii ''apple'') (ascii ''Apple'') = - 1
   \<and> map c_title
       (filteredCourses demoHost LevelAll [] alphabetical [appleCourse, lowerAppleCourse])
     = [ascii ''apple'', ascii ''Apple'']"
proof -
  have ta: "c_title appleCourse = ascii ''Apple''"
    and tc: "c_title lowerAppleCourse = ascii ''apple''"
    by (simp_all add: appleCourse_def lowerAppleCourse_def)
  have l: "toLowerCase (c_title appleCourse) = toLowerCase (c_title lowerAppleCourse)"
    unfolding ta tc by (simp add: toLowerCase_def lowerUnit_def ascii_def)
  have c: "localeCompare demoHost (ascii ''apple'') (ascii ''Apple'') = - 1"
    unfolding demoHost_compare by (rule collation_examples)
  have "0 < localeCompare demoHost (c_title appleCourse) (c_title lowerAppleCourse)"
    unfolding ta tc demoHost_compare by (simp add: collation_examples)
  then have "sortBy (compareCourses demoHost alphabetical) [appleCourse, lowerAppleCourse]
      = [lowerAppleCourse, appleCourse]"
    by (rule sort_two_titles)
  then have s: "map c_title
       (filteredCourses demoHost LevelAll [] alphabetical [appleCourse, lowerAppleCourse])
     = [ascii ''apple'', ascii ''Apple'']"
    by (simp add: filteredCourses_all ta tc)
  show ?thesis
    by (intro conjI l c s)
qed
end
